theory Spec2Isabelle
  imports Main
begin

section \<open>Data model (app/models/models.py)\<close>

text \<open>
  Timestamps are timezone-aware instants; they are modelled as integers (microseconds
  since the epoch), so a \<open>timedelta\<close> is an integer too. Primary keys are natural
  numbers. A table is the list of its rows in the order a query without
  \<open>ORDER BY\<close> returns them.
\<close>

type_synonym timestamp = int

datatype StayStatus = PRE_STAY | IN_HOUSE | POST_STAY | STAY_CANCELLED

text \<open>
  The attributes \<open>determine_state\<close> reads off a \<open>Stay\<close> object. On a Python object
  each of them may be \<open>None\<close>, which is why the function tests them.
\<close>

record stay_attrs =
  sa_checkin_date :: "timestamp option"
  sa_checkout_date :: "timestamp option"
  sa_status :: "StayStatus option"

datatype JourneyEventStatus = PENDING | SENT | CANCELLED

datatype ConversationStatus = OPEN | ASSIGNED_TO_STAFF | CLOSED

datatype MessageSender = GUEST | BOT | STAFF

datatype MessageDirection = INCOMING | OUTGOING

datatype TaskStatus = TASK_OPEN | IN_PROGRESS | DONE | TASK_CANCELLED

datatype TaskType = HOUSEKEEPING | MAINTENANCE | LOST_AND_FOUND | FOOD_BEVERAGE | OTHER

text \<open>
  Of \<open>Hotel\<close> the model keeps the key, the subscription tier and the keys of the
  \<open>qr_tokens\<close> dictionary of its settings blob (an absent blob or entry is the
  empty set).
\<close>

record hotel =
  h_id :: nat
  subscription_tier :: string
  qr_tokens :: "string set"

record guest =
  g_id :: nat
  g_hotel_id :: nat
  phone_hash :: string
  preferred_language :: "string option"

record guest_pii =
  p_guest_id :: nat
  full_name :: "string option"
  phone_plain :: "string option"
  email_plain :: "string option"

record room =
  r_id :: nat
  r_hotel_id :: nat
  room_number :: string
  r_is_active :: bool

record stay =
  s_id :: nat
  s_hotel_id :: nat
  s_guest_id :: nat
  s_room_id :: "nat option"
  checkin_date :: timestamp
  checkout_date :: timestamp
  status :: StayStatus
  whatsapp_opt_in :: bool
  s_channel :: "string option"
  pms_reservation_id :: "string option"

record journey =
  j_id :: nat
  j_hotel_id :: nat
  j_name :: string
  delay_minutes :: int
  j_is_active :: bool
  template_key :: string

record journey_event =
  e_id :: nat
  e_hotel_id :: nat
  e_journey_id :: nat
  e_guest_id :: nat
  e_stay_id :: nat
  e_channel :: string
  run_at :: timestamp
  e_status :: JourneyEventStatus

record conversation =
  c_id :: nat
  c_hotel_id :: nat
  c_guest_id :: nat
  c_stay_id :: "nat option"
  c_room_id :: "nat option"
  c_channel :: string
  c_status :: ConversationStatus
  current_handler :: string
  c_created_at :: timestamp
  c_updated_at :: timestamp
  last_qr_scan_at :: "timestamp option"

record message =
  m_id :: nat
  m_conversation_id :: nat
  sender_type :: MessageSender
  direction :: MessageDirection
  m_text :: string
  m_created_at :: timestamp

text \<open>
  The text of a task is Unicode text written by the agent: a Python \<open>str\<close> there is the
  list of the code points of its characters (the integers \<open>ord\<close> gives).
  \<open>payload_room\<close> is the entry \<open>room\<close> of \<open>payload_json\<close>.
\<close>

type_synonym ustr = "int list"

record task =
  t_id :: nat
  t_hotel_id :: nat
  t_stay_id :: "nat option"
  t_type :: TaskType
  t_status :: TaskStatus
  staff_summary :: "ustr option"
  payload_room :: "ustr option"
  priority :: ustr
  t_created_at :: timestamp

text \<open>The database: one list of rows per table.\<close>

record db =
  hotels :: "hotel list"
  guests :: "guest list"
  piis :: "guest_pii list"
  rooms :: "room list"
  stays :: "stay list"
  journeys :: "journey list"
  journey_events :: "journey_event list"
  conversations :: "conversation list"
  messages :: "message list"
  tasks :: "task list"

text \<open>
  A serial primary key: the key given to an inserted row is greater than every key of
  the table.
\<close>

definition fresh_id :: "nat list \<Rightarrow> nat" where
  "fresh_id ids = Suc (fold max ids 0)"

text \<open>
  A row loaded by \<open>.first()\<close> and then assigned to is the first row of the table that
  satisfies the query's filter; \<open>update_first\<close> rewrites that row.
\<close>

fun update_first :: "('a \<Rightarrow> bool) \<Rightarrow> ('a \<Rightarrow> 'a) \<Rightarrow> 'a list \<Rightarrow> 'a list" where
  "update_first P f [] = []"
| "update_first P f (x # xs) = (if P x then f x # xs else x # update_first P f xs)"

text \<open>Python truthiness of an optional string: neither \<open>None\<close> nor empty.\<close>

definition truthy :: "string option \<Rightarrow> bool" where
  "truthy s = (case s of None \<Rightarrow> False | Some v \<Rightarrow> v \<noteq> [])"

text \<open>The attributes of a row of \<open>stay\<close>, as \<open>determine_state\<close> reads them.\<close>

definition attrs :: "stay \<Rightarrow> stay_attrs" where
  "attrs s = \<lparr>sa_checkin_date = Some (checkin_date s), sa_checkout_date = Some (checkout_date s),
              sa_status = Some (status s)\<rparr>"


section \<open>Identity resolver (app/services/identity_resolver.py)\<close>

subsection \<open>determine_state\<close>

text \<open>
  \<open>now\<close> is the value of \<open>datetime.now(timezone.utc)\<close> read inside the function.
  A \<open>datetime\<close> and a member of the string enum \<open>StayStatus\<close> are always truthy, so
  each truth test of the source is a test for \<open>None\<close>.
\<close>

definition determine_state :: "timestamp \<Rightarrow> stay_attrs option \<Rightarrow> StayStatus" where
  "determine_state now stay =
     (case stay of
        None \<Rightarrow> POST_STAY
      | Some s \<Rightarrow>
          (case (sa_checkin_date s, sa_checkout_date s) of
             (Some ci, Some co) \<Rightarrow>
               if now < ci then PRE_STAY
               else if ci \<le> now \<and> now < co then IN_HOUSE
               else POST_STAY
           | _ \<Rightarrow> (case sa_status s of Some st \<Rightarrow> st | None \<Rightarrow> POST_STAY)))"

subsection \<open>phone_variants and canonical_phone\<close>

text \<open>
  Strings are lists of 8-bit characters; \<open>\D\<close> is modelled on ASCII, where the
  digits are \<open>0\<close> to \<open>9\<close>. The Python set of variants is a duplicate-free list
  (\<open>List.insert\<close> is \<open>set.add\<close>).
\<close>

definition isdigit :: "char \<Rightarrow> bool" where
  "isdigit c = (c \<in> set ''0123456789'')"

definition startswith :: "string \<Rightarrow> string \<Rightarrow> bool" where
  "startswith s p = (take (length p) s = p)"

definition phone_variants :: "string \<Rightarrow> string list" where
  "phone_variants raw_phone =
     (let digits = filter isdigit raw_phone in
      if digits = [] then []
      else
        let digits = (if startswith digits ''00'' then drop 2 digits else digits);
            variants = [digits];
            variants = (if startswith digits ''0'' \<and> length digits > 1
                        then List.insert (drop 1 digits) variants else variants);
            variants = (if startswith digits ''40'' \<and> length digits > 2
                        then List.insert (''0'' @ drop 2 digits) variants else variants)
        in filter (\<lambda>v. v \<noteq> []) variants)"

text \<open>
  \<open>sorted(variants, key=len, reverse=True)[0]\<close>: a stable sort by decreasing length,
  then the first element; \<open>None\<close> when there is no variant.
\<close>

definition canonical_phone :: "string \<Rightarrow> string option" where
  "canonical_phone raw_phone =
     (case sort_key (\<lambda>v. - int (length v)) (phone_variants raw_phone) of
        [] \<Rightarrow> None
      | v # _ \<Rightarrow> Some v)"


subsection \<open>_ensure_guest_pii\<close>

definition ensure_guest_pii :: "db \<Rightarrow> guest \<Rightarrow> string \<Rightarrow> db" where
  "ensure_guest_pii d guest phone =
     (if phone = [] then d
      else case canonical_phone phone of
        None \<Rightarrow> d
      | Some canonical \<Rightarrow>
          (case find (\<lambda>p. p_guest_id p = g_id guest) (piis d) of
             Some pii \<Rightarrow>
               if truthy (phone_plain pii) then d
               else d\<lparr>piis := update_first (\<lambda>p. p_guest_id p = g_id guest)
                                (\<lambda>p. p\<lparr>phone_plain := Some canonical\<rparr>) (piis d)\<rparr>
           | None \<Rightarrow>
               d\<lparr>piis := piis d @ [\<lparr>p_guest_id = g_id guest, full_name = None,
                                      phone_plain = Some canonical, email_plain = None\<rparr>]\<rparr>))"

subsection \<open>_ensure_hotel and _find_guest_globally\<close>

definition ensure_hotel :: "db \<Rightarrow> nat \<Rightarrow> hotel option" where
  "ensure_hotel d hotel_id = find (\<lambda>h. h_id h = hotel_id) (hotels d)"

text \<open>
  The join of \<open>guest\<close>, \<open>hotel\<close> and \<open>stay\<close> with its filter, before the
  \<open>ORDER BY\<close>.
\<close>

definition global_matches :: "db \<Rightarrow> string list \<Rightarrow> (guest \<times> hotel \<times> stay) list" where
  "global_matches d variant_hashes =
     [(g, h, s). g \<leftarrow> guests d, h \<leftarrow> hotels d, g_hotel_id g = h_id h,
                 s \<leftarrow> stays d, s_guest_id s = g_id g,
                 phone_hash g \<in> set variant_hashes, status s = IN_HOUSE]"

text \<open>
  \<open>ORDER BY checkin_date DESC\<close> is a stable sort of the joined rows; SQL leaves
  the order of rows with equal dates open, the model keeps their join order.
\<close>

definition find_guest_globally :: "db \<Rightarrow> string list \<Rightarrow> (guest \<times> hotel \<times> stay) option" where
  "find_guest_globally d variant_hashes =
     (if variant_hashes = [] then None
      else case sort_key (\<lambda>(g, h, s). - checkin_date s) (global_matches d variant_hashes) of
        [] \<Rightarrow> None
      | r # _ \<Rightarrow> Some r)"

subsection \<open>resolve_identity\<close>

record IdentityContext =
  ic_hotel :: hotel
  ic_guest :: guest
  ic_stay :: "stay option"
  ic_state :: StayStatus

text \<open>
  \<open>hotel_id or settings.default_hotel_id\<close>: \<open>None\<close> and \<open>0\<close> are falsy.
\<close>

definition hotel_id_or :: "nat option \<Rightarrow> nat \<Rightarrow> nat" where
  "hotel_id_or hotel_id default_hotel_id =
     (case hotel_id of None \<Rightarrow> default_hotel_id
      | Some h \<Rightarrow> if h = 0 then default_hotel_id else h)"

text \<open>The most recent stay of a guest: \<open>ORDER BY checkin_date DESC\<close>, first row.\<close>

definition latest_stay :: "db \<Rightarrow> nat \<Rightarrow> stay option" where
  "latest_stay d guest_id =
     (case sort_key (\<lambda>s. - checkin_date s) (filter (\<lambda>s. s_guest_id s = guest_id) (stays d)) of
        [] \<Rightarrow> None
      | s # _ \<Rightarrow> Some s)"

text \<open>
  The fallback of \<open>resolve_identity\<close> (from the comment \<open>FALLBACK\<close> to the end of the
  function). \<open>sha256\<close> stands for \<open>hashlib.sha256(...).hexdigest()\<close>. The commit of
  a new guest raises \<open>IntegrityError\<close> exactly when a guest of that hotel already has
  the hash (the unique constraint \<open>uq_guest_hotel_phone\<close>); the source then rolls
  back and queries that guest.
\<close>

definition resolve_in_hotel ::
  "(string \<Rightarrow> string) \<Rightarrow> nat \<Rightarrow> timestamp \<Rightarrow> db \<Rightarrow> string \<Rightarrow> nat option
     \<Rightarrow> db \<times> IdentityContext option" where
  "resolve_in_hotel sha256 default_hotel_id now d wa_id hotel_id =
     (let variant_hashes = map sha256 (phone_variants wa_id) in
      case ensure_hotel d (hotel_id_or hotel_id default_hotel_id) of
        None \<Rightarrow> (d, None)
      | Some hotel \<Rightarrow>
          let found = (if variant_hashes \<noteq> []
                       then find (\<lambda>g. g_hotel_id g = h_id hotel \<and> phone_hash g \<in> set variant_hashes)
                              (guests d)
                       else None);
              (d1, guest) =
                (case found of
                   Some g \<Rightarrow> (d, g)
                 | None \<Rightarrow>
                     let hash_value = (case canonical_phone wa_id of
                                         Some canonical \<Rightarrow> sha256 canonical
                                       | None \<Rightarrow> sha256 wa_id)
                     in (case find (\<lambda>g. g_hotel_id g = h_id hotel \<and> phone_hash g = hash_value)
                                (guests d) of
                           Some g \<Rightarrow> (d, g)
                         | None \<Rightarrow>
                             let g = \<lparr>g_id = fresh_id (map g_id (guests d)),
                                      g_hotel_id = h_id hotel, phone_hash = hash_value,
                                      preferred_language = None\<rparr>
                             in (d\<lparr>guests := guests d @ [g]\<rparr>, g)));
              d2 = ensure_guest_pii d1 guest wa_id;
              stay = latest_stay d2 (g_id guest);
              state = determine_state now (map_option attrs stay)
          in (d2, Some \<lparr>ic_hotel = hotel, ic_guest = guest, ic_stay = stay, ic_state = state\<rparr>))"

definition resolve_identity ::
  "(string \<Rightarrow> string) \<Rightarrow> nat \<Rightarrow> timestamp \<Rightarrow> db \<Rightarrow> string \<Rightarrow> nat option
     \<Rightarrow> db \<times> IdentityContext option" where
  "resolve_identity sha256 default_hotel_id now d wa_id hotel_id =
     (let variant_hashes = map sha256 (phone_variants wa_id);
          use_global_lookup = (hotel_id = None \<or> hotel_id = Some default_hotel_id)
      in case (if use_global_lookup then find_guest_globally d variant_hashes else None) of
           Some (guest, hotel, stay) \<Rightarrow>
             (d, Some \<lparr>ic_hotel = hotel, ic_guest = guest, ic_stay = Some stay,
                       ic_state = determine_state now (Some (attrs stay))\<rparr>)
         | None \<Rightarrow> resolve_in_hotel sha256 default_hotel_id now d wa_id hotel_id)"

text \<open>
  The rows global discovery chooses from: a guest whose hash is one of the variant
  hashes, the guest's hotel, and an \<open>IN_HOUSE\<close> stay of the guest.
\<close>

definition in_house_match :: "db \<Rightarrow> string list \<Rightarrow> guest \<Rightarrow> hotel \<Rightarrow> stay \<Rightarrow> bool" where
  "in_house_match d variant_hashes g h s =
     (g \<in> set (guests d) \<and> h \<in> set (hotels d) \<and> g_hotel_id g = h_id h
      \<and> s \<in> set (stays d) \<and> s_guest_id s = g_id g
      \<and> phone_hash g \<in> set variant_hashes \<and> status s = IN_HOUSE)"

section \<open>PMS synchronization engine (app/services/pms/sync_engine.py)\<close>

datatype ReservationState = RES_IN_HOUSE | CHECKED_OUT | CONFIRMED | RES_CANCELLED

record PMSReservation =
  reservation_id :: string
  guest_name :: string
  guest_phone :: string
  guest_email :: "string option"
  res_room_number :: "string option"
  state :: ReservationState
  res_checkin_date :: timestamp
  res_checkout_date :: timestamp
  res_preferred_language :: "string option"

record SyncStats =
  checkins_processed :: nat
  checkouts_processed :: nat
  guests_created :: nat
  stays_created :: nat
  stays_closed :: nat
  journeys_triggered :: nat
  errors :: nat

definition minutes :: "int \<Rightarrow> int" where
  "minutes n = n * 60000000"

definition seconds :: "int \<Rightarrow> int" where
  "seconds n = n * 1000000"

definition hash_phone :: "(string \<Rightarrow> string) \<Rightarrow> string \<Rightarrow> string" where
  "hash_phone sha256 phone = sha256 (filter isdigit phone)"

text \<open>
  The engine runs for a hotel that \<open>sync_hotel\<close> has loaded, with one writer: the
  \<open>IntegrityError\<close> branches of the get-or-create functions (a concurrent insert of
  the same key) do not occur, and no step of \<open>_handle_checkin\<close> raises.
\<close>

definition get_or_create_guest :: "(string \<Rightarrow> string) \<Rightarrow> db \<Rightarrow> nat \<Rightarrow> string \<Rightarrow> db \<times> guest" where
  "get_or_create_guest sha256 d hotel_id phone =
     (let ph = hash_phone sha256 phone in
      case find (\<lambda>g. g_hotel_id g = hotel_id \<and> phone_hash g = ph) (guests d) of
        Some g \<Rightarrow> (d, g)
      | None \<Rightarrow>
          let g = \<lparr>g_id = fresh_id (map g_id (guests d)), g_hotel_id = hotel_id,
                   phone_hash = ph, preferred_language = None\<rparr>
          in (d\<lparr>guests := guests d @ [g]\<rparr>, g))"

definition upsert_guest_pii :: "db \<Rightarrow> guest \<Rightarrow> string \<Rightarrow> string \<Rightarrow> string option \<Rightarrow> db" where
  "upsert_guest_pii d guest name phone email =
     (case find (\<lambda>p. p_guest_id p = g_id guest) (piis d) of
        None \<Rightarrow>
          d\<lparr>piis := piis d @ [\<lparr>p_guest_id = g_id guest, full_name = Some name,
                                 phone_plain = Some phone, email_plain = email\<rparr>]\<rparr>
      | Some pii \<Rightarrow>
          d\<lparr>piis := update_first (\<lambda>p. p_guest_id p = g_id guest)
                     (\<lambda>p. p\<lparr>full_name := Some name, phone_plain := Some phone,
                             email_plain := (if truthy email then email else email_plain p)\<rparr>)
                     (piis d)\<rparr>)"

definition get_or_create_room :: "db \<Rightarrow> nat \<Rightarrow> string option \<Rightarrow> db \<times> nat option" where
  "get_or_create_room d hotel_id number =
     (case number of
        None \<Rightarrow> (d, None)
      | Some n \<Rightarrow>
          if n = [] then (d, None)
          else (case find (\<lambda>r. r_hotel_id r = hotel_id \<and> room_number r = n) (rooms d) of
                  Some r \<Rightarrow> (d, Some (r_id r))
                | None \<Rightarrow>
                    let r = \<lparr>r_id = fresh_id (map r_id (rooms d)), r_hotel_id = hotel_id,
                             room_number = n, r_is_active = True\<rparr>
                    in (d\<lparr>rooms := rooms d @ [r]\<rparr>, Some (r_id r))))"

text \<open>\<open>if room_id:\<close> is false for \<open>None\<close> and for the key \<open>0\<close>.\<close>

definition close_previous_stays :: "db \<Rightarrow> nat \<Rightarrow> nat option \<Rightarrow> db \<times> nat" where
  "close_previous_stays d guest_id room_id =
     (let is_previous = (\<lambda>s. s_guest_id s = guest_id \<and> status s = IN_HOUSE);
          closed_count = length (filter is_previous (stays d));
          d1 = d\<lparr>stays := map (\<lambda>s. if is_previous s then s\<lparr>status := POST_STAY\<rparr> else s) (stays d)\<rparr>
      in case room_id of
           None \<Rightarrow> (d1, closed_count)
         | Some r \<Rightarrow>
             if r = 0 then (d1, closed_count)
             else
               let is_turnover = (\<lambda>s. s_room_id s = Some r \<and> status s = IN_HOUSE
                                       \<and> s_guest_id s \<noteq> guest_id)
               in (d1\<lparr>stays := map (\<lambda>s. if is_turnover s then s\<lparr>status := POST_STAY\<rparr> else s)
                                   (stays d1)\<rparr>,
                   closed_count + length (filter is_turnover (stays d1))))"

text \<open>
  Steps 1 to 4 of \<open>_handle_checkin\<close>: the guest, the contact details, the language,
  the room. The query after step 1 always finds the guest just returned, so
  \<open>guests_created\<close> is never incremented.
\<close>

definition checkin_prepare ::
  "(string \<Rightarrow> string) \<Rightarrow> db \<Rightarrow> nat \<Rightarrow> PMSReservation \<Rightarrow> db \<times> guest \<times> nat option" where
  "checkin_prepare sha256 d hotel_id reservation =
     (let (d1, guest) = get_or_create_guest sha256 d hotel_id (guest_phone reservation);
          d2 = upsert_guest_pii d1 guest (guest_name reservation) (guest_phone reservation)
                 (guest_email reservation);
          (d3, guest) =
            (if truthy (res_preferred_language reservation) \<and> \<not> truthy (preferred_language guest)
             then (d2\<lparr>guests := update_first
                       (\<lambda>g. g_hotel_id g = hotel_id
                             \<and> phone_hash g = hash_phone sha256 (guest_phone reservation))
                       (\<lambda>g. g\<lparr>preferred_language := res_preferred_language reservation\<rparr>)
                       (guests d2)\<rparr>,
                   guest\<lparr>preferred_language := res_preferred_language reservation\<rparr>)
             else (d2, guest));
          (d4, room_id) = get_or_create_room d3 hotel_id (res_room_number reservation)
      in (d4, guest, room_id))"

text \<open>The filter of step 5: the stay of this hotel, guest and reservation.\<close>

definition is_reservation_stay :: "nat \<Rightarrow> nat \<Rightarrow> string \<Rightarrow> stay \<Rightarrow> bool" where
  "is_reservation_stay hotel_id guest_id rid s =
     (s_hotel_id s = hotel_id \<and> s_guest_id s = guest_id \<and> pms_reservation_id s = Some rid)"

text \<open>Steps 6 to 8: close previous stays, insert the stay, schedule the welcome event.\<close>

definition checkin_create ::
  "timestamp \<Rightarrow> db \<Rightarrow> nat \<Rightarrow> PMSReservation \<Rightarrow> guest \<Rightarrow> nat option \<Rightarrow> SyncStats
     \<Rightarrow> db \<times> SyncStats" where
  "checkin_create now d hotel_id reservation guest room_id stats =
     (let (d5, closed) = close_previous_stays d (g_id guest) room_id;
          stats1 = stats\<lparr>stays_closed := stays_closed stats + closed\<rparr>;
          stay = \<lparr>s_id = fresh_id (map s_id (stays d5)), s_hotel_id = hotel_id,
                  s_guest_id = g_id guest, s_room_id = room_id,
                  checkin_date = res_checkin_date reservation,
                  checkout_date = res_checkout_date reservation,
                  status = IN_HOUSE, whatsapp_opt_in = True, s_channel = Some ''pms'',
                  pms_reservation_id = Some (reservation_id reservation)\<rparr>;
          d6 = d5\<lparr>stays := stays d5 @ [stay]\<rparr>;
          stats2 = stats1\<lparr>stays_created := stays_created stats1 + 1\<rparr>;
          (d7, stats3) =
            (case find (\<lambda>j. j_hotel_id j = hotel_id \<and> j_name j = ''AFTER_CHECKIN_WELCOME''
                             \<and> j_is_active j) (journeys d6) of
               None \<Rightarrow> (d6, stats2)
             | Some journey \<Rightarrow>
                 (case find (\<lambda>e. e_stay_id e = s_id stay \<and> e_journey_id e = j_id journey
                                  \<and> e_status e \<in> {PENDING, SENT}) (journey_events d6) of
                    Some existing_event \<Rightarrow> (d6, stats2)
                  | None \<Rightarrow>
                      let event = \<lparr>e_id = fresh_id (map e_id (journey_events d6)),
                                   e_hotel_id = hotel_id, e_journey_id = j_id journey,
                                   e_guest_id = g_id guest, e_stay_id = s_id stay,
                                   e_channel = ''whatsapp'',
                                   run_at = now + minutes (delay_minutes journey),
                                   e_status = PENDING\<rparr>
                      in (d6\<lparr>journey_events := journey_events d6 @ [event]\<rparr>,
                          stats2\<lparr>journeys_triggered := journeys_triggered stats2 + 1\<rparr>)))
      in (d7, stats3\<lparr>checkins_processed := checkins_processed stats3 + 1\<rparr>))"

definition handle_checkin ::
  "(string \<Rightarrow> string) \<Rightarrow> timestamp \<Rightarrow> db \<Rightarrow> nat \<Rightarrow> PMSReservation \<Rightarrow> SyncStats
     \<Rightarrow> db \<times> SyncStats" where
  "handle_checkin sha256 now d hotel_id reservation stats =
     (let (d4, guest, room_id) = checkin_prepare sha256 d hotel_id reservation;
          existing = is_reservation_stay hotel_id (g_id guest) (reservation_id reservation)
      in case find existing (stays d4) of
           Some existing_stay \<Rightarrow>
             (d4\<lparr>stays := update_first existing
                    (\<lambda>s. s\<lparr>status := IN_HOUSE, s_room_id := room_id,
                            checkin_date := res_checkin_date reservation,
                            checkout_date := res_checkout_date reservation\<rparr>)
                    (stays d4)\<rparr>,
              stats\<lparr>checkins_processed := checkins_processed stats + 1\<rparr>)
         | None \<Rightarrow> checkin_create now d4 hotel_id reservation guest room_id stats)"

text \<open>
  The invariant of the stay table: at most one \<open>IN_HOUSE\<close> row per guest and at most
  one per room.
\<close>

definition in_house_of_guest :: "db \<Rightarrow> nat \<Rightarrow> stay list" where
  "in_house_of_guest d g = filter (\<lambda>s. s_guest_id s = g \<and> status s = IN_HOUSE) (stays d)"

definition in_house_in_room :: "db \<Rightarrow> nat \<Rightarrow> stay list" where
  "in_house_in_room d r = filter (\<lambda>s. s_room_id s = Some r \<and> status s = IN_HOUSE) (stays d)"

definition one_in_house :: "db \<Rightarrow> bool" where
  "one_in_house d =
     ((\<forall>s\<in>set (stays d). length (in_house_of_guest d (s_guest_id s)) \<le> 1)
      \<and> (\<forall>s\<in>set (stays d).
            case s_room_id s of None \<Rightarrow> True | Some r \<Rightarrow> length (in_house_in_room d r) \<le> 1))"

text \<open>
  The stays stored for a reservation of a hotel, and the scheduled (\<open>PENDING\<close> or
  \<open>SENT\<close>) events of a journey for a stay.
\<close>

definition reservation_stays :: "db \<Rightarrow> nat \<Rightarrow> string \<Rightarrow> stay list" where
  "reservation_stays d hotel_id rid =
     filter (\<lambda>s. s_hotel_id s = hotel_id \<and> pms_reservation_id s = Some rid) (stays d)"

definition scheduled_events :: "db \<Rightarrow> nat \<Rightarrow> nat \<Rightarrow> journey_event list" where
  "scheduled_events d journey_id stay_id =
     filter (\<lambda>e. e_journey_id e = journey_id \<and> e_stay_id e = stay_id
                 \<and> e_status e \<in> {PENDING, SENT}) (journey_events d)"

text \<open>
  Referential integrity of \<open>journey_event.stay_id\<close> (a foreign key to \<open>stay.id\<close>).
\<close>

definition events_refer_to_stays :: "db \<Rightarrow> bool" where
  "events_refer_to_stays d = (\<forall>e\<in>set (journey_events d). e_stay_id e \<in> s_id ` set (stays d))"

section \<open>Journey scheduler (app/workers/jobs_journey.py)\<close>

text \<open>
  What lies outside the repository's sources: the text built from the journey templates
  and the hotel's welcome message, the text logged for a template message, and the
  transport. The transport's outcome for an event is one of: delivered (with or
  without the bilingual follow-up that is logged as a second message), refused
  (\<open>success\<close> false), \<open>get_message_provider\<close> raised (before anything is logged), or
  the send raised (after the message was logged).
\<close>

datatype send_outcome = Delivered bool | Refused | ProviderRaised | SendRaised

record outside =
  message_text :: "db \<Rightarrow> journey_event \<Rightarrow> string"
  logged_text :: "db \<Rightarrow> journey_event \<Rightarrow> string"
  transport :: "db \<Rightarrow> journey_event \<Rightarrow> send_outcome"

text \<open>
  \<open>event.status = ...; db.add(event); db.commit()\<close> is an update of the row with the
  event's key.
\<close>

definition set_event_status :: "db \<Rightarrow> nat \<Rightarrow> JourneyEventStatus \<Rightarrow> db" where
  "set_event_status d event_id st =
     d\<lparr>journey_events :=
         map (\<lambda>x. if e_id x = event_id then x\<lparr>e_status := st\<rparr> else x) (journey_events d)\<rparr>"

definition get_wa_id :: "db \<Rightarrow> journey_event \<Rightarrow> string option" where
  "get_wa_id d event =
     (case find (\<lambda>g. g_id g = e_guest_id event) (guests d) of
        None \<Rightarrow> None
      | Some g \<Rightarrow>
          (case find (\<lambda>p. p_guest_id p = g_id g) (piis d) of
             None \<Rightarrow> None
           | Some pii \<Rightarrow> phone_plain pii))"

text \<open>
  The latest open WhatsApp conversation of the event's guest, created when there is
  none, repointed to the event's stay (and the stay's room, when it has one) when it
  belongs to another stay.
\<close>

definition journey_conversation :: "timestamp \<Rightarrow> db \<Rightarrow> journey_event \<Rightarrow> stay \<Rightarrow> db \<times> conversation" where
  "journey_conversation now d event stay =
     (case sort_key (\<lambda>c. - c_created_at c)
             (filter (\<lambda>c. c_hotel_id c = e_hotel_id event \<and> c_guest_id c = e_guest_id event
                           \<and> c_channel c = ''whatsapp'' \<and> c_status c = OPEN)
                (conversations d)) of
        [] \<Rightarrow>
          let c = \<lparr>c_id = fresh_id (map c_id (conversations d)), c_hotel_id = e_hotel_id event,
                   c_guest_id = e_guest_id event, c_stay_id = Some (e_stay_id event),
                   c_room_id = None, c_channel = ''whatsapp'', c_status = OPEN,
                   current_handler = ''BOT'', c_created_at = now, c_updated_at = now,
                   last_qr_scan_at = None\<rparr>
          in (d\<lparr>conversations := conversations d @ [c]\<rparr>, c)
      | c # _ \<Rightarrow>
          if c_stay_id c \<noteq> Some (e_stay_id event)
          then
            let c' = c\<lparr>c_stay_id := Some (e_stay_id event),
                       c_room_id := (case s_room_id stay of
                                       None \<Rightarrow> c_room_id c
                                     | Some r \<Rightarrow> if r = 0 then c_room_id c else Some r),
                       c_updated_at := now\<rparr>
            in (d\<lparr>conversations :=
                    map (\<lambda>x. if c_id x = c_id c then c' else x) (conversations d)\<rparr>, c')
          else (d, c))"

definition bot_message :: "timestamp \<Rightarrow> db \<Rightarrow> nat \<Rightarrow> string \<Rightarrow> message" where
  "bot_message now d conversation_id text =
     \<lparr>m_id = fresh_id (map m_id (messages d)), m_conversation_id = conversation_id,
      sender_type = BOT, direction = OUTGOING, m_text = text, m_created_at = now\<rparr>"

definition add_message :: "timestamp \<Rightarrow> db \<Rightarrow> nat \<Rightarrow> string \<Rightarrow> db" where
  "add_message now d conversation_id text =
     d\<lparr>messages := messages d @ [bot_message now d conversation_id text]\<rparr>"

text \<open>
  The body of the dispatch loop for one event, in two parts. The result is the database
  and the list of events for which a send was attempted (the event's key is appended, or
  nothing). \<open>now\<close> is the clock of the cycle; \<open>determine_state\<close> reads the clock
  again, at the same instant in the model. The rows \<open>event.guest\<close> and
  \<open>event.journey\<close> that the text is built from exist when the loop reaches that point
  (the guest because a phone was found, the journey by its foreign key).

  Second part, for an eligible event: the conversation, the idempotency check, the send.
\<close>

definition dispatch_send ::
  "outside \<Rightarrow> timestamp \<Rightarrow> journey_event \<Rightarrow> stay \<Rightarrow> db \<Rightarrow> nat list \<Rightarrow> db \<times> nat list" where
  "dispatch_send env now event stay d sends =
     (let (d1, conversation) = journey_conversation now d event stay;
          hotel = find (\<lambda>h. h_id h = e_hotel_id event) (hotels d1);
          text = message_text env d1 event
      in if find (\<lambda>m. m_conversation_id m = c_id conversation \<and> direction m = OUTGOING
                        \<and> m_text m = text \<and> m_created_at m \<ge> now - minutes 5)
              (messages d1) \<noteq> None
         then (set_event_status d1 (e_id event) SENT, sends)
         else (case hotel of
                 None \<Rightarrow> (d1, sends)
               | Some h \<Rightarrow>
                   (case transport env d1 event of
                      ProviderRaised \<Rightarrow> (set_event_status d1 (e_id event) CANCELLED, sends)
                    | SendRaised \<Rightarrow>
                        (set_event_status
                           (add_message now d1 (c_id conversation) (logged_text env d1 event))
                           (e_id event) CANCELLED,
                         sends @ [e_id event])
                    | Refused \<Rightarrow>
                        (set_event_status
                           (add_message now d1 (c_id conversation) (logged_text env d1 event))
                           (e_id event) CANCELLED,
                         sends @ [e_id event])
                    | Delivered followup \<Rightarrow>
                        (let d2 = add_message now d1 (c_id conversation)
                                    (logged_text env d1 event);
                             d3 = (if followup
                                   then add_message now d2 (c_id conversation)
                                          ''[Template: welcome_guest, lang: en]''
                                   else d2)
                         in (set_event_status d3 (e_id event) SENT,
                             sends @ [e_id event])))))"

text \<open>First part: the eligibility re-check.\<close>

definition dispatch_event :: "outside \<Rightarrow> timestamp \<Rightarrow> journey_event \<Rightarrow> db \<times> nat list \<Rightarrow> db \<times> nat list" where
  "dispatch_event env now event acc =
     (let d = fst acc; sends = snd acc in
      case find (\<lambda>s. s_id s = e_stay_id event) (stays d) of
        None \<Rightarrow> (set_event_status d (e_id event) CANCELLED, sends)
      | Some stay \<Rightarrow>
          if determine_state now (Some (attrs stay)) \<noteq> IN_HOUSE then (d, sends)
          else if \<not> whatsapp_opt_in stay then (set_event_status d (e_id event) CANCELLED, sends)
          else if \<not> truthy (get_wa_id d event)
          then (set_event_status d (e_id event) CANCELLED, sends)
          else dispatch_send env now event stay d sends)"

text \<open>The two queries of a cycle.\<close>

definition is_stale :: "timestamp \<Rightarrow> journey_event \<Rightarrow> bool" where
  "is_stale now e = (e_status e = PENDING \<and> run_at e \<le> now - minutes 30)"

definition is_due :: "timestamp \<Rightarrow> journey_event \<Rightarrow> bool" where
  "is_due now e = (e_status e = PENDING \<and> run_at e \<le> now)"

definition cancel_stale :: "timestamp \<Rightarrow> db \<Rightarrow> db" where
  "cancel_stale now d =
     fold (\<lambda>stale d'. set_event_status d' (e_id stale) CANCELLED)
       (filter (is_stale now) (journey_events d)) d"

definition dispatch_due :: "outside \<Rightarrow> timestamp \<Rightarrow> db \<Rightarrow> db \<times> nat list" where
  "dispatch_due env now d =
     fold (dispatch_event env now) (filter (is_due now) (journey_events d)) (d, [])"

definition process_pending_journeys :: "outside \<Rightarrow> timestamp \<Rightarrow> db \<Rightarrow> db \<times> nat list" where
  "process_pending_journeys env now d = dispatch_due env now (cancel_stale now d)"

text \<open>
  Later cycles: each with its own clock and its own outcomes of the outside world. The
  result collects the send attempts of all cycles.
\<close>

fun run_cycles :: "(outside \<times> timestamp) list \<Rightarrow> db \<times> nat list \<Rightarrow> db \<times> nat list" where
  "run_cycles [] acc = acc"
| "run_cycles ((env, now) # cs) acc =
     (let (d', sends) = process_pending_journeys env now (fst acc)
      in run_cycles cs (d', snd acc @ sends))"

section \<open>Task creation by the agent (app/agent/brain.py, \<open>_create_task\<close>)\<close>

text \<open>
  \<open>cp\<close> gives the code points of an ASCII literal; a keyword with other characters
  (Romanian, Thai, Chinese) is written as the list of its code points. \<open>str_in kw s\<close> is
  Python's \<open>kw in s\<close> on strings: \<open>kw\<close> occurs in \<open>s\<close> as a contiguous piece.
  \<open>str.lower()\<close>, the Unicode case mapping, is a parameter \<open>lower\<close> of the model.
\<close>

definition cp :: "string \<Rightarrow> ustr" where
  "cp s = map of_char s"

fun str_in :: "ustr \<Rightarrow> ustr \<Rightarrow> bool" where
  "str_in kw [] = (kw = [])"
| "str_in kw (c # s) = (take (length kw) (c # s) = kw \<or> str_in kw s)"

text \<open>
  The dictionary of tool arguments: a field is \<open>None\<close> when the key is absent, and
  \<open>args.get\<close> then gives the default.
\<close>

record task_args =
  a_category :: "ustr option"
  a_summary :: "ustr option"
  a_priority :: "ustr option"
  a_room :: "ustr option"

definition arg_category :: "task_args \<Rightarrow> ustr" where
  "arg_category args = (case a_category args of Some c \<Rightarrow> c | None \<Rightarrow> cp ''OTHER'')"

definition arg_summary :: "task_args \<Rightarrow> ustr" where
  "arg_summary args = (case a_summary args of Some s \<Rightarrow> s | None \<Rightarrow> cp ''Guest request'')"

definition arg_priority :: "task_args \<Rightarrow> ustr" where
  "arg_priority args = (case a_priority args of Some p \<Rightarrow> p | None \<Rightarrow> cp ''NORMAL'')"

text \<open>
  What \<open>_create_task\<close> reads of the agent's context. Each field of \<open>brain_settings\<close> is
  the truth value of \<open>settings.get(key, False)\<close> for \<open>settings = self.hotel.settings or {}\<close>.
  \<open>b_room\<close> is the room number of \<open>self.room\<close>, \<open>b_stay\<close> the key of \<open>self.stay\<close>
  with the room number of \<open>self.stay.room\<close>; each is \<open>None\<close> when the object is.
\<close>

record brain_settings =
  allow_food_beverage :: bool
  hk_towels_toiletries :: bool
  hk_room_cleaning :: bool
  hk_bed_linen :: bool
  hk_laundry :: bool
  hk_extra_amenities :: bool

record brain =
  b_hotel_id :: nat
  b_settings :: brain_settings
  b_staff_language :: "ustr option"
  b_room :: "ustr option"
  b_stay :: "(nat \<times> ustr option) option"

subsection \<open>The hard blocks\<close>

definition fb_keywords :: "ustr list" where
  "fb_keywords =
    [cp ''water'', [97, 112, 259], [3609, 3657, 3635], [27700], cp ''coffee'', cp ''cafea'',
     [3585, 3634, 3649, 3615], [21654, 21857], cp ''tea'', cp ''ceai'', [3594, 3634], [33590],
     cp ''food'', [109, 226, 110, 99, 97, 114, 101], [3629, 3634, 3627, 3634, 3619],
     [39135, 29289], [39184], cp ''drink'', cp ''drinks'', [98, 259, 117, 116, 117, 114, 259],
     [98, 259, 117, 116, 117, 114, 105],
     [3648, 3588, 3619, 3639, 3656, 3629, 3591, 3604, 3639, 3656, 3617], [39278, 26009],
     cp ''order'', cp ''orders'', [99, 111, 109, 97, 110, 100, 259], cp ''comenzi'',
     [3626, 3633, 3656, 3591], [35746, 21333], [28857], cp ''menu'', cp ''meniu'',
     [3648, 3617, 3609, 3641], [33756, 21333], cp ''room service'',
     [115, 101, 114, 118, 105, 99, 105, 117, 32, 99, 97, 109, 101, 114, 259],
     [3610, 3619, 3636, 3585, 3634, 3619, 3627, 3657, 3629, 3591]]"

definition towel_keywords :: "ustr list" where
  "towel_keywords =
    [cp ''towel'', cp ''towels'', cp ''prosop'', cp ''prosoape'',
     [3612, 3657, 3634, 3648, 3594, 3655, 3604],
     [3612, 3657, 3634, 3586, 3609, 3627, 3609, 3641], cp ''soap'', cp ''soaps'',
     [115, 259, 112, 117, 110], [115, 259, 112, 117, 110, 117, 114, 105],
     [3626, 3610, 3641, 3656], cp ''shampoo'', [537, 97, 109, 112, 111, 110],
     [537, 97, 109, 112, 111, 97, 110, 101], [3649, 3594, 3617, 3614, 3641],
     cp ''toilet paper'',
     [104, 226, 114, 116, 105, 101, 32, 105, 103, 105, 101, 110, 105, 99, 259],
     [3585, 3619, 3632, 3604, 3634, 3625, 3594, 3635, 3619, 3632], cp ''toiletries'',
     [116, 111, 97, 108, 101, 116, 259],
     [3629, 3640, 3611, 3585, 3619, 3603, 3660, 3629, 3634, 3610, 3609, 3657, 3635],
     cp ''amenities'', [97, 109, 101, 110, 105, 116, 259, 539, 105]]"

definition cleaning_keywords :: "ustr list" where
  "cleaning_keywords =
    [cp ''clean'', [99, 117, 114, 259, 539],
     [3607, 3635, 3588, 3623, 3634, 3617, 3626, 3632, 3629, 3634, 3604],
     [3626, 3632, 3629, 3634, 3604], cp ''cleaning'',
     [99, 117, 114, 259, 539, 101, 110, 105, 101],
     [3585, 3634, 3619, 3607, 3635, 3588, 3623, 3634, 3617, 3626, 3632, 3629, 3634, 3604],
     cp ''vacuum'', cp ''aspirator'', [3604, 3641, 3604, 3613, 3640, 3656, 3609], cp ''mop'',
     cp ''mop'', [3606, 3641, 3614, 3639, 3657, 3609], cp ''dust'', cp ''praf'',
     [3613, 3640, 3656, 3609], cp ''tidy'', cp ''aranjat'', [3648, 3585, 3655, 3610]]"

definition linen_keywords :: "ustr list" where
  "linen_keywords =
    [cp ''linen'', cp ''linens'', cp ''lenjerie'', [3612, 3657, 3634, 3611, 3641],
     cp ''sheet'', cp ''sheets'', [99, 101, 97, 114, 537, 97, 102],
     [99, 101, 97, 114, 537, 97, 102, 117, 114, 105], cp ''cearceaf'', cp ''cearceafuri'',
     [3612, 3657, 3634, 3611, 3641, 3607, 3637, 3656, 3609, 3629, 3609], cp ''duvet'',
     cp ''duvets'', [112, 108, 97, 112, 117, 109, 259], cp ''plapume'',
     [3612, 3657, 3634, 3609, 3623, 3617]]"

definition laundry_keywords :: "ustr list" where
  "laundry_keywords =
    [cp ''laundry'', [115, 112, 259, 108, 259, 116, 111, 114, 105, 101], cp ''rufe'',
     [3595, 3633, 3585, 3612, 3657, 3634], [3595, 3633, 3585, 3619, 3637, 3604], cp ''wash'',
     [115, 112, 259, 108, 97, 116], [3595, 3633, 3585], cp ''iron'',
     [99, 259, 108, 99, 97, 116], [3619, 3637, 3604], cp ''dry clean'',
     [99, 117, 114, 259, 539, 259, 116, 111, 114, 105, 101],
     [3595, 3633, 3585, 3649, 3627, 3657, 3591], cp ''press'',
     [99, 259, 108, 99, 97, 114, 101], [3619, 3637, 3604, 3612, 3657, 3634]]"

definition extra_keywords :: "ustr list" where
  "extra_keywords =
    [cp ''pillow'', cp ''pillows'', [112, 101, 114, 110, 259], cp ''perne'',
     [3627, 3617, 3629, 3609], [26517, 22836], cp ''blanket'', cp ''blankets'',
     [112, 259, 116, 117, 114, 259], [112, 259, 116, 117, 114, 105],
     [3612, 3657, 3634, 3627, 3656, 3617], [27631, 23376], cp ''iron'',
     [102, 105, 101, 114, 32, 100, 101, 32, 99, 259, 108, 99, 97, 116],
     [3648, 3605, 3634, 3619, 3637, 3604], [29096, 26007], cp ''slipper'', cp ''slippers'',
     cp ''papuc'', cp ''papuci'', [3619, 3629, 3591, 3648, 3607, 3657, 3634, 3649, 3605, 3632],
     [25302, 38795], cp ''extra'', cp ''suplimentar'', cp ''suplimentare'',
     [3648, 3614, 3636, 3656, 3617, 3648, 3605, 3636, 3617], cp ''additional'',
     [97, 100, 105, 539, 105, 111, 110, 97, 108],
     [97, 100, 105, 539, 105, 111, 110, 97, 108, 101], [3648, 3614, 3636, 3656, 3617]]"

text \<open>
  The two blocks \<open>HARD BLOCK\<close> at the head of the function: true when the function
  returns \<open>None\<close> there. \<open>summary_lower\<close> is \<open>summary.lower()\<close>.
\<close>

definition hard_block :: "brain_settings \<Rightarrow> ustr \<Rightarrow> ustr \<Rightarrow> bool" where
  "hard_block settings category summary_lower =
     (if \<not> allow_food_beverage settings
         \<and> (list_ex (\<lambda>kw. str_in kw summary_lower) fb_keywords
            \<or> category = cp ''FOOD_BEVERAGE'')
      then True
      else if category = cp ''HOUSEKEEPING'' then
        (if \<not> hk_towels_toiletries settings
            \<and> list_ex (\<lambda>kw. str_in kw summary_lower) towel_keywords then True
         else if \<not> hk_room_cleaning settings
            \<and> list_ex (\<lambda>kw. str_in kw summary_lower) cleaning_keywords then True
         else if \<not> hk_bed_linen settings
            \<and> list_ex (\<lambda>kw. str_in kw summary_lower) linen_keywords then True
         else if \<not> hk_laundry settings
            \<and> list_ex (\<lambda>kw. str_in kw summary_lower) laundry_keywords then True
         else if \<not> hk_extra_amenities settings
            \<and> list_ex (\<lambda>kw. str_in kw summary_lower) extra_keywords then True
         else False)
      else False)"

subsection \<open>Priority, task type and staff summary\<close>

definition valid_priorities :: "ustr list" where
  "valid_priorities = [cp ''NORMAL'', cp ''URGENT'', cp ''CRITICAL'']"

definition type_map :: "ustr \<Rightarrow> TaskType" where
  "type_map category =
     (if category = cp ''HOUSEKEEPING'' then HOUSEKEEPING
      else if category = cp ''FOOD_BEVERAGE'' then FOOD_BEVERAGE
      else if category = cp ''MAINTENANCE'' then MAINTENANCE
      else if category = cp ''LOST_AND_FOUND'' then LOST_AND_FOUND
      else OTHER)"

text \<open>\<open>self.hotel.staff_language or "en"\<close>.\<close>

definition staff_lang_of :: "brain \<Rightarrow> ustr" where
  "staff_lang_of b =
     (case b_staff_language b of None \<Rightarrow> cp ''en''
      | Some l \<Rightarrow> if l = [] then cp ''en'' else l)"

text \<open>
  The scripts the translation fallback looks for: CJK, Thai, Arabic, Cyrillic.
\<close>

definition is_thai :: "int \<Rightarrow> bool" where
  "is_thai code = (0x0E00 \<le> code \<and> code \<le> 0x0E7F)"

definition foreign_script :: "int \<Rightarrow> bool" where
  "foreign_script code =
     ((0x4E00 \<le> code \<and> code \<le> 0x9FFF \<or> 0x3400 \<le> code \<and> code \<le> 0x4DBF)
      \<or> (0x0E00 \<le> code \<and> code \<le> 0x0E7F)
      \<or> (0x0600 \<le> code \<and> code \<le> 0x06FF)
      \<or> (0x0400 \<le> code \<and> code \<le> 0x04FF))"

definition english_indicators :: "ustr list" where
  "english_indicators =
    [cp ''guest'', cp ''wants'', cp ''request'', cp ''check-out'', cp ''check-in'',
     cp ''late'', cp ''early'', cp ''room service'', cp ''towel'', cp ''clean'',
     cp ''maintenance'', cp ''broken'', cp ''lost'', cp ''found'', cp ''emergency'']"

definition needs_translation :: "(ustr \<Rightarrow> ustr) \<Rightarrow> ustr \<Rightarrow> ustr \<Rightarrow> bool" where
  "needs_translation lower staff_lang summary =
     (if staff_lang = cp ''th'' then length (filter is_thai summary) = 0
      else if staff_lang = cp ''ro'' then
        (if list_ex foreign_script summary then True
         else list_ex (\<lambda>word. str_in word (lower summary)) english_indicators)
      else list_ex foreign_script summary)"

text \<open>\<open>_translate_summary_to_staff_lang\<close> returns the summary it is given.\<close>

definition translate_summary_to_staff_lang :: "ustr \<Rightarrow> ustr \<Rightarrow> ustr" where
  "translate_summary_to_staff_lang summary staff_lang = summary"

definition get_room_number :: "brain \<Rightarrow> ustr" where
  "get_room_number b =
     (case b_room b of
        Some number \<Rightarrow> number
      | None \<Rightarrow>
          (case b_stay b of
             Some (stay_id, Some number) \<Rightarrow> number
           | _ \<Rightarrow> cp ''Unknown''))"

definition room_label :: "ustr \<Rightarrow> ustr" where
  "room_label staff_lang =
     (if staff_lang = cp ''ro'' then cp ''Camera''
      else if staff_lang = cp ''th'' then [3627, 3657, 3629, 3591]
      else if staff_lang = cp ''en'' then cp ''Room''
      else cp ''Room'')"

text \<open>
  The summary as stored: after the translation fallback and the room prefix, which is
  added when the guest's room number does not occur in the summary.
\<close>

definition staff_summary_of :: "(ustr \<Rightarrow> ustr) \<Rightarrow> brain \<Rightarrow> ustr \<Rightarrow> ustr" where
  "staff_summary_of lower b summary =
     (let staff_lang = staff_lang_of b;
          summary = (if needs_translation lower staff_lang summary
                     then translate_summary_to_staff_lang summary staff_lang else summary);
          room_num = get_room_number b
      in if room_num \<noteq> [] \<and> \<not> str_in (lower room_num) (lower summary)
         then room_label staff_lang @ cp '' '' @ room_num @ cp '': '' @ summary
         else summary)"

subsection \<open>The dedup gate and the insert\<close>

text \<open>
  \<open>now\<close> is the clock read for the cutoff; the row's \<open>created_at\<close> (the server default
  \<open>now()\<close>) is taken at the same instant. The result is \<open>None\<close> when a hard block
  returns, else the task returned. The argument \<open>room\<close> is only compared with the guest's
  room for a log line. The staff notification that follows the insert is outside the
  model; its failure is logged and changes nothing.
\<close>

definition is_duplicate_task :: "timestamp \<Rightarrow> nat \<Rightarrow> TaskType \<Rightarrow> ustr \<Rightarrow> task \<Rightarrow> bool" where
  "is_duplicate_task now hotel_id task_type summary k =
     (t_hotel_id k = hotel_id \<and> t_type k = task_type
      \<and> t_created_at k \<ge> now - seconds 60 \<and> staff_summary k = Some summary)"

definition create_task ::
  "(ustr \<Rightarrow> ustr) \<Rightarrow> timestamp \<Rightarrow> db \<Rightarrow> brain \<Rightarrow> task_args \<Rightarrow> db \<times> task option" where
  "create_task lower now d b args =
     (let category = arg_category args;
          summary = arg_summary args;
          priority = arg_priority args;
          summary_lower = lower summary
      in if hard_block (b_settings b) category summary_lower then (d, None)
         else
           let priority = (if priority \<in> set valid_priorities then priority else cp ''NORMAL'');
               task_type = type_map category;
               summary = staff_summary_of lower b summary;
               room_num = get_room_number b
           in case find (is_duplicate_task now (b_hotel_id b) task_type summary) (tasks d) of
                Some existing_task \<Rightarrow> (d, Some existing_task)
              | None \<Rightarrow>
                  let task = \<lparr>t_id = fresh_id (map t_id (tasks d)), t_hotel_id = b_hotel_id b,
                              t_stay_id = map_option fst (b_stay b), t_type = task_type,
                              t_status = TASK_OPEN, staff_summary = Some summary,
                              payload_room = Some room_num, priority = priority,
                              t_created_at = now\<rparr>
                  in (d\<lparr>tasks := tasks d @ [task]\<rparr>, Some task))"



section \<open>Room-code linking on the shared WhatsApp endpoint\<close>

subsection \<open>The webhook without a hotel in its URL (app/api/routes_webhook_whatsapp.py)\<close>

text \<open>
  \<open>receive_whatsapp_webhook_default\<close> up to its last line, the call of
  \<open>receive_whatsapp_webhook\<close>. Its inputs are the sender and what the two regular
  expressions extract from the stripped text: the number after \<open>#\<close> and the
  (lowercase hexadecimal) token after \<open>!\<close>. An integer is truthy when it is not
  zero. The function writes nothing to the database before that last call.
\<close>

datatype webhook_result =
  InvalidToken | MissingToken | SentScanQr | Forwarded nat

definition truthy_id :: "nat option \<Rightarrow> bool" where
  "truthy_id i = (case i of None \<Rightarrow> False | Some n \<Rightarrow> n \<noteq> 0)"

definition open_conversation_hotel :: "(string \<Rightarrow> string) \<Rightarrow> db \<Rightarrow> string \<Rightarrow> nat option" where
  "open_conversation_hotel sha256 d wa_id =
     (let variant_hashes = map sha256 (phone_variants wa_id) in
      case sort_key (\<lambda>c. - c_updated_at c)
             [c. c \<leftarrow> conversations d, g \<leftarrow> guests d, c_guest_id c = g_id g,
                 c_channel c = ''whatsapp'', c_status c = OPEN,
                 phone_hash g \<in> set variant_hashes] of
        [] \<Rightarrow> None
      | c # _ \<Rightarrow> Some (c_hotel_id c))"

definition receive_whatsapp_webhook_default ::
  "(string \<Rightarrow> string) \<Rightarrow> db \<Rightarrow> string \<Rightarrow> nat option \<Rightarrow> string option \<Rightarrow> webhook_result" where
  "receive_whatsapp_webhook_default sha256 d wa_id hotel_id qr_token =
     (let hotel = (case hotel_id of None \<Rightarrow> None
                   | Some i \<Rightarrow> find (\<lambda>h. h_id h = i) (hotels d));
          rejected =
            (if truthy_id hotel_id
             then (case qr_token of
                     Some token \<Rightarrow>
                       (case hotel of
                          Some h \<Rightarrow> if token \<notin> qr_tokens h then Some InvalidToken else None
                        | None \<Rightarrow> None)
                   | None \<Rightarrow>
                       (case hotel of
                          Some h \<Rightarrow> if qr_tokens h \<noteq> {} then Some MissingToken else None
                        | None \<Rightarrow> None))
             else None)
      in case rejected of
           Some r \<Rightarrow> r
         | None \<Rightarrow>
             let hotel_id' = (if \<not> truthy_id hotel_id
                              then open_conversation_hotel sha256 d wa_id else hotel_id)
             in (case hotel_id' of
                   None \<Rightarrow> SentScanQr
                 | Some i \<Rightarrow> if i = 0 then SentScanQr else Forwarded i))"

subsection \<open>The worker (app/workers/jobs.py, \<open>_handle_whatsapp_room_linking\<close>)\<close>

text \<open>
  The stripped message text as the worker reads it: a match of the (case-insensitive)
  pattern \<open>connect room N [#H] [!T]\<close> with its three groups, a plain number of one to
  four digits, or anything else. A number matched by \<open>\d+\<close> is a non-empty string and
  so truthy, whatever its value.
\<close>

datatype link_text =
  QrScan string "nat option" "string option"
| PlainNumber string
| OtherText

datatype reply = ScanQrPrompt | InvalidQrReply | WelcomeReply

text \<open>
  The negation of \<open>not extracted_token or extracted_token not in qr_tokens\<close>.
\<close>

definition token_registered :: "string option \<Rightarrow> string set \<Rightarrow> bool" where
  "token_registered extracted_token registry =
     (case extracted_token of None \<Rightarrow> False | Some t \<Rightarrow> t \<noteq> [] \<and> t \<in> registry)"

text \<open>
  The result is the database, the function's return value (handled or not) and the
  replies sent to the guest. The English follow-up of the prompt for bilingual hotels is
  not modelled. The model covers embedded hotel ids that are keys of the hotel table: for
  any other id the insert of the room violates the foreign key of \<open>room.hotel_id\<close> and
  the source raises, which the result type does not represent.
\<close>

definition handle_whatsapp_room_linking ::
  "timestamp \<Rightarrow> db \<Rightarrow> conversation \<Rightarrow> link_text \<Rightarrow> db \<times> bool \<times> reply list" where
  "handle_whatsapp_room_linking now d conversation text =
     (case find (\<lambda>h. h_id h = c_hotel_id conversation) (hotels d) of
        None \<Rightarrow> (d, False, [])
      | Some hotel \<Rightarrow>
          if subscription_tier hotel = ''pro'' then (d, False, [])
          else
            (case text of
               OtherText \<Rightarrow>
                 if \<not> truthy_id (c_room_id conversation) then (d, True, [ScanQrPrompt])
                 else (d, False, [])
             | PlainNumber room_no \<Rightarrow>
                 if truthy_id (c_room_id conversation) then (d, False, [])
                 else
                   (let (d1, room_id) =
                          (case find (\<lambda>r. r_hotel_id r = c_hotel_id conversation
                                           \<and> room_number r = room_no) (rooms d) of
                             Some r \<Rightarrow> (d, r_id r)
                           | None \<Rightarrow>
                               let r = \<lparr>r_id = fresh_id (map r_id (rooms d)),
                                        r_hotel_id = c_hotel_id conversation,
                                        room_number = room_no, r_is_active = True\<rparr>
                               in (d\<lparr>rooms := rooms d @ [r]\<rparr>, r_id r))
                    in (d1\<lparr>conversations :=
                             map (\<lambda>c. if c_id c = c_id conversation
                                       then c\<lparr>c_room_id := Some room_id,
                                              last_qr_scan_at := Some now,
                                              c_updated_at := now\<rparr>
                                       else c) (conversations d1)\<rparr>,
                        True, [WelcomeReply]))
             | QrScan room_no extracted_hotel_id extracted_token \<Rightarrow>
                 if qr_tokens hotel \<noteq> {}
                    \<and> \<not> token_registered extracted_token (qr_tokens hotel)
                 then (d, True, [InvalidQrReply])
                 else
                   (let target_hotel_id = (case extracted_hotel_id of
                                             Some i \<Rightarrow> i
                                           | None \<Rightarrow> c_hotel_id conversation);
                        (d1, room_id) =
                          (case find (\<lambda>r. r_hotel_id r = target_hotel_id
                                           \<and> room_number r = room_no) (rooms d) of
                             Some r \<Rightarrow> (d, r_id r)
                           | None \<Rightarrow>
                               let r = \<lparr>r_id = fresh_id (map r_id (rooms d)),
                                        r_hotel_id = target_hotel_id,
                                        room_number = room_no, r_is_active = True\<rparr>
                               in (d\<lparr>rooms := rooms d @ [r]\<rparr>, r_id r))
                    in (d1\<lparr>conversations :=
                             map (\<lambda>c. if c_id c = c_id conversation
                                       then c\<lparr>c_room_id := Some room_id,
                                              last_qr_scan_at := Some now,
                                              c_updated_at := now\<rparr>
                                       else c) (conversations d1)\<rparr>,
                        True, [WelcomeReply]))))"

section \<open>Notions used in the proofs\<close>

text \<open>
  For the check-in handling: the row \<open>_upsert_guest_pii\<close> writes, a function on
  stays that at most closes them, what \<open>_close_previous_stays\<close> does to one stay, and
  the row step 7 inserts.
\<close>

definition pms_pii :: "string \<Rightarrow> string \<Rightarrow> string option \<Rightarrow> guest_pii \<Rightarrow> guest_pii" where
  "pms_pii name phone email p =
     p\<lparr>full_name := Some name, phone_plain := Some phone,
       email_plain := (if truthy email then email else email_plain p)\<rparr>"

definition closes :: "(stay \<Rightarrow> stay) \<Rightarrow> bool" where
  "closes h = (\<forall>s. h s = s \<or> h s = s\<lparr>status := POST_STAY\<rparr>)"

definition closed_by :: "nat \<Rightarrow> nat option \<Rightarrow> stay \<Rightarrow> stay" where
  "closed_by gid rid s =
     (if status s = IN_HOUSE \<and> (s_guest_id s = gid \<or> (rid \<noteq> None \<and> rid \<noteq> Some 0 \<and> s_room_id s = rid))
      then s\<lparr>status := POST_STAY\<rparr> else s)"

definition new_stay :: "db \<Rightarrow> nat \<Rightarrow> PMSReservation \<Rightarrow> guest \<Rightarrow> nat option \<Rightarrow> stay" where
  "new_stay d hotel_id r g rid =
     \<lparr>s_id = fresh_id (map s_id (stays d)), s_hotel_id = hotel_id,
      s_guest_id = g_id g, s_room_id = rid,
      checkin_date = res_checkin_date r, checkout_date = res_checkout_date r,
      status = IN_HOUSE, whatsapp_opt_in = True, s_channel = Some ''pms'',
      pms_reservation_id = Some (reservation_id r)\<rparr>"

text \<open>
  What one step of the dispatch loop may do to the event table and to the list of send
  attempts: at most a status update of the event's own row, at most one attempt, for the
  event itself.
\<close>

definition step_shape :: "journey_event \<Rightarrow> db \<Rightarrow> nat list \<Rightarrow> db \<times> nat list \<Rightarrow> bool" where
  "step_shape ev d sends res =
     ((journey_events (fst res) = journey_events d
       \<or> (\<exists>st. journey_events (fst res) = journey_events (set_event_status d (e_id ev) st)))
      \<and> (snd res = sends \<or> snd res = sends @ [e_id ev]))"

text \<open>
  The tables the eligibility re-check reads are the same in two states.
\<close>

definition core_kept :: "db \<Rightarrow> db \<Rightarrow> bool" where
  "core_kept d d' = (stays d' = stays d \<and> guests d' = guests d \<and> piis d' = piis d)"

text \<open>
  The foreign key of \<open>stay.guest_id\<close>: every stay belongs to a guest of the table.
\<close>

definition stays_refer_to_guests :: "db \<Rightarrow> bool" where
  "stays_refer_to_guests d = (\<forall>s\<in>set (stays d). s_guest_id s \<in> set (map g_id (guests d)))"

section \<open>Example states\<close>

definition empty_db :: db where
  "empty_db = \<lparr>hotels = [], guests = [], piis = [], rooms = [], stays = [],
               journeys = [], journey_events = [], conversations = [], messages = [], tasks = []\<rparr>"

definition no_stats :: SyncStats where
  "no_stats = \<lparr>checkins_processed = 0, checkouts_processed = 0, guests_created = 0,
               stays_created = 0, stays_closed = 0, journeys_triggered = 0, errors = 0\<rparr>"

definition hotel1 :: hotel where
  "hotel1 = \<lparr>h_id = 1, subscription_tier = ''free'', qr_tokens = {}\<rparr>"

definition hotel2 :: hotel where
  "hotel2 = \<lparr>h_id = 2, subscription_tier = ''free'', qr_tokens = {''a7b3c''}\<rparr>"

definition two_hotels_db :: db where
  "two_hotels_db = empty_db\<lparr>hotels := [hotel1, hotel2]\<rparr>"

definition guestA :: guest where
  "guestA = \<lparr>g_id = 1, g_hotel_id = 1, phone_hash = ''40721000111'', preferred_language = None\<rparr>"

definition guestB :: guest where
  "guestB = \<lparr>g_id = 2, g_hotel_id = 2, phone_hash = ''40721000111'', preferred_language = None\<rparr>"

definition stayA :: stay where
  "stayA = \<lparr>s_id = 1, s_hotel_id = 1, s_guest_id = 1, s_room_id = None, checkin_date = 10,
            checkout_date = 100, status = IN_HOUSE, whatsapp_opt_in = True, s_channel = Some ''pms'',
            pms_reservation_id = Some ''R1''\<rparr>"

definition stayB :: stay where
  "stayB = \<lparr>s_id = 2, s_hotel_id = 2, s_guest_id = 2, s_room_id = None, checkin_date = 20,
            checkout_date = 100, status = IN_HOUSE, whatsapp_opt_in = True, s_channel = Some ''pms'',
            pms_reservation_id = Some ''R2''\<rparr>"

text \<open>Two tenants whose guests share one phone hash, both in house.\<close>

definition shared_phone_db :: db where
  "shared_phone_db = two_hotels_db\<lparr>guests := [guestA, guestB], stays := [stayA, stayB]\<rparr>"

definition one_guest_db :: db where
  "one_guest_db = two_hotels_db\<lparr>guests := [guestA]\<rparr>"

definition piiA :: guest_pii where
  "piiA = \<lparr>p_guest_id = 1, full_name = None, phone_plain = Some ''40721000111'', email_plain = None\<rparr>"

definition pii_db :: db where
  "pii_db = one_guest_db\<lparr>piis := [piiA]\<rparr>"

text \<open>A reservation in house, and states for the check-in handling.\<close>

definition resR1 :: PMSReservation where
  "resR1 = \<lparr>reservation_id = ''R1'', guest_name = ''Ana'', guest_phone = ''+40 0721 000 111'',
            guest_email = None, res_room_number = Some ''101'', state = RES_IN_HOUSE,
            res_checkin_date = 10, res_checkout_date = 100, res_preferred_language = Some ''ro''\<rparr>"

definition welcome1 :: journey where
  "welcome1 = \<lparr>j_id = 1, j_hotel_id = 1, j_name = ''AFTER_CHECKIN_WELCOME'', delay_minutes = 20,
               j_is_active = True, template_key = ''welcome_after_checkin''\<rparr>"

definition welcome_db :: db where
  "welcome_db = two_hotels_db\<lparr>journeys := [welcome1]\<rparr>"

text \<open>
  Reservation \<open>R1\<close> is already stored for guest 1, whose phone hash is not that of the
  payload (the PMS has since corrected the phone number).
\<close>

definition other_guest_db :: db where
  "other_guest_db = welcome_db\<lparr>guests := [guestA], stays := [stayA]\<rparr>"

text \<open>The guest of \<open>resR1\<close>, as stored after a sync.\<close>

definition guestC :: guest where
  "guestC = \<lparr>g_id = 1, g_hotel_id = 1, phone_hash = ''400721000111'', preferred_language = Some ''ro''\<rparr>"

text \<open>
  A second reservation of the same guest (the same phone), in another room; and three
  check-in handlings from a database without stays: \<open>R1\<close>, then \<open>R2\<close>, then, in
  the next sync cycle, \<open>R1\<close> again, which the PMS still reports in house.
\<close>

definition resR2 :: PMSReservation where
  "resR2 = resR1\<lparr>reservation_id := ''R2'', res_room_number := Some ''102'',
                  res_checkin_date := 20\<rparr>"

definition sync1 :: "db \<times> SyncStats" where
  "sync1 = handle_checkin id 1000 welcome_db 1 resR1 no_stats"

definition sync2 :: "db \<times> SyncStats" where
  "sync2 = handle_checkin id 1000 (fst sync1) 1 resR2 (snd sync1)"

definition sync3 :: "db \<times> SyncStats" where
  "sync3 = handle_checkin id 2000 (fst sync2) 1 resR1 (snd sync2)"

text \<open>
  A hotel with a welcome journey, an earlier guest with a stay for another reservation
  and its welcome event; then \<open>resR1\<close> processed twice.
\<close>

definition prior_db :: db where
  "prior_db = welcome_db
     \<lparr>guests := [guestA],
      stays := [stayA\<lparr>pms_reservation_id := Some ''R0''\<rparr>],
      journey_events := [\<lparr>e_id = 1, e_hotel_id = 1, e_journey_id = 1, e_guest_id = 1,
                          e_stay_id = 1, e_channel = ''whatsapp'', run_at = 30,
                          e_status = SENT\<rparr>]\<rparr>"

definition prior_run1 :: "db \<times> SyncStats" where
  "prior_run1 = handle_checkin id 1000 prior_db 1 resR1 no_stats"

definition prior_run2 :: "db \<times> SyncStats" where
  "prior_run2 = handle_checkin id 2000 (fst prior_run1) 1 resR1 (snd prior_run1)"

definition other_run1 :: "db \<times> SyncStats" where
  "other_run1 = handle_checkin id 1000 other_guest_db 1 resR1 no_stats"

definition other_run2 :: "db \<times> SyncStats" where
  "other_run2 = handle_checkin id 2000 (fst other_run1) 1 resR1 (snd other_run1)"

text \<open>
  \<open>str.lower()\<close> on ASCII text, where it maps \<open>A\<close> to \<open>Z\<close> to \<open>a\<close> to \<open>z\<close> and
  nothing else; the examples are ASCII.
\<close>

definition ascii_lower :: "ustr \<Rightarrow> ustr" where
  "ascii_lower s = map (\<lambda>c. if 65 \<le> c \<and> c \<le> 90 then c + 32 else c) s"

text \<open>
  A hotel with no entry in its settings, and one that has enabled towels and toiletries.
\<close>

definition default_settings :: brain_settings where
  "default_settings = \<lparr>allow_food_beverage = False, hk_towels_toiletries = False,
                        hk_room_cleaning = False, hk_bed_linen = False, hk_laundry = False,
                        hk_extra_amenities = False\<rparr>"

definition towels_settings :: brain_settings where
  "towels_settings = default_settings\<lparr>hk_towels_toiletries := True\<rparr>"



definition room_brain :: brain where
  "room_brain = \<lparr>b_hotel_id = 1, b_settings = towels_settings, b_staff_language = None,
                 b_room = Some (cp ''101''), b_stay = None\<rparr>"


definition towels_args :: task_args where
  "towels_args = \<lparr>a_category = Some (cp ''HOUSEKEEPING''), a_summary = Some (cp ''2 towels''),
                  a_priority = None, a_room = None\<rparr>"






text \<open>
  A guest in house with a phone on record and two pending welcome events, one scheduled
  at minute 10 and one at minute 50; the cycle runs at minute 60.
\<close>

definition stayJ :: stay where
  "stayJ = \<lparr>s_id = 1, s_hotel_id = 1, s_guest_id = 1, s_room_id = Some 1, checkin_date = 0,
            checkout_date = minutes 600, status = IN_HOUSE, whatsapp_opt_in = True,
            s_channel = Some ''pms'', pms_reservation_id = Some ''R1''\<rparr>"

definition evStale :: journey_event where
  "evStale = \<lparr>e_id = 1, e_hotel_id = 1, e_journey_id = 1, e_guest_id = 1, e_stay_id = 1,
              e_channel = ''whatsapp'', run_at = minutes 10, e_status = PENDING\<rparr>"

definition evDue :: journey_event where
  "evDue = \<lparr>e_id = 2, e_hotel_id = 1, e_journey_id = 1, e_guest_id = 1, e_stay_id = 1,
            e_channel = ''whatsapp'', run_at = minutes 50, e_status = PENDING\<rparr>"

definition journey_db :: db where
  "journey_db = welcome_db\<lparr>guests := [guestC], piis := [piiA], stays := [stayJ],
                           journey_events := [evStale, evDue]\<rparr>"

definition env0 :: outside where
  "env0 = \<lparr>message_text = (\<lambda>d e. ''Welcome!''),
            logged_text = (\<lambda>d e. ''Welcome message sent''),
            transport = (\<lambda>d e. Delivered False)\<rparr>"

text \<open>The same guest after check-out time, and the same guest opted out.\<close>

definition stayLate :: stay where
  "stayLate = stayJ\<lparr>checkout_date := minutes 55\<rparr>"

definition late_db :: db where
  "late_db = journey_db\<lparr>stays := [stayLate], journey_events := [evDue]\<rparr>"

definition stayOptOut :: stay where
  "stayOptOut = stayJ\<lparr>whatsapp_opt_in := False\<rparr>"

definition optout_db :: db where
  "optout_db = journey_db\<lparr>stays := [stayOptOut], journey_events := [evDue]\<rparr>"

text \<open>
  A guest of hotel 1 (free tier, no room-code tokens) with an open conversation, and the
  message \<open>Connect Room 101 #2\<close>: it names hotel 2, which has a registered token, and
  carries no token. It reaches the worker through \<open>POST /webhook/whatsapp/1\<close>.
\<close>

definition convA :: conversation where
  "convA = \<lparr>c_id = 1, c_hotel_id = 1, c_guest_id = 1, c_stay_id = None, c_room_id = None,
            c_channel = ''whatsapp'', c_status = OPEN, current_handler = ''BOT'',
            c_created_at = 5, c_updated_at = 5, last_qr_scan_at = None\<rparr>"

definition link_db :: db where
  "link_db = one_guest_db\<lparr>conversations := [convA]\<rparr>"

definition spoofed_scan :: link_text where
  "spoofed_scan = QrScan ''101'' (Some 2) None"

text \<open>The same guest's event with no stay row left for it.\<close>

definition orphan_db :: db where
  "orphan_db = journey_db\<lparr>stays := [], journey_events := [evDue]\<rparr>"

section \<open>Theorems\<close>

text \<open>
  C10. \<open>determine_state\<close> is total over optional stays. With no stay it returns
  \<open>POST_STAY\<close>. With both dates present the state depends on the current time only:
  \<open>PRE_STAY\<close> before check-in, \<open>IN_HOUSE\<close> from check-in up to (excluding) check-out,
  \<open>POST_STAY\<close> otherwise. With a date missing it returns the stored status, and
  \<open>POST_STAY\<close> when that is missing too.
\<close>

theorem determine_state_cases:
  "determine_state now None = POST_STAY
   \<and> (sa_checkin_date s = Some ci \<and> sa_checkout_date s = Some co \<longrightarrow>
        determine_state now (Some s) =
          (if now < ci then PRE_STAY else if now < co then IN_HOUSE else POST_STAY))
   \<and> ((sa_checkin_date s = None \<or> sa_checkout_date s = None) \<and> sa_status s = Some st \<longrightarrow>
        determine_state now (Some s) = st)
   \<and> ((sa_checkin_date s = None \<or> sa_checkout_date s = None) \<and> sa_status s = None \<longrightarrow>
        determine_state now (Some s) = POST_STAY)"
  by (auto simp: determine_state_def split: option.splits)

theorem determine_state_cases_witness:
  "determine_state 5 None = POST_STAY
   \<and> determine_state 5
       (Some \<lparr>sa_checkin_date = Some 3, sa_checkout_date = Some 9, sa_status = Some POST_STAY\<rparr>)
     = IN_HOUSE
   \<and> determine_state 5
       (Some \<lparr>sa_checkin_date = None, sa_checkout_date = Some 9, sa_status = Some PRE_STAY\<rparr>)
     = PRE_STAY
   \<and> determine_state 5
       (Some \<lparr>sa_checkin_date = Some 3, sa_checkout_date = None, sa_status = None\<rparr>)
     = POST_STAY"
  using determine_state_cases [of 5 "\<lparr>sa_checkin_date = Some 3, sa_checkout_date = Some 9, sa_status = Some POST_STAY\<rparr>" 3 9 POST_STAY]
    determine_state_cases [of 5 "\<lparr>sa_checkin_date = None, sa_checkout_date = Some 9, sa_status = Some PRE_STAY\<rparr>" 0 0 PRE_STAY]
    determine_state_cases [of 5 "\<lparr>sa_checkin_date = Some 3, sa_checkout_date = None, sa_status = None\<rparr>" 0 0 PRE_STAY]
  by simp

subsection \<open>Sorting and searching\<close>

lemma sort_key_head:
  assumes "sort_key f xs = y # ys"
  shows "y \<in> set xs \<and> (\<forall>x\<in>set xs. f y \<le> f x)"
proof -
  have s: "set (sort_key f xs) = set xs" by simp
  have o: "sorted (map f (sort_key f xs))" by (rule sorted_sort_key)
  from s assms have "y \<in> set xs" by (metis list.set_intros(1))
  moreover have "\<forall>x\<in>set xs. f y \<le> f x"
  proof
    fix x assume "x \<in> set xs"
    then have "x \<in> set (y # ys)" using s assms by simp
    then show "f y \<le> f x" using o assms by auto
  qed
  ultimately show ?thesis by simp
qed

lemma sort_key_empty: "sort_key f xs = [] \<longleftrightarrow> xs = []"
  by (metis length_sort length_0_conv)

lemma fold_max_ge: "(a::nat) \<le> fold max xs a"
proof (induction xs arbitrary: a)
  case Nil then show ?case by simp
next
  case (Cons x xs)
  have "a \<le> max x a" by simp
  also have "\<dots> \<le> fold max xs (max x a)" by (rule Cons.IH)
  finally show ?case by simp
qed

lemma fold_max_mem: "x \<in> set xs \<Longrightarrow> (x::nat) \<le> fold max xs a"
proof (induction xs arbitrary: a)
  case Nil then show ?case by simp
next
  case (Cons y ys)
  show ?case
  proof (cases "x = y")
    case True
    have "x \<le> max y a" using True by simp
    also have "\<dots> \<le> fold max ys (max y a)" by (rule fold_max_ge)
    finally show ?thesis by simp
  next
    case False
    with Cons.prems have "x \<in> set ys" by simp
    then show ?thesis using Cons.IH by simp
  qed
qed

lemma fresh_id_fresh: "fresh_id ids \<notin> set ids"
proof
  assume "fresh_id ids \<in> set ids"
  then have "fresh_id ids \<le> fold max ids 0" by (rule fold_max_mem)
  then show False by (simp add: fresh_id_def)
qed

lemma canonical_phone_member:
  "canonical_phone raw = Some c \<Longrightarrow> c \<in> set (phone_variants raw)"
  by (auto simp: canonical_phone_def split: list.splits dest: sort_key_head)

lemma canonical_phone_None:
  "canonical_phone raw = None \<longleftrightarrow> phone_variants raw = []"
  by (auto simp: canonical_phone_def sort_key_empty split: list.splits)


subsection \<open>Global discovery\<close>

lemma set_global_matches:
  "(g, h, s) \<in> set (global_matches d hs) \<longleftrightarrow> in_house_match d hs g h s"
  by (auto simp: global_matches_def in_house_match_def)

lemma find_guest_globally_Some:
  assumes "in_house_match d hs g0 h0 s0"
  shows "\<exists>g h s. find_guest_globally d hs = Some (g, h, s) \<and> in_house_match d hs g h s
           \<and> (\<forall>g' h' s'. in_house_match d hs g' h' s' \<longrightarrow> checkin_date s' \<le> checkin_date s)"
proof -
  let ?k = "\<lambda>(g, h, s). - checkin_date s"
  let ?ms = "global_matches d hs"
  from assms have "(g0, h0, s0) \<in> set ?ms" by (simp add: set_global_matches)
  then have ne: "?ms \<noteq> []" by auto
  from assms have hne: "hs \<noteq> []" by (auto simp: in_house_match_def)
  from ne obtain r rs where srt: "sort_key ?k ?ms = r # rs"
    by (cases "sort_key ?k ?ms") (auto simp: sort_key_empty)
  obtain g h s where r: "r = (g, h, s)" by (cases r) auto
  from sort_key_head [OF srt] r have mem: "(g, h, s) \<in> set ?ms"
    and mx: "\<forall>x\<in>set ?ms. ?k (g, h, s) \<le> ?k x" by auto
  have "find_guest_globally d hs = Some (g, h, s)"
    using srt r hne by (simp add: find_guest_globally_def)
  moreover have "in_house_match d hs g h s" using mem set_global_matches by simp
  moreover have "\<forall>g' h' s'. in_house_match d hs g' h' s' \<longrightarrow> checkin_date s' \<le> checkin_date s"
  proof (intro allI impI)
    fix g' h' s' assume "in_house_match d hs g' h' s'"
    then have "(g', h', s') \<in> set ?ms" using set_global_matches by simp
    with mx have "?k (g, h, s) \<le> ?k (g', h', s')" by blast
    then show "checkin_date s' \<le> checkin_date s" by simp
  qed
  ultimately show ?thesis by blast
qed

lemma find_guest_globally_None:
  assumes "\<forall>g h s. \<not> in_house_match d hs g h s"
  shows "find_guest_globally d hs = None"
proof -
  have "global_matches d hs = []"
  proof (cases "global_matches d hs")
    case Nil then show ?thesis .
  next
    case (Cons r rs)
    obtain g h s where "r = (g, h, s)" by (cases r) auto
    with Cons have "(g, h, s) \<in> set (global_matches d hs)" by simp
    with assms show ?thesis using set_global_matches by blast
  qed
  then show ?thesis by (simp add: find_guest_globally_def)
qed

lemma ensure_guest_pii_frame:
  "guests (ensure_guest_pii d g p) = guests d"
  "hotels (ensure_guest_pii d g p) = hotels d"
  "stays (ensure_guest_pii d g p) = stays d"
  by (auto simp: ensure_guest_pii_def split: option.splits)

lemma find_None_append: "find P xs = None \<Longrightarrow> find P (xs @ ys) = find P ys"
  by (induction xs) (auto split: if_splits)

lemma find_None_iff2: "find P xs = None \<longleftrightarrow> (\<forall>x\<in>set xs. \<not> P x)"
  by (induction xs) auto

lemma find_Some_prop: "find P xs = Some x \<Longrightarrow> P x \<and> x \<in> set xs"
  by (metis find_Some_iff nth_mem)

lemma resolve_in_hotel_tenant:
  assumes "resolve_in_hotel sha256 dflt now d wa_id hotel_id = (d', Some ctx)"
  shows "h_id (ic_hotel ctx) = hotel_id_or hotel_id dflt
         \<and> g_hotel_id (ic_guest ctx) = hotel_id_or hotel_id dflt"
  using assms
  by (auto simp: resolve_in_hotel_def ensure_hotel_def Let_def
           split: option.splits if_splits prod.splits dest!: find_Some_prop)


lemma latest_stay_ensure_guest_pii:
  "latest_stay (ensure_guest_pii d g p) i = latest_stay d i"
  by (simp add: latest_stay_def ensure_guest_pii_frame)

lemma latest_stay_new_guest:
  "latest_stay (d\<lparr>guests := gs\<rparr>) i = latest_stay d i"
  by (simp add: latest_stay_def)

lemma resolve_in_hotel_no_hotel:
  "ensure_hotel d (hotel_id_or hotel_id dflt) = None
   \<Longrightarrow> resolve_in_hotel sha256 dflt now d wa_id hotel_id = (d, None)"
  by (simp add: resolve_in_hotel_def Let_def)

lemma resolve_in_hotel_known_guest:
  assumes h: "ensure_hotel d (hotel_id_or hotel_id dflt) = Some hotel"
    and f: "find (\<lambda>g. g_hotel_id g = h_id hotel
                      \<and> phone_hash g \<in> set (if phone_variants wa_id = [] then [sha256 wa_id]
                                               else map sha256 (phone_variants wa_id)))
              (guests d) = Some g"
  shows "resolve_in_hotel sha256 dflt now d wa_id hotel_id
           = (ensure_guest_pii d g wa_id,
              Some \<lparr>ic_hotel = hotel, ic_guest = g, ic_stay = latest_stay d (g_id g),
                    ic_state = determine_state now (map_option attrs (latest_stay d (g_id g)))\<rparr>)"
proof (cases "phone_variants wa_id = []")
  case True
  then have c: "canonical_phone wa_id = None" by (simp add: canonical_phone_None)
  from f True have "find (\<lambda>g. g_hotel_id g = h_id hotel \<and> phone_hash g = sha256 wa_id) (guests d)
                      = Some g" by simp
  then show ?thesis using h True c
    by (simp add: resolve_in_hotel_def Let_def latest_stay_ensure_guest_pii)
next
  case False
  with f have "find (\<lambda>g. g_hotel_id g = h_id hotel
                      \<and> phone_hash g \<in> set (map sha256 (phone_variants wa_id))) (guests d) = Some g"
    by simp
  then show ?thesis using h False
    by (simp add: resolve_in_hotel_def Let_def latest_stay_ensure_guest_pii)
qed

lemma resolve_in_hotel_new_guest:
  assumes h: "ensure_hotel d (hotel_id_or hotel_id dflt) = Some hotel"
    and f: "find (\<lambda>g. g_hotel_id g = h_id hotel
                      \<and> phone_hash g \<in> set (if phone_variants wa_id = [] then [sha256 wa_id]
                                               else map sha256 (phone_variants wa_id)))
              (guests d) = None"
    and g: "g = \<lparr>g_id = fresh_id (map g_id (guests d)), g_hotel_id = h_id hotel,
                 phone_hash = (case canonical_phone wa_id of Some c \<Rightarrow> sha256 c
                               | None \<Rightarrow> sha256 wa_id),
                 preferred_language = None\<rparr>"
  shows "resolve_in_hotel sha256 dflt now d wa_id hotel_id
           = (ensure_guest_pii (d\<lparr>guests := guests d @ [g]\<rparr>) g wa_id,
              Some \<lparr>ic_hotel = hotel, ic_guest = g, ic_stay = latest_stay d (g_id g),
                    ic_state = determine_state now (map_option attrs (latest_stay d (g_id g)))\<rparr>)"
proof (cases "phone_variants wa_id = []")
  case True
  then have c: "canonical_phone wa_id = None" by (simp add: canonical_phone_None)
  from f True have "find (\<lambda>g. g_hotel_id g = h_id hotel \<and> phone_hash g = sha256 wa_id) (guests d)
                      = None" by simp
  then show ?thesis using h True c g
    by (simp add: resolve_in_hotel_def Let_def latest_stay_ensure_guest_pii latest_stay_new_guest)
next
  case False
  then obtain c where c: "canonical_phone wa_id = Some c"
    using canonical_phone_None [of wa_id] by (cases "canonical_phone wa_id") auto
  then have cm: "c \<in> set (phone_variants wa_id)" by (rule canonical_phone_member)
  from f False have f1: "find (\<lambda>g. g_hotel_id g = h_id hotel
                      \<and> phone_hash g \<in> set (map sha256 (phone_variants wa_id))) (guests d) = None"
    by simp
  then have f2: "find (\<lambda>g. g_hotel_id g = h_id hotel \<and> phone_hash g = sha256 c) (guests d) = None"
    using cm by (auto simp: find_None_iff2)
  show ?thesis using h False c g f1 f2
    by (simp add: resolve_in_hotel_def Let_def latest_stay_ensure_guest_pii latest_stay_new_guest)
qed


text \<open>
  C4. When \<open>resolve_identity\<close> is called with no tenant hint or with the default
  tenant, and some guest of some tenant matches a variant hash and has an \<open>IN_HOUSE\<close>
  stay, the context returned is such a match whose stay has the greatest check-in date, with
  the guest's own tenant adopted, and nothing is written. Only when there is no such match
  does resolution fall back to the default tenant: without a row for that tenant nothing is
  returned or written; a guest of that tenant stored under one of the variant hashes (under
  the hash of the raw identifier, when it has no digit) is returned, the first in table
  order, and no guest is inserted; otherwise one guest is inserted for that tenant, with a
  fresh key and the hash of the canonical number (of the raw identifier, when it has no
  digit), and returned. In both cases the context carries the tenant's row, the guest's
  most recent stay and the state derived from it, and the only other write is the guest's
  contact record.
\<close>

theorem resolve_identity_global_discovery:
  assumes "hotel_id = None \<or> hotel_id = Some default_hotel_id"
  shows "(in_house_match d (map sha256 (phone_variants wa_id)) g0 h0 s0 \<longrightarrow>
            (\<exists>g h s. resolve_identity sha256 default_hotel_id now d wa_id hotel_id
                        = (d, Some \<lparr>ic_hotel = h, ic_guest = g, ic_stay = Some s,
                                    ic_state = determine_state now (Some (attrs s))\<rparr>)
                \<and> in_house_match d (map sha256 (phone_variants wa_id)) g h s
                \<and> (\<forall>g' h' s'. in_house_match d (map sha256 (phone_variants wa_id)) g' h' s'
                       \<longrightarrow> checkin_date s' \<le> checkin_date s)))
       \<and> ((\<forall>g h s. \<not> in_house_match d (map sha256 (phone_variants wa_id)) g h s) \<longrightarrow>
            resolve_identity sha256 default_hotel_id now d wa_id hotel_id
              = resolve_in_hotel sha256 default_hotel_id now d wa_id hotel_id
            \<and> (\<forall>d' ctx. resolve_identity sha256 default_hotel_id now d wa_id hotel_id = (d', Some ctx)
                  \<longrightarrow> h_id (ic_hotel ctx) = default_hotel_id
                      \<and> g_hotel_id (ic_guest ctx) = default_hotel_id)
            \<and> (ensure_hotel d default_hotel_id = None \<longrightarrow>
                  resolve_identity sha256 default_hotel_id now d wa_id hotel_id = (d, None))
            \<and> (\<forall>hotel g.
                  ensure_hotel d default_hotel_id = Some hotel
                  \<and> find (\<lambda>g. g_hotel_id g = default_hotel_id
                              \<and> phone_hash g \<in> set (if phone_variants wa_id = [] then [sha256 wa_id]
                                                       else map sha256 (phone_variants wa_id)))
                      (guests d) = Some g
                  \<longrightarrow> resolve_identity sha256 default_hotel_id now d wa_id hotel_id
                        = (ensure_guest_pii d g wa_id,
                           Some \<lparr>ic_hotel = hotel, ic_guest = g, ic_stay = latest_stay d (g_id g),
                                 ic_state = determine_state now
                                              (map_option attrs (latest_stay d (g_id g)))\<rparr>))
            \<and> (\<forall>hotel g.
                  ensure_hotel d default_hotel_id = Some hotel
                  \<and> find (\<lambda>g. g_hotel_id g = default_hotel_id
                              \<and> phone_hash g \<in> set (if phone_variants wa_id = [] then [sha256 wa_id]
                                                       else map sha256 (phone_variants wa_id)))
                      (guests d) = None
                  \<and> g = \<lparr>g_id = fresh_id (map g_id (guests d)), g_hotel_id = default_hotel_id,
                          phone_hash = (case canonical_phone wa_id of Some c \<Rightarrow> sha256 c
                                        | None \<Rightarrow> sha256 wa_id),
                          preferred_language = None\<rparr>
                  \<longrightarrow> resolve_identity sha256 default_hotel_id now d wa_id hotel_id
                        = (ensure_guest_pii (d\<lparr>guests := guests d @ [g]\<rparr>) g wa_id,
                           Some \<lparr>ic_hotel = hotel, ic_guest = g, ic_stay = latest_stay d (g_id g),
                                 ic_state = determine_state now
                                              (map_option attrs (latest_stay d (g_id g)))\<rparr>)))"
proof (intro conjI impI allI)
  assume m: "in_house_match d (map sha256 (phone_variants wa_id)) g0 h0 s0"
  from find_guest_globally_Some [OF m] obtain g h s where
    f: "find_guest_globally d (map sha256 (phone_variants wa_id)) = Some (g, h, s)"
    and p: "in_house_match d (map sha256 (phone_variants wa_id)) g h s"
    and q: "\<forall>g' h' s'. in_house_match d (map sha256 (phone_variants wa_id)) g' h' s'
              \<longrightarrow> checkin_date s' \<le> checkin_date s" by blast
  have "resolve_identity sha256 default_hotel_id now d wa_id hotel_id
          = (d, Some \<lparr>ic_hotel = h, ic_guest = g, ic_stay = Some s,
                      ic_state = determine_state now (Some (attrs s))\<rparr>)"
    using assms f by (auto simp: resolve_identity_def)
  with p q show "\<exists>g h s. resolve_identity sha256 default_hotel_id now d wa_id hotel_id
                        = (d, Some \<lparr>ic_hotel = h, ic_guest = g, ic_stay = Some s,
                                    ic_state = determine_state now (Some (attrs s))\<rparr>)
                \<and> in_house_match d (map sha256 (phone_variants wa_id)) g h s
                \<and> (\<forall>g' h' s'. in_house_match d (map sha256 (phone_variants wa_id)) g' h' s'
                       \<longrightarrow> checkin_date s' \<le> checkin_date s)" by blast
next
  assume n: "\<forall>g h s. \<not> in_house_match d (map sha256 (phone_variants wa_id)) g h s"
  show "resolve_identity sha256 default_hotel_id now d wa_id hotel_id
          = resolve_in_hotel sha256 default_hotel_id now d wa_id hotel_id"
    using find_guest_globally_None [OF n] by (simp add: resolve_identity_def)
next
  fix d' ctx
  assume n: "\<forall>g h s. \<not> in_house_match d (map sha256 (phone_variants wa_id)) g h s"
    and r: "resolve_identity sha256 default_hotel_id now d wa_id hotel_id = (d', Some ctx)"
  have e: "resolve_identity sha256 default_hotel_id now d wa_id hotel_id
          = resolve_in_hotel sha256 default_hotel_id now d wa_id hotel_id"
    using find_guest_globally_None [OF n] by (simp add: resolve_identity_def)
  have o: "hotel_id_or hotel_id default_hotel_id = default_hotel_id"
    using assms by (auto simp: hotel_id_or_def)
  from resolve_in_hotel_tenant [of sha256 default_hotel_id now d wa_id hotel_id d' ctx] e o r
  show "h_id (ic_hotel ctx) = default_hotel_id" "g_hotel_id (ic_guest ctx) = default_hotel_id"
    by auto
next
  assume n: "\<forall>g h s. \<not> in_house_match d (map sha256 (phone_variants wa_id)) g h s"
    and h: "ensure_hotel d default_hotel_id = None"
  have e: "resolve_identity sha256 default_hotel_id now d wa_id hotel_id
          = resolve_in_hotel sha256 default_hotel_id now d wa_id hotel_id"
    using find_guest_globally_None [OF n] by (simp add: resolve_identity_def)
  have o: "hotel_id_or hotel_id default_hotel_id = default_hotel_id"
    using assms by (auto simp: hotel_id_or_def)
  show "resolve_identity sha256 default_hotel_id now d wa_id hotel_id = (d, None)"
    using e o h by (simp add: resolve_in_hotel_no_hotel)
next
  fix hotel g
  assume n: "\<forall>g h s. \<not> in_house_match d (map sha256 (phone_variants wa_id)) g h s"
    and a: "ensure_hotel d default_hotel_id = Some hotel
            \<and> find (\<lambda>g. g_hotel_id g = default_hotel_id
                        \<and> phone_hash g \<in> set (if phone_variants wa_id = [] then [sha256 wa_id]
                                                 else map sha256 (phone_variants wa_id)))
                (guests d) = Some g"
  have e: "resolve_identity sha256 default_hotel_id now d wa_id hotel_id
          = resolve_in_hotel sha256 default_hotel_id now d wa_id hotel_id"
    using find_guest_globally_None [OF n] by (simp add: resolve_identity_def)
  have o: "hotel_id_or hotel_id default_hotel_id = default_hotel_id"
    using assms by (auto simp: hotel_id_or_def)
  from a have k: "h_id hotel = default_hotel_id"
    by (auto simp: ensure_hotel_def dest: find_Some_prop)
  from a o have h: "ensure_hotel d (hotel_id_or hotel_id default_hotel_id) = Some hotel" by simp
  from a k have f: "find (\<lambda>g. g_hotel_id g = h_id hotel
                        \<and> phone_hash g \<in> set (if phone_variants wa_id = [] then [sha256 wa_id]
                                                 else map sha256 (phone_variants wa_id)))
                (guests d) = Some g" by simp
  show "resolve_identity sha256 default_hotel_id now d wa_id hotel_id
          = (ensure_guest_pii d g wa_id,
             Some \<lparr>ic_hotel = hotel, ic_guest = g, ic_stay = latest_stay d (g_id g),
                   ic_state = determine_state now (map_option attrs (latest_stay d (g_id g)))\<rparr>)"
    using e resolve_in_hotel_known_guest [OF h f] by simp
next
  fix hotel g
  assume n: "\<forall>g h s. \<not> in_house_match d (map sha256 (phone_variants wa_id)) g h s"
    and a: "ensure_hotel d default_hotel_id = Some hotel
            \<and> find (\<lambda>g. g_hotel_id g = default_hotel_id
                        \<and> phone_hash g \<in> set (if phone_variants wa_id = [] then [sha256 wa_id]
                                                 else map sha256 (phone_variants wa_id)))
                (guests d) = None
            \<and> g = \<lparr>g_id = fresh_id (map g_id (guests d)), g_hotel_id = default_hotel_id,
                    phone_hash = (case canonical_phone wa_id of Some c \<Rightarrow> sha256 c
                                  | None \<Rightarrow> sha256 wa_id),
                    preferred_language = None\<rparr>"
  have e: "resolve_identity sha256 default_hotel_id now d wa_id hotel_id
          = resolve_in_hotel sha256 default_hotel_id now d wa_id hotel_id"
    using find_guest_globally_None [OF n] by (simp add: resolve_identity_def)
  have o: "hotel_id_or hotel_id default_hotel_id = default_hotel_id"
    using assms by (auto simp: hotel_id_or_def)
  from a have k: "h_id hotel = default_hotel_id"
    by (auto simp: ensure_hotel_def dest: find_Some_prop)
  from a o have h: "ensure_hotel d (hotel_id_or hotel_id default_hotel_id) = Some hotel" by simp
  from a k have f: "find (\<lambda>g. g_hotel_id g = h_id hotel
                        \<and> phone_hash g \<in> set (if phone_variants wa_id = [] then [sha256 wa_id]
                                                 else map sha256 (phone_variants wa_id)))
                (guests d) = None" by simp
  from a k have g: "g = \<lparr>g_id = fresh_id (map g_id (guests d)), g_hotel_id = h_id hotel,
                    phone_hash = (case canonical_phone wa_id of Some c \<Rightarrow> sha256 c
                                  | None \<Rightarrow> sha256 wa_id),
                    preferred_language = None\<rparr>" by simp
  show "resolve_identity sha256 default_hotel_id now d wa_id hotel_id
          = (ensure_guest_pii (d\<lparr>guests := guests d @ [g]\<rparr>) g wa_id,
             Some \<lparr>ic_hotel = hotel, ic_guest = g, ic_stay = latest_stay d (g_id g),
                   ic_state = determine_state now (map_option attrs (latest_stay d (g_id g)))\<rparr>)"
    using e resolve_in_hotel_new_guest [OF h f g] by simp
qed

theorem resolve_identity_global_discovery_witness:
  "in_house_match shared_phone_db (map id (phone_variants ''+40 721 000 111'')) guestA hotel1 stayA
   \<and> resolve_identity id 1 50 shared_phone_db ''+40 721 000 111'' None
       = (shared_phone_db, Some \<lparr>ic_hotel = hotel2, ic_guest = guestB, ic_stay = Some stayB,
                                 ic_state = IN_HOUSE\<rparr>)
   \<and> in_house_match shared_phone_db (map id (phone_variants ''+40 721 000 111'')) guestB hotel2 stayB
   \<and> checkin_date stayA \<le> checkin_date stayB
   \<and> (\<forall>g h s. \<not> in_house_match two_hotels_db (map id (phone_variants ''+40 721 000 111'')) g h s)
   \<and> ensure_hotel two_hotels_db 1 = Some hotel1
   \<and> find (\<lambda>g. g_hotel_id g = 1
               \<and> phone_hash g \<in> set (if phone_variants ''+40 721 000 111'' = []
                                        then [id ''+40 721 000 111'']
                                        else map id (phone_variants ''+40 721 000 111'')))
       (guests two_hotels_db) = None
   \<and> guestA = \<lparr>g_id = fresh_id (map g_id (guests two_hotels_db)), g_hotel_id = 1,
                 phone_hash = (case canonical_phone ''+40 721 000 111'' of Some c \<Rightarrow> id c
                               | None \<Rightarrow> id ''+40 721 000 111''),
                 preferred_language = None\<rparr>
   \<and> resolve_identity id 1 50 two_hotels_db ''+40 721 000 111'' None
       = (pii_db, Some \<lparr>ic_hotel = hotel1, ic_guest = guestA, ic_stay = None,
                        ic_state = POST_STAY\<rparr>)
   \<and> guests pii_db = guests two_hotels_db @ [guestA]
   \<and> (\<forall>g h s. \<not> in_house_match pii_db (map id (phone_variants ''0040 721 000 111'')) g h s)
   \<and> ensure_hotel pii_db 1 = Some hotel1
   \<and> find (\<lambda>g. g_hotel_id g = 1
               \<and> phone_hash g \<in> set (if phone_variants ''0040 721 000 111'' = []
                                        then [id ''0040 721 000 111'']
                                        else map id (phone_variants ''0040 721 000 111'')))
       (guests pii_db) = Some guestA
   \<and> resolve_identity id 1 60 pii_db ''0040 721 000 111'' (Some 1)
       = (pii_db, Some \<lparr>ic_hotel = hotel1, ic_guest = guestA, ic_stay = None,
                        ic_state = POST_STAY\<rparr>)"
proof -
  have m: "in_house_match shared_phone_db (map id (phone_variants ''+40 721 000 111''))
             guestA hotel1 stayA"
    by code_simp
  have r: "resolve_identity id 1 50 shared_phone_db ''+40 721 000 111'' None
       = (shared_phone_db, Some \<lparr>ic_hotel = hotel2, ic_guest = guestB, ic_stay = Some stayB,
                                 ic_state = IN_HOUSE\<rparr>)"
    by code_simp
  have g: "(None :: nat option) = None \<or> (None :: nat option) = Some 1" by simp
  have g': "Some (1::nat) = None \<or> Some (1::nat) = Some 1" by simp
  from resolve_identity_global_discovery
         [OF g, of shared_phone_db id "''+40 721 000 111''" guestA hotel1 stayA 50] m r
  have c1: "in_house_match shared_phone_db (map id (phone_variants ''+40 721 000 111'')) guestB hotel2 stayB
        \<and> checkin_date stayA \<le> checkin_date stayB"
    by auto
  have n: "\<forall>g h s. \<not> in_house_match two_hotels_db (map id (phone_variants ''+40 721 000 111'')) g h s"
    by (simp add: in_house_match_def two_hotels_db_def empty_db_def)
  have h: "ensure_hotel two_hotels_db 1 = Some hotel1" by code_simp
  have f: "find (\<lambda>g. g_hotel_id g = 1
               \<and> phone_hash g \<in> set (if phone_variants ''+40 721 000 111'' = []
                                        then [id ''+40 721 000 111'']
                                        else map id (phone_variants ''+40 721 000 111'')))
       (guests two_hotels_db) = None"
    by (simp add: two_hotels_db_def empty_db_def)
  have a: "guestA = \<lparr>g_id = fresh_id (map g_id (guests two_hotels_db)), g_hotel_id = 1,
                 phone_hash = (case canonical_phone ''+40 721 000 111'' of Some c \<Rightarrow> id c
                               | None \<Rightarrow> id ''+40 721 000 111''),
                 preferred_language = None\<rparr>"
    by code_simp
  have e: "ensure_guest_pii (two_hotels_db\<lparr>guests := guests two_hotels_db @ [guestA]\<rparr>) guestA
             ''+40 721 000 111'' = pii_db"
    "latest_stay two_hotels_db (g_id guestA) = None"
    "determine_state 50 None = POST_STAY"
    "guests pii_db = guests two_hotels_db @ [guestA]"
    by code_simp+
  from resolve_identity_global_discovery
         [OF g, of two_hotels_db id "''+40 721 000 111''" guestA hotel1 stayA 50] n h f a
  have "resolve_identity id 1 50 two_hotels_db ''+40 721 000 111'' None
       = (ensure_guest_pii (two_hotels_db\<lparr>guests := guests two_hotels_db @ [guestA]\<rparr>) guestA
            ''+40 721 000 111'',
          Some \<lparr>ic_hotel = hotel1, ic_guest = guestA,
                ic_stay = latest_stay two_hotels_db (g_id guestA),
                ic_state = determine_state 50
                             (map_option attrs (latest_stay two_hotels_db (g_id guestA)))\<rparr>)"
    by blast
  then have c2: "resolve_identity id 1 50 two_hotels_db ''+40 721 000 111'' None
       = (pii_db, Some \<lparr>ic_hotel = hotel1, ic_guest = guestA, ic_stay = None,
                        ic_state = POST_STAY\<rparr>)"
    by (simp add: e)
  have n': "\<forall>g h s. \<not> in_house_match pii_db (map id (phone_variants ''0040 721 000 111'')) g h s"
    by (simp add: in_house_match_def pii_db_def one_guest_db_def two_hotels_db_def empty_db_def)
  have h': "ensure_hotel pii_db 1 = Some hotel1" by code_simp
  have f': "find (\<lambda>g. g_hotel_id g = 1
               \<and> phone_hash g \<in> set (if phone_variants ''0040 721 000 111'' = []
                                        then [id ''0040 721 000 111'']
                                        else map id (phone_variants ''0040 721 000 111'')))
       (guests pii_db) = Some guestA"
    by code_simp
  have e': "ensure_guest_pii pii_db guestA ''0040 721 000 111'' = pii_db"
    "latest_stay pii_db (g_id guestA) = None"
    "determine_state 60 None = POST_STAY"
    by code_simp+
  from resolve_identity_global_discovery
         [OF g', of pii_db id "''0040 721 000 111''" guestA hotel1 stayA 60] n' h' f'
  have "resolve_identity id 1 60 pii_db ''0040 721 000 111'' (Some 1)
       = (ensure_guest_pii pii_db guestA ''0040 721 000 111'',
          Some \<lparr>ic_hotel = hotel1, ic_guest = guestA,
                ic_stay = latest_stay pii_db (g_id guestA),
                ic_state = determine_state 60
                             (map_option attrs (latest_stay pii_db (g_id guestA)))\<rparr>)"
    by blast
  then have c3: "resolve_identity id 1 60 pii_db ''0040 721 000 111'' (Some 1)
       = (pii_db, Some \<lparr>ic_hotel = hotel1, ic_guest = guestA, ic_stay = None,
                        ic_state = POST_STAY\<rparr>)"
    by (simp add: e')
  from m r c1 n h f a c2 e(4) n' h' f' c3 show ?thesis by blast
qed

subsection \<open>Lookup by variant hashes\<close>

lemma resolve_in_hotel_found:
  assumes "ensure_hotel d (hotel_id_or hotel_id dflt) = Some h"
    and "phone_variants raw \<noteq> []"
    and "find (\<lambda>g. g_hotel_id g = h_id h \<and> phone_hash g \<in> sha256 ` set (phone_variants raw))
           (guests d) = Some g"
  shows "\<exists>ctx. resolve_in_hotel sha256 dflt now d raw hotel_id
            = (ensure_guest_pii d g raw, Some ctx) \<and> ic_guest ctx = g"
  using assms by (simp add: resolve_in_hotel_def Let_def)

lemma resolve_in_hotel_created:
  assumes "ensure_hotel d (hotel_id_or hotel_id dflt) = Some h"
    and "canonical_phone raw = Some c"
    and "find (\<lambda>g. g_hotel_id g = h_id h \<and> phone_hash g \<in> sha256 ` set (phone_variants raw))
           (guests d) = None"
    and "find (\<lambda>g. g_hotel_id g = h_id h \<and> phone_hash g = sha256 c) (guests d) = None"
    and "g = \<lparr>g_id = fresh_id (map g_id (guests d)), g_hotel_id = h_id h,
              phone_hash = sha256 c, preferred_language = None\<rparr>"
  shows "\<exists>ctx. resolve_in_hotel sha256 dflt now d raw hotel_id
            = (ensure_guest_pii (d\<lparr>guests := guests d @ [g]\<rparr>) g raw, Some ctx)
          \<and> ic_guest ctx = g"
  using assms by (simp add: resolve_in_hotel_def Let_def)


lemma in_house_match_mono:
  "in_house_match d hs g h s \<Longrightarrow> set hs \<subseteq> set hs' \<Longrightarrow> in_house_match d hs' g h s"
  by (auto simp: in_house_match_def)

lemma in_house_match_new_guest:
  assumes m: "in_house_match (ensure_guest_pii (d\<lparr>guests := guests d @ [g]\<rparr>) g raw) hs g' h' s'"
    and fk: "stays_refer_to_guests d"
    and fresh: "g_id g = fresh_id (map g_id (guests d))"
  shows "in_house_match d hs g' h' s'"
proof -
  from m have a: "g' \<in> set (guests d) \<or> g' = g" and b: "h' \<in> set (hotels d)"
    and c: "g_hotel_id g' = h_id h'" and s: "s' \<in> set (stays d)"
    and e: "s_guest_id s' = g_id g'" and f: "phone_hash g' \<in> set hs" and i: "status s' = IN_HOUSE"
    by (auto simp: in_house_match_def ensure_guest_pii_frame)
  have "g' \<noteq> g"
  proof
    assume "g' = g"
    with e fresh have "s_guest_id s' = fresh_id (map g_id (guests d))" by simp
    moreover from fk s have "s_guest_id s' \<in> set (map g_id (guests d))"
      by (simp add: stays_refer_to_guests_def)
    ultimately show False using fresh_id_fresh [of "map g_id (guests d)"] by simp
  qed
  with a have "g' \<in> set (guests d)" by simp
  with b c s e f i show ?thesis by (simp add: in_house_match_def)
qed


text \<open>
  C3, as amended. Resolution hashes every generated variant of the raw identifier and
  matches any of them against the stored hash, within the resolved tenant (the hinted
  one, or the default). Let that tenant exist, let \<open>raw\<close> have canonical number \<open>c\<close>
  and let the variants of \<open>raw'\<close> contain \<open>c\<close>. If no guest of the tenant is stored
  under a variant hash of \<open>raw\<close> or of \<open>raw'\<close>, and, when there is no tenant hint or
  the hint is the default tenant, no guest of any tenant stored under such a hash has an
  \<open>IN_HOUSE\<close> stay (every stay belonging to a guest of the table), then resolving
  \<open>raw\<close> inserts one guest for the tenant, stored under the hash of \<open>c\<close>, and
  resolving \<open>raw'\<close> afterwards returns that same guest and inserts none.
\<close>

theorem resolve_identity_variant_lookup:
  assumes hotel: "ensure_hotel d (hotel_id_or hotel_id default_hotel_id) = Some h"
    and canon: "canonical_phone raw = Some c"
    and mem: "c \<in> set (phone_variants raw')"
    and nomatch: "\<forall>g\<in>set (guests d). g_hotel_id g = h_id h \<longrightarrow>
                    phone_hash g \<notin> sha256 ` (set (phone_variants raw) \<union> set (phone_variants raw'))"
    and noglobal: "hotel_id = None \<or> hotel_id = Some default_hotel_id \<Longrightarrow>
                    stays_refer_to_guests d
                    \<and> (\<forall>g h s. \<not> in_house_match d
                                   (map sha256 (phone_variants raw @ phone_variants raw')) g h s)"
  shows "\<exists>d1 ctx1 d2 ctx2.
           resolve_identity sha256 default_hotel_id now d raw hotel_id = (d1, Some ctx1)
         \<and> resolve_identity sha256 default_hotel_id now' d1 raw' hotel_id = (d2, Some ctx2)
         \<and> ic_guest ctx2 = ic_guest ctx1
         \<and> phone_hash (ic_guest ctx1) = sha256 c
         \<and> g_hotel_id (ic_guest ctx1) = h_id h
         \<and> guests d1 = guests d @ [ic_guest ctx1]
         \<and> guests d2 = guests d1"
proof -
  let ?g = "\<lparr>g_id = fresh_id (map g_id (guests d)), g_hotel_id = h_id h,
              phone_hash = sha256 c, preferred_language = None\<rparr>"
  let ?d1 = "ensure_guest_pii (d\<lparr>guests := guests d @ [?g]\<rparr>) ?g raw"
  have n1: "find_guest_globally d (map sha256 (phone_variants raw)) = None"
    if "hotel_id = None \<or> hotel_id = Some default_hotel_id"
  proof (rule find_guest_globally_None, intro allI notI)
    fix g' h' s' assume "in_house_match d (map sha256 (phone_variants raw)) g' h' s'"
    then have "in_house_match d (map sha256 (phone_variants raw @ phone_variants raw')) g' h' s'"
      by (rule in_house_match_mono) auto
    with noglobal [OF that] show False by blast
  qed
  have n2: "find_guest_globally ?d1 (map sha256 (phone_variants raw')) = None"
    if "hotel_id = None \<or> hotel_id = Some default_hotel_id"
  proof (rule find_guest_globally_None, intro allI notI)
    fix g' h' s' assume "in_house_match ?d1 (map sha256 (phone_variants raw')) g' h' s'"
    then have "in_house_match d (map sha256 (phone_variants raw')) g' h' s'"
      using noglobal [OF that] by (intro in_house_match_new_guest [of d ?g raw]) auto
    then have "in_house_match d (map sha256 (phone_variants raw @ phone_variants raw')) g' h' s'"
      by (rule in_house_match_mono) auto
    with noglobal [OF that] show False by blast
  qed
  have ng1: "resolve_identity sha256 default_hotel_id now d raw hotel_id
              = resolve_in_hotel sha256 default_hotel_id now d raw hotel_id"
    using n1 by (auto simp: resolve_identity_def)
  have ng2: "resolve_identity sha256 default_hotel_id now' ?d1 raw' hotel_id
              = resolve_in_hotel sha256 default_hotel_id now' ?d1 raw' hotel_id"
    using n2 by (auto simp: resolve_identity_def)
  have cm: "c \<in> set (phone_variants raw)" using canon by (rule canonical_phone_member)
  have f1: "find (\<lambda>g. g_hotel_id g = h_id h \<and> phone_hash g \<in> sha256 ` set (phone_variants raw))
              (guests d) = None"
    using nomatch by (auto simp: find_None_iff2)
  have f2: "find (\<lambda>g. g_hotel_id g = h_id h \<and> phone_hash g = sha256 c) (guests d) = None"
    using nomatch cm by (auto simp: find_None_iff2)
  have f3: "find (\<lambda>g. g_hotel_id g = h_id h \<and> phone_hash g \<in> sha256 ` set (phone_variants raw'))
              (guests d) = None"
    using nomatch by (auto simp: find_None_iff2)
  from resolve_in_hotel_created [of d hotel_id default_hotel_id h raw c sha256 ?g now]
  obtain ctx1 where r1: "resolve_in_hotel sha256 default_hotel_id now d raw hotel_id
                           = (?d1, Some ctx1)" and g1: "ic_guest ctx1 = ?g"
    using hotel canon f1 f2 by auto
  have h1: "ensure_hotel ?d1 (hotel_id_or hotel_id default_hotel_id) = Some h"
    using hotel by (simp add: ensure_hotel_def ensure_guest_pii_frame)
  have ne: "phone_variants raw' \<noteq> []" using mem by auto
  have f4: "find (\<lambda>g. g_hotel_id g = h_id h \<and> phone_hash g \<in> sha256 ` set (phone_variants raw'))
              (guests ?d1) = Some ?g"
    using f3 mem by (simp add: ensure_guest_pii_frame find_None_append)
  from resolve_in_hotel_found [OF h1 ne f4, of now']
  obtain ctx2 where r2: "resolve_in_hotel sha256 default_hotel_id now' ?d1 raw' hotel_id
                           = (ensure_guest_pii ?d1 ?g raw', Some ctx2)" and g2: "ic_guest ctx2 = ?g"
    by auto
  show ?thesis
    using r1 r2 g1 g2 ng1 ng2 by (simp add: ensure_guest_pii_frame)
qed


theorem resolve_identity_variant_lookup_witness:
  "ensure_hotel one_guest_db (hotel_id_or (Some 2) 1) = Some hotel2
   \<and> canonical_phone ''0721000111'' = Some ''0721000111''
   \<and> ''0721000111'' \<in> set (phone_variants ''+40 721 000 111'')
   \<and> (\<exists>d1 ctx1 d2 ctx2.
         resolve_identity id 1 0 one_guest_db ''0721000111'' (Some 2) = (d1, Some ctx1)
       \<and> resolve_identity id 1 5 d1 ''+40 721 000 111'' (Some 2) = (d2, Some ctx2)
       \<and> ic_guest ctx2 = ic_guest ctx1
       \<and> phone_hash (ic_guest ctx1) = id ''0721000111''
       \<and> g_hotel_id (ic_guest ctx1) = h_id hotel2
       \<and> guests d1 = guests one_guest_db @ [ic_guest ctx1]
       \<and> guests d2 = guests d1)
   \<and> ensure_hotel shared_phone_db (hotel_id_or None 1) = Some hotel1
   \<and> canonical_phone ''0722 000 222'' = Some ''0722000222''
   \<and> ''0722000222'' \<in> set (phone_variants ''0040 722 000 222'')
   \<and> stays_refer_to_guests shared_phone_db
   \<and> (\<forall>g h s. \<not> in_house_match shared_phone_db
                    (map id (phone_variants ''0722 000 222'' @ phone_variants ''0040 722 000 222''))
                    g h s)
   \<and> (\<exists>d1 ctx1 d2 ctx2.
         resolve_identity id 1 0 shared_phone_db ''0722 000 222'' None = (d1, Some ctx1)
       \<and> resolve_identity id 1 5 d1 ''0040 722 000 222'' None = (d2, Some ctx2)
       \<and> ic_guest ctx2 = ic_guest ctx1
       \<and> phone_hash (ic_guest ctx1) = id ''0722000222''
       \<and> g_hotel_id (ic_guest ctx1) = h_id hotel1
       \<and> guests d1 = guests shared_phone_db @ [ic_guest ctx1]
       \<and> guests d2 = guests d1)
   \<and> map_option ic_guest (snd (resolve_identity id 1 0 shared_phone_db ''0722 000 222'' None))
       = Some \<lparr>g_id = 3, g_hotel_id = 1, phone_hash = ''0722000222'', preferred_language = None\<rparr>
   \<and> map_option ic_guest
       (snd (resolve_identity id 1 5
              (fst (resolve_identity id 1 0 shared_phone_db ''0722 000 222'' None))
              ''0040 722 000 222'' None))
       = Some \<lparr>g_id = 3, g_hotel_id = 1, phone_hash = ''0722000222'', preferred_language = None\<rparr>"
proof -
  have h: "ensure_hotel one_guest_db (hotel_id_or (Some 2) 1) = Some hotel2" by code_simp
  have c: "canonical_phone ''0721000111'' = Some ''0721000111''" by code_simp
  have m: "''0721000111'' \<in> set (phone_variants ''+40 721 000 111'')" by code_simp
  have n: "\<forall>g\<in>set (guests one_guest_db). g_hotel_id g = h_id hotel2 \<longrightarrow>
             phone_hash g \<notin> id ` (set (phone_variants ''0721000111'')
                                    \<union> set (phone_variants ''+40 721 000 111''))"
    by (simp add: one_guest_db_def two_hotels_db_def empty_db_def guestA_def hotel2_def)
  have k: "Some (2::nat) = None \<or> Some (2::nat) = Some 1 \<Longrightarrow>
             stays_refer_to_guests one_guest_db
             \<and> (\<forall>g h s. \<not> in_house_match one_guest_db
                    (map id (phone_variants ''0721000111'' @ phone_variants ''+40 721 000 111''))
                    g h s)"
    by simp
  note r1 = resolve_identity_variant_lookup [OF h c m n k, of 0 5]
  have h': "ensure_hotel shared_phone_db (hotel_id_or None 1) = Some hotel1" by code_simp
  have c': "canonical_phone ''0722 000 222'' = Some ''0722000222''" by code_simp
  have m': "''0722000222'' \<in> set (phone_variants ''0040 722 000 222'')" by code_simp
  have v: "phone_variants ''0722 000 222'' = [''722000222'', ''0722000222'']"
    "phone_variants ''0040 722 000 222'' = [''0722000222'', ''40722000222'']"
    by code_simp+
  have n': "\<forall>g\<in>set (guests shared_phone_db). g_hotel_id g = h_id hotel1 \<longrightarrow>
             phone_hash g \<notin> id ` (set (phone_variants ''0722 000 222'')
                                    \<union> set (phone_variants ''0040 722 000 222''))"
    by (simp add: v shared_phone_db_def guestA_def guestB_def hotel1_def)
  have fk: "stays_refer_to_guests shared_phone_db" by code_simp
  have ng: "\<forall>g h s. \<not> in_house_match shared_phone_db
                    (map id (phone_variants ''0722 000 222'' @ phone_variants ''0040 722 000 222''))
                    g h s"
    by (auto simp: v in_house_match_def shared_phone_db_def guestA_def guestB_def)
  from fk ng have k': "(None :: nat option) = None \<or> (None :: nat option) = Some 1 \<Longrightarrow>
             stays_refer_to_guests shared_phone_db
             \<and> (\<forall>g h s. \<not> in_house_match shared_phone_db
                    (map id (phone_variants ''0722 000 222'' @ phone_variants ''0040 722 000 222''))
                    g h s)"
    by simp
  note r2 = resolve_identity_variant_lookup [OF h' c' m' n' k', of 0 5]
  have e: "map_option ic_guest (snd (resolve_identity id 1 0 shared_phone_db ''0722 000 222'' None))
       = Some \<lparr>g_id = 3, g_hotel_id = 1, phone_hash = ''0722000222'', preferred_language = None\<rparr>"
    "map_option ic_guest
       (snd (resolve_identity id 1 5
              (fst (resolve_identity id 1 0 shared_phone_db ''0722 000 222'' None))
              ''0040 722 000 222'' None))
       = Some \<lparr>g_id = 3, g_hotel_id = 1, phone_hash = ''0722000222'', preferred_language = None\<rparr>"
    by code_simp+
  from h c m r1 h' c' m' fk ng r2 e show ?thesis by simp
qed

text \<open>
  C3 as stated fails: \<open>0721000111\<close> is a generated variant of the canonical number
  \<open>40721000111\<close>, yet after the canonical number has resolved to guest 1, the variant
  sent as identifier resolves to a new guest 2. The digest is taken as the identity here;
  any digest that separates the strings involved gives the same run.
\<close>

theorem variant_resolves_to_other_guest:
  "''0721000111'' \<in> set (phone_variants ''40721000111'')
   \<and> canonical_phone ''40721000111'' = Some ''40721000111''
   \<and> map_option (g_id \<circ> ic_guest)
       (snd (resolve_identity id 1 0 two_hotels_db ''40721000111'' None)) = Some 1
   \<and> map_option (g_id \<circ> ic_guest)
       (snd (resolve_identity id 1 0
              (fst (resolve_identity id 1 0 two_hotels_db ''40721000111'' None))
              ''0721000111'' None)) = Some 2"
  by code_simp

subsection \<open>Contact details: channel first contact and PMS sync\<close>

lemma phone_variants_nonempty: "v \<in> set (phone_variants raw) \<Longrightarrow> v \<noteq> []"
  by (auto simp: phone_variants_def Let_def split: if_splits)

lemma canonical_phone_nonempty: "canonical_phone raw = Some c \<Longrightarrow> c \<noteq> []"
  using canonical_phone_member phone_variants_nonempty by blast

lemma find_update_first:
  "find P xs = Some x \<Longrightarrow> P (f x) \<Longrightarrow> find P (update_first P f xs) = Some (f x)"
  by (induction xs) (auto split: if_splits)

lemma find_append_new:
  "find P xs = None \<Longrightarrow> P y \<Longrightarrow> find P (xs @ [y]) = Some y"
  by (induction xs) (auto split: if_splits)

lemma update_first_same:
  "find P xs = Some x \<Longrightarrow> f x = x \<Longrightarrow> update_first P f xs = xs"
  by (induction xs) (auto split: if_splits)

lemma ensure_guest_pii_keeps:
  assumes "find (\<lambda>p. p_guest_id p = g_id g) (piis d) = Some p" and "truthy (phone_plain p)"
  shows "ensure_guest_pii d g phone = d"
  using assms by (simp add: ensure_guest_pii_def split: option.splits)

lemma ensure_guest_pii_populated:
  assumes "ensure_guest_pii d g phone \<noteq> d"
  shows "\<exists>p. find (\<lambda>p. p_guest_id p = g_id g) (piis (ensure_guest_pii d g phone)) = Some p
           \<and> truthy (phone_plain p)"
proof -
  from assms obtain c where c: "canonical_phone phone = Some c" and ne: "phone \<noteq> []"
    by (auto simp: ensure_guest_pii_def split: option.splits if_splits)
  have t: "truthy (Some c)" using canonical_phone_nonempty [OF c] by (simp add: truthy_def)
  show ?thesis
  proof (cases "find (\<lambda>p. p_guest_id p = g_id g) (piis d)")
    case None
    then show ?thesis using c ne t
      by (simp add: ensure_guest_pii_def find_append_new)
  next
    case (Some q)
    then have pq: "p_guest_id q = g_id g" by (auto dest: find_Some_prop)
    from Some assms c ne have "\<not> truthy (phone_plain q)"
      by (auto simp: ensure_guest_pii_def)
    then show ?thesis using Some c ne t pq
      by (simp add: ensure_guest_pii_def find_update_first)
  qed
qed

lemma upsert_guest_pii_sets:
  "\<exists>p. find (\<lambda>p. p_guest_id p = g_id g) (piis (upsert_guest_pii d g name phone email)) = Some p
       \<and> full_name p = Some name \<and> phone_plain p = Some phone"
proof (cases "find (\<lambda>p. p_guest_id p = g_id g) (piis d)")
  case None
  then show ?thesis by (simp add: upsert_guest_pii_def find_append_new)
next
  case (Some q)
  then have "p_guest_id q = g_id g" by (auto dest: find_Some_prop)
  then show ?thesis using Some by (simp add: upsert_guest_pii_def find_update_first)
qed


text \<open>
  C9. The channel first-contact path (\<open>_ensure_guest_pii\<close>, called by identity
  resolution) leaves the database as it is when the guest's contact-detail record has a
  populated phone, and once a call has populated the record every later call changes
  nothing. The PMS path (\<open>_upsert_guest_pii\<close>) leaves a record whose name and phone are
  those of the reservation, whatever was stored before.
\<close>

theorem contact_details_channel_and_pms:
  "(find (\<lambda>p. p_guest_id p = g_id g) (piis d) = Some p \<and> truthy (phone_plain p)
      \<longrightarrow> ensure_guest_pii d g phone = d)
   \<and> (ensure_guest_pii d g phone \<noteq> d
      \<longrightarrow> ensure_guest_pii (ensure_guest_pii d g phone) g phone' = ensure_guest_pii d g phone)
   \<and> (\<exists>q. find (\<lambda>p. p_guest_id p = g_id g) (piis (upsert_guest_pii d g name pms_phone email)) = Some q
          \<and> full_name q = Some name \<and> phone_plain q = Some pms_phone)"
  using ensure_guest_pii_keeps ensure_guest_pii_populated upsert_guest_pii_sets by blast

theorem contact_details_channel_and_pms_witness:
  "find (\<lambda>p. p_guest_id p = g_id guestA) (piis pii_db) = Some piiA \<and> truthy (phone_plain piiA)
   \<and> ensure_guest_pii pii_db guestA ''0799'' = pii_db
   \<and> ensure_guest_pii one_guest_db guestA ''40721000111'' \<noteq> one_guest_db
   \<and> ensure_guest_pii (ensure_guest_pii one_guest_db guestA ''40721000111'') guestA ''0799''
       = ensure_guest_pii one_guest_db guestA ''40721000111''
   \<and> (\<exists>q. find (\<lambda>p. p_guest_id p = g_id guestA)
              (piis (upsert_guest_pii pii_db guestA ''Ana'' ''+40 799'' None)) = Some q
          \<and> full_name q = Some ''Ana'' \<and> phone_plain q = Some ''+40 799'')"
proof -
  have a: "find (\<lambda>p. p_guest_id p = g_id guestA) (piis pii_db) = Some piiA \<and> truthy (phone_plain piiA)"
    by code_simp
  have b: "ensure_guest_pii one_guest_db guestA ''40721000111'' \<noteq> one_guest_db"
    by code_simp
  from contact_details_channel_and_pms
         [of guestA pii_db piiA "''0799''" "''0799''" "''Ana''" "''+40 799''" None] a
  have c: "ensure_guest_pii pii_db guestA ''0799'' = pii_db"
    and d: "\<exists>q. find (\<lambda>p. p_guest_id p = g_id guestA)
              (piis (upsert_guest_pii pii_db guestA ''Ana'' ''+40 799'' None)) = Some q
          \<and> full_name q = Some ''Ana'' \<and> phone_plain q = Some ''+40 799''"
    by blast+
  from contact_details_channel_and_pms
         [of guestA one_guest_db piiA "''40721000111''" "''0799''" "''Ana''" "''+40 799''" None] b
  have e: "ensure_guest_pii (ensure_guest_pii one_guest_db guestA ''40721000111'') guestA ''0799''
       = ensure_guest_pii one_guest_db guestA ''40721000111''"
    by blast
  from a b c d e show ?thesis by blast
qed

subsection \<open>Check-in handling\<close>

paragraph \<open>get_or_create_guest\<close>

lemma get_or_create_guest_result:
  assumes "get_or_create_guest sha256 d hotel_id phone = (d1, g)"
  shows "find (\<lambda>g. g_hotel_id g = hotel_id \<and> phone_hash g = hash_phone sha256 phone) (guests d1) = Some g
         \<and> piis d1 = piis d \<and> rooms d1 = rooms d \<and> stays d1 = stays d
         \<and> journeys d1 = journeys d \<and> journey_events d1 = journey_events d"
  using assms
  by (auto simp: get_or_create_guest_def Let_def find_append_new split: option.splits)

lemma get_or_create_guest_found:
  assumes "find (\<lambda>g. g_hotel_id g = hotel_id \<and> phone_hash g = hash_phone sha256 phone) (guests d) = Some g"
  shows "get_or_create_guest sha256 d hotel_id phone = (d, g)"
  using assms by (simp add: get_or_create_guest_def)

paragraph \<open>upsert_guest_pii\<close>

lemma upsert_guest_pii_result:
  "\<exists>p. find (\<lambda>p. p_guest_id p = g_id g) (piis (upsert_guest_pii d g name phone email)) = Some p
       \<and> pms_pii name phone email p = p"
proof (cases "find (\<lambda>p. p_guest_id p = g_id g) (piis d)")
  case None
  then show ?thesis by (simp add: upsert_guest_pii_def find_append_new pms_pii_def)
next
  case (Some q)
  then have "p_guest_id q = g_id g" by (auto dest: find_Some_prop)
  then show ?thesis using Some
    by (simp add: upsert_guest_pii_def find_update_first pms_pii_def)
qed

lemma upsert_guest_pii_frame:
  "guests (upsert_guest_pii d g name phone email) = guests d"
  "rooms (upsert_guest_pii d g name phone email) = rooms d"
  "stays (upsert_guest_pii d g name phone email) = stays d"
  "journeys (upsert_guest_pii d g name phone email) = journeys d"
  "journey_events (upsert_guest_pii d g name phone email) = journey_events d"
  by (auto simp: upsert_guest_pii_def split: option.splits)

lemma upsert_guest_pii_same:
  assumes "find (\<lambda>p. p_guest_id p = g_id g) (piis d) = Some p" and "pms_pii name phone email p = p"
  shows "upsert_guest_pii d g name phone email = d"
proof -
  have "update_first (\<lambda>p. p_guest_id p = g_id g) (pms_pii name phone email) (piis d) = piis d"
    using assms by (rule update_first_same)
  then show ?thesis using assms(1)
    by (simp add: upsert_guest_pii_def pms_pii_def [abs_def])
qed

paragraph \<open>get_or_create_room\<close>

lemma get_or_create_room_frame:
  assumes "get_or_create_room d hotel_id number = (d1, rid)"
  shows "guests d1 = guests d \<and> piis d1 = piis d \<and> stays d1 = stays d
         \<and> journeys d1 = journeys d \<and> journey_events d1 = journey_events d"
  using assms
  by (auto simp: get_or_create_room_def Let_def split: option.splits if_splits)

lemma get_or_create_room_again:
  assumes "get_or_create_room d hotel_id number = (d1, rid)" and "rooms d' = rooms d1"
  shows "get_or_create_room d' hotel_id number = (d', rid)"
  using assms
  by (auto simp: get_or_create_room_def Let_def find_append_new split: option.splits if_splits)


paragraph \<open>Steps 1 to 4\<close>

lemma checkin_prepare_frame:
  assumes "checkin_prepare sha256 d hotel_id r = (d4, g, rid)"
  shows "stays d4 = stays d \<and> journeys d4 = journeys d \<and> journey_events d4 = journey_events d"
proof -
  obtain d1 g0 where a: "get_or_create_guest sha256 d hotel_id (guest_phone r) = (d1, g0)"
    by (cases "get_or_create_guest sha256 d hotel_id (guest_phone r)") auto
  let ?d2 = "upsert_guest_pii d1 g0 (guest_name r) (guest_phone r) (guest_email r)"
  let ?c = "truthy (res_preferred_language r) \<and> \<not> truthy (preferred_language g0)"
  let ?d3 = "if ?c then ?d2\<lparr>guests := update_first
                       (\<lambda>g. g_hotel_id g = hotel_id \<and> phone_hash g = hash_phone sha256 (guest_phone r))
                       (\<lambda>g. g\<lparr>preferred_language := res_preferred_language r\<rparr>)
                       (guests ?d2)\<rparr> else ?d2"
  obtain d4' rid' where b: "get_or_create_room ?d3 hotel_id (res_room_number r) = (d4', rid')"
    by (cases "get_or_create_room ?d3 hotel_id (res_room_number r)") auto
  have e: "d4 = d4'"
    using assms a b by (auto simp: checkin_prepare_def Let_def split: if_splits)
  have "stays ?d3 = stays d \<and> journeys ?d3 = journeys d \<and> journey_events ?d3 = journey_events d"
    using get_or_create_guest_result [OF a] by (simp add: upsert_guest_pii_frame)
  then show ?thesis using get_or_create_room_frame [OF b] e by simp
qed

lemma checkin_prepare_again:
  assumes p: "checkin_prepare sha256 d hotel_id r = (d4, g, rid)"
    and eq: "guests d' = guests d4" "piis d' = piis d4" "rooms d' = rooms d4"
  shows "checkin_prepare sha256 d' hotel_id r = (d', g, rid)"
proof -
  let ?P = "\<lambda>g. g_hotel_id g = hotel_id \<and> phone_hash g = hash_phone sha256 (guest_phone r)"
  let ?f = "\<lambda>g. g\<lparr>preferred_language := res_preferred_language r\<rparr>"
  obtain d1 g0 where a: "get_or_create_guest sha256 d hotel_id (guest_phone r) = (d1, g0)"
    by (cases "get_or_create_guest sha256 d hotel_id (guest_phone r)") auto
  let ?d2 = "upsert_guest_pii d1 g0 (guest_name r) (guest_phone r) (guest_email r)"
  let ?c = "truthy (res_preferred_language r) \<and> \<not> truthy (preferred_language g0)"
  let ?d3 = "if ?c then ?d2\<lparr>guests := update_first ?P ?f (guests ?d2)\<rparr> else ?d2"
  let ?g3 = "if ?c then ?f g0 else g0"
  obtain d4' rid' where b: "get_or_create_room ?d3 hotel_id (res_room_number r) = (d4', rid')"
    by (cases "get_or_create_room ?d3 hotel_id (res_room_number r)") auto
  have e: "d4 = d4'" "g = ?g3" "rid = rid'"
    using p a b by (auto simp: checkin_prepare_def Let_def split: if_splits)
  have fg0: "find ?P (guests d1) = Some g0"
    using get_or_create_guest_result [OF a] by simp
  have Pg0: "?P g0" using fg0 by (auto dest: find_Some_prop)
  have g3: "find ?P (guests ?d3) = Some ?g3"
    using fg0 Pg0 by (simp add: upsert_guest_pii_frame find_update_first)
  have fr: "guests d4' = guests ?d3" "piis d4' = piis ?d3"
    using get_or_create_room_frame [OF b] by simp_all
  have s1: "get_or_create_guest sha256 d' hotel_id (guest_phone r) = (d', ?g3)"
    by (rule get_or_create_guest_found) (use g3 fr eq e in simp)
  have gid: "g_id ?g3 = g_id g0" by simp
  from upsert_guest_pii_result [of g0 d1 "guest_name r" "guest_phone r" "guest_email r"]
  obtain q where q: "find (\<lambda>p. p_guest_id p = g_id g0) (piis ?d2) = Some q"
    and qq: "pms_pii (guest_name r) (guest_phone r) (guest_email r) q = q" by blast
  have "piis d' = piis ?d2" using eq e fr by simp
  with q gid have q': "find (\<lambda>p. p_guest_id p = g_id ?g3) (piis d') = Some q" by simp
  have s2: "upsert_guest_pii d' ?g3 (guest_name r) (guest_phone r) (guest_email r) = d'"
    using q' qq by (rule upsert_guest_pii_same)
  have s3: "\<not> (truthy (res_preferred_language r) \<and> \<not> truthy (preferred_language ?g3))"
    by auto
  have s4: "get_or_create_room d' hotel_id (res_room_number r) = (d', rid')"
    using b by (rule get_or_create_room_again) (use eq e in simp)
  show ?thesis
    unfolding checkin_prepare_def Let_def s1 prod.case s2
    using s3 s4 e by (simp del: split_paired_All)
qed


paragraph \<open>Steps 6 to 8\<close>

lemma closes_comp: "closes h \<Longrightarrow> closes k \<Longrightarrow> closes (k \<circ> h)"
  unfolding closes_def
proof (intro allI)
  fix s assume h: "\<forall>s. h s = s \<or> h s = s\<lparr>status := POST_STAY\<rparr>"
    and k: "\<forall>s. k s = s \<or> k s = s\<lparr>status := POST_STAY\<rparr>"
  from h have "h s = s \<or> h s = s\<lparr>status := POST_STAY\<rparr>" by blast
  moreover from k have "k (h s) = h s \<or> k (h s) = (h s)\<lparr>status := POST_STAY\<rparr>" by blast
  ultimately show "(k \<circ> h) s = s \<or> (k \<circ> h) s = s\<lparr>status := POST_STAY\<rparr>"
    by auto
qed

lemma closes_if: "closes (\<lambda>s. if P s then s\<lparr>status := POST_STAY\<rparr> else s)"
  by (simp add: closes_def)

lemma close_previous_stays_result:
  assumes "close_previous_stays d gid rid = (d5, n)"
  shows "(\<exists>h. closes h \<and> stays d5 = map h (stays d))
         \<and> guests d5 = guests d \<and> piis d5 = piis d \<and> rooms d5 = rooms d
         \<and> journeys d5 = journeys d \<and> journey_events d5 = journey_events d"
proof -
  let ?h = "\<lambda>s. if s_guest_id s = gid \<and> status s = IN_HOUSE then s\<lparr>status := POST_STAY\<rparr> else s"
  have ch: "closes ?h" by (rule closes_if)
  show ?thesis
  proof (cases "rid = None \<or> rid = Some 0")
    case True
    then have "d5 = d\<lparr>stays := map ?h (stays d)\<rparr>"
      using assms by (auto simp: close_previous_stays_def Let_def)
    then show ?thesis using ch by auto
  next
    case False
    then obtain r where r: "rid = Some r" "r \<noteq> 0" by auto
    let ?k = "\<lambda>s. if s_room_id s = Some r \<and> status s = IN_HOUSE \<and> s_guest_id s \<noteq> gid
                   then s\<lparr>status := POST_STAY\<rparr> else s"
    have "d5 = d\<lparr>stays := map ?k (map ?h (stays d))\<rparr>"
      using assms r by (auto simp: close_previous_stays_def Let_def)
    then have "stays d5 = map (?k \<circ> ?h) (stays d)" and fr: "guests d5 = guests d" "piis d5 = piis d"
      "rooms d5 = rooms d" "journeys d5 = journeys d" "journey_events d5 = journey_events d"
      by simp_all
    moreover have "closes (?k \<circ> ?h)" by (rule closes_comp [OF ch closes_if])
    ultimately show ?thesis by blast
  qed
qed

lemma closes_key:
  assumes "closes h"
  shows "s_id (h s) = s_id s" "s_hotel_id (h s) = s_hotel_id s" "s_guest_id (h s) = s_guest_id s"
    "pms_reservation_id (h s) = pms_reservation_id s"
proof -
  from assms have "h s = s \<or> h s = s\<lparr>status := POST_STAY\<rparr>" by (simp add: closes_def)
  then show "s_id (h s) = s_id s" "s_hotel_id (h s) = s_hotel_id s" "s_guest_id (h s) = s_guest_id s"
    "pms_reservation_id (h s) = pms_reservation_id s" by auto
qed


lemma checkin_create_result:
  assumes "checkin_create now d4 hotel_id r g rid st = (d7, st7)"
  shows "\<exists>h. closes h \<and> stays d7 = map h (stays d4) @ [new_stay d4 hotel_id r g rid]
           \<and> guests d7 = guests d4 \<and> piis d7 = piis d4 \<and> rooms d7 = rooms d4
           \<and> (journey_events d7 = journey_events d4
               \<or> (\<exists>ev. journey_events d7 = journey_events d4 @ [ev]
                        \<and> e_stay_id ev = s_id (new_stay d4 hotel_id r g rid)))
           \<and> stays_created st7 = Suc (stays_created st)"
proof -
  obtain d5 n where c: "close_previous_stays d4 (g_id g) rid = (d5, n)"
    by (cases "close_previous_stays d4 (g_id g) rid") auto
  from close_previous_stays_result [OF c] obtain h where h: "closes h"
    and st: "stays d5 = map h (stays d4)"
    and fr: "guests d5 = guests d4" "piis d5 = piis d4" "rooms d5 = rooms d4"
      "journeys d5 = journeys d4" "journey_events d5 = journey_events d4" by blast
  have "map (s_id \<circ> h) (stays d4) = map s_id (stays d4)"
    using closes_key(1) [OF h] by simp
  then have ids: "fresh_id (map (s_id \<circ> h) (stays d4)) = fresh_id (map s_id (stays d4))"
    by (rule arg_cong)
  have "stays d7 = map h (stays d4) @ [new_stay d4 hotel_id r g rid]
           \<and> guests d7 = guests d4 \<and> piis d7 = piis d4 \<and> rooms d7 = rooms d4
           \<and> (journey_events d7 = journey_events d4
               \<or> (\<exists>ev. journey_events d7 = journey_events d4 @ [ev]
                        \<and> e_stay_id ev = s_id (new_stay d4 hotel_id r g rid)))
           \<and> stays_created st7 = Suc (stays_created st)"
    using assms c st fr ids
    by (auto simp: checkin_create_def Let_def new_stay_def split: option.splits)
  with h show ?thesis by blast
qed

lemma handle_checkin_created:
  assumes "handle_checkin sha256 now d hotel_id r st = (d1, st1)"
    and "stays_created st1 = Suc (stays_created st)"
    and "checkin_prepare sha256 d hotel_id r = (d4, g, rid)"
  shows "find (is_reservation_stay hotel_id (g_id g) (reservation_id r)) (stays d4) = None
         \<and> checkin_create now d4 hotel_id r g rid st = (d1, st1)"
  using assms by (auto simp: handle_checkin_def Let_def split: option.splits)

lemma find_None_filter: "find P xs = None \<Longrightarrow> filter P xs = []"
  by (induction xs) (auto split: if_splits)

lemma handle_checkin_twice:
  assumes fk: "\<forall>e\<in>set (journey_events d). e_stay_id e \<in> s_id ` set (stays d)"
    and first: "handle_checkin sha256 now d hotel_id r st = (d1, st1)"
    and created: "stays_created st1 = Suc (stays_created st)"
    and second: "handle_checkin sha256 now' d1 hotel_id r st1 = (d2, st2)"
    and prep: "checkin_prepare sha256 d hotel_id r = (d4, g, rid)"
  shows "d2 = d1
    \<and> (\<exists>stay. filter (is_reservation_stay hotel_id (g_id g) (reservation_id r)) (stays d2) = [stay]
          \<and> status stay = IN_HOUSE \<and> s_room_id stay = rid
          \<and> checkin_date stay = res_checkin_date r \<and> checkout_date stay = res_checkout_date r
          \<and> length (filter (\<lambda>e. e_journey_id e = j \<and> e_stay_id e = s_id stay
                                  \<and> e_status e \<in> {PENDING, SENT}) (journey_events d2)) \<le> 1)
    \<and> ((\<forall>s\<in>set (stays d). \<not> (s_hotel_id s = hotel_id
                                 \<and> pms_reservation_id s = Some (reservation_id r)))
        \<longrightarrow> length (filter (\<lambda>s. s_hotel_id s = hotel_id
                                  \<and> pms_reservation_id s = Some (reservation_id r)) (stays d2)) = 1)"
proof -
  let ?E = "is_reservation_stay hotel_id (g_id g) (reservation_id r)"
  let ?new = "new_stay d4 hotel_id r g rid"
  let ?u = "\<lambda>s. s\<lparr>status := IN_HOUSE, s_room_id := rid, checkin_date := res_checkin_date r,
                   checkout_date := res_checkout_date r\<rparr>"
  from handle_checkin_created [OF first created prep]
  have none: "find ?E (stays d4) = None"
    and cr: "checkin_create now d4 hotel_id r g rid st = (d1, st1)" by simp_all
  from checkin_create_result [OF cr] obtain h where h: "closes h"
    and st: "stays d1 = map h (stays d4) @ [?new]"
    and fr: "guests d1 = guests d4" "piis d1 = piis d4" "rooms d1 = rooms d4"
    and ev: "journey_events d1 = journey_events d4
             \<or> (\<exists>ev. journey_events d1 = journey_events d4 @ [ev] \<and> e_stay_id ev = s_id ?new)"
    by blast
  have pf: "stays d4 = stays d" "journey_events d4 = journey_events d"
    using checkin_prepare_frame [OF prep] by simp_all
  have prep2: "checkin_prepare sha256 d1 hotel_id r = (d1, g, rid)"
    by (rule checkin_prepare_again [OF prep fr])
  have Eh: "\<And>s. ?E (h s) = ?E s"
    using closes_key [OF h] by (simp add: is_reservation_stay_def)
  have old: "find ?E (map h (stays d4)) = None"
    using none Eh by (simp add: find_None_iff2)
  have Enew: "?E ?new" by (simp add: is_reservation_stay_def new_stay_def)
  have f1: "find ?E (stays d1) = Some ?new"
    using old Enew st by (simp add: find_append_new)
  have "?u ?new = ?new" by (simp add: new_stay_def)
  with f1 have "update_first ?E ?u (stays d1) = stays d1" by (rule update_first_same)
  then have run2: "handle_checkin sha256 now' d1 hotel_id r st1
                     = (d1, st1\<lparr>checkins_processed := checkins_processed st1 + 1\<rparr>)"
    using prep2 f1 by (simp add: handle_checkin_def)
  with second have eq: "d2 = d1" by simp
  have fE: "filter ?E (stays d1) = [?new]"
    using find_None_filter [OF old] Enew st by simp
  have fresh: "s_id ?new \<notin> s_id ` set (stays d)"
    using fresh_id_fresh [of "map s_id (stays d4)"] pf by (simp add: new_stay_def)
  have "filter (\<lambda>e. e_journey_id e = j \<and> e_stay_id e = s_id ?new \<and> e_status e \<in> {PENDING, SENT})
          (journey_events d4) = []"
  proof -
    have "\<forall>e\<in>set (journey_events d4). e_stay_id e \<noteq> s_id ?new"
      using fk fresh pf by metis
    then show ?thesis by (simp add: filter_empty_conv)
  qed
  with ev have le: "length (filter (\<lambda>e. e_journey_id e = j \<and> e_stay_id e = s_id ?new
                                  \<and> e_status e \<in> {PENDING, SENT}) (journey_events d1)) \<le> 1"
    by auto
  have part2: "\<exists>stay. filter ?E (stays d2) = [stay]
          \<and> status stay = IN_HOUSE \<and> s_room_id stay = rid
          \<and> checkin_date stay = res_checkin_date r \<and> checkout_date stay = res_checkout_date r
          \<and> length (filter (\<lambda>e. e_journey_id e = j \<and> e_stay_id e = s_id stay
                                  \<and> e_status e \<in> {PENDING, SENT}) (journey_events d2)) \<le> 1"
    using fE le eq by (intro exI [of _ ?new]) (simp add: new_stay_def)
  have part3: "(\<forall>s\<in>set (stays d). \<not> (s_hotel_id s = hotel_id
                                 \<and> pms_reservation_id s = Some (reservation_id r)))
        \<longrightarrow> length (filter (\<lambda>s. s_hotel_id s = hotel_id
                                  \<and> pms_reservation_id s = Some (reservation_id r)) (stays d2)) = 1"
  proof
    assume a: "\<forall>s\<in>set (stays d). \<not> (s_hotel_id s = hotel_id
                                 \<and> pms_reservation_id s = Some (reservation_id r))"
    have "filter (\<lambda>s. s_hotel_id s = hotel_id \<and> pms_reservation_id s = Some (reservation_id r))
            (map h (stays d4)) = []"
      using a pf closes_key [OF h] by (auto simp: filter_empty_conv)
    then show "length (filter (\<lambda>s. s_hotel_id s = hotel_id
                                  \<and> pms_reservation_id s = Some (reservation_id r)) (stays d2)) = 1"
      using st eq by (simp add: new_stay_def)
  qed
  from eq part2 part3 show ?thesis by blast
qed

text \<open>
  Re-processing under the key the code uses. Let a first processing of an \<open>in_house\<close>
  reservation create a stay, in a database whose events refer to existing stays.
  Processing the same payload again leaves the database as it is; there is then exactly one
  stay for (hotel, guest, reservation id), \<open>IN_HOUSE\<close> with the room and dates of the
  payload, and any journey has at most one \<open>PENDING\<close> or \<open>SENT\<close> event for it. There
  is exactly one stay for (hotel, reservation id) only when no stay carried the reservation
  id in this hotel before the first processing.
\<close>

lemma handle_checkin_again_same_guest:
  assumes "events_refer_to_stays d"
    and "handle_checkin sha256 now d hotel_id r st = (d1, st1)"
    and "stays_created st1 = Suc (stays_created st)"
    and "handle_checkin sha256 now' d1 hotel_id r st1 = (d2, st2)"
    and "checkin_prepare sha256 d hotel_id r = (d4, g, rid)"
  shows "d2 = d1
    \<and> (\<exists>stay. filter (is_reservation_stay hotel_id (g_id g) (reservation_id r)) (stays d2) = [stay]
          \<and> status stay = IN_HOUSE \<and> s_room_id stay = rid
          \<and> checkin_date stay = res_checkin_date r \<and> checkout_date stay = res_checkout_date r
          \<and> length (scheduled_events d2 j (s_id stay)) \<le> 1)
    \<and> (reservation_stays d hotel_id (reservation_id r) = []
        \<longrightarrow> length (reservation_stays d2 hotel_id (reservation_id r)) = 1)"
  using handle_checkin_twice [OF assms [unfolded events_refer_to_stays_def], of j]
  unfolding scheduled_events_def reservation_stays_def filter_empty_conv
  by blast

lemma handle_checkin_again_same_guest_example:
  "events_refer_to_stays prior_db
   \<and> stays_created (snd prior_run1) = Suc (stays_created no_stats)
   \<and> reservation_stays prior_db 1 (reservation_id resR1) = []
   \<and> fst prior_run2 = fst prior_run1
   \<and> length (reservation_stays (fst prior_run2) 1 (reservation_id resR1)) = 1
   \<and> length (scheduled_events (fst prior_run2) 1 2) = 1"
proof -
  have fk: "events_refer_to_stays prior_db"
    by (simp add: events_refer_to_stays_def prior_db_def welcome_db_def two_hotels_db_def
          empty_db_def stayA_def)
  have c: "stays_created (snd prior_run1) = Suc (stays_created no_stats)" by code_simp
  have n: "reservation_stays prior_db 1 (reservation_id resR1) = []" by code_simp
  have e: "length (scheduled_events (fst prior_run2) 1 2) = 1" by code_simp
  have r1: "handle_checkin id 1000 prior_db 1 resR1 no_stats = (fst prior_run1, snd prior_run1)"
    by (simp add: prior_run1_def)
  have r2: "handle_checkin id 2000 (fst prior_run1) 1 resR1 (snd prior_run1)
              = (fst prior_run2, snd prior_run2)"
    by (simp add: prior_run2_def)
  have p: "checkin_prepare id prior_db 1 resR1
             = (fst (checkin_prepare id prior_db 1 resR1),
                fst (snd (checkin_prepare id prior_db 1 resR1)),
                snd (snd (checkin_prepare id prior_db 1 resR1)))"
    by simp
  from handle_checkin_again_same_guest [OF fk r1 c r2 p, of 1] n
  have "fst prior_run2 = fst prior_run1
        \<and> length (reservation_stays (fst prior_run2) 1 (reservation_id resR1)) = 1"
    by blast
  with fk c n e show ?thesis by blast
qed

text \<open>
  C1. The code breaks the claim. Step 5 of \<open>_handle_checkin\<close> searches the stay of the
  reservation by hotel, guest and reservation id, where the claim (and the function's own
  comment, and \<open>_handle_checkout\<close>) go by hotel and reservation id. Reservation \<open>R1\<close>
  is stored with an \<open>IN_HOUSE\<close> stay of guest 1; the PMS then reports \<open>R1\<close> with
  another phone number. The first processing of that payload creates a stay (for a new
  guest 2), and after the second processing of the identical payload the hotel has two
  \<open>IN_HOUSE\<close> stays for reservation \<open>R1\<close>, not exactly one.
\<close>

theorem two_stays_for_one_reservation:
  "reservation_stays other_guest_db 1 (reservation_id resR1) = [stayA]
   \<and> stays_created (snd other_run1) = Suc (stays_created no_stats)
   \<and> map s_guest_id (reservation_stays (fst other_run2) 1 (reservation_id resR1)) = [1, 2]
   \<and> map status (reservation_stays (fst other_run2) 1 (reservation_id resR1))
       = [IN_HOUSE, IN_HOUSE]"
  by code_simp

paragraph \<open>The invariant on the create path\<close>

lemma one_in_house_iff:
  "one_in_house d \<longleftrightarrow>
     (\<forall>x. length (in_house_of_guest d x) \<le> 1) \<and> (\<forall>r. length (in_house_in_room d r) \<le> 1)"
proof
  assume a: "one_in_house d"
  from a have ag: "\<And>s. s \<in> set (stays d) \<Longrightarrow> length (in_house_of_guest d (s_guest_id s)) \<le> 1"
    unfolding one_in_house_def by blast
  from a have ar: "\<And>s. s \<in> set (stays d) \<Longrightarrow>
      (case s_room_id s of None \<Rightarrow> True | Some r \<Rightarrow> length (in_house_in_room d r) \<le> 1)"
    unfolding one_in_house_def by blast
  have g: "length (in_house_of_guest d x) \<le> 1" for x
  proof (cases "in_house_of_guest d x")
    case Nil then show ?thesis by simp
  next
    case (Cons s ss)
    then have "s \<in> set (in_house_of_guest d x)" by simp
    then have "s \<in> set (stays d)" "s_guest_id s = x" by (simp_all add: in_house_of_guest_def)
    with ag [of s] show ?thesis by simp
  qed
  have r: "length (in_house_in_room d r) \<le> 1" for r
  proof (cases "in_house_in_room d r")
    case Nil then show ?thesis by simp
  next
    case (Cons s ss)
    then have "s \<in> set (in_house_in_room d r)" by simp
    then have "s \<in> set (stays d)" "s_room_id s = Some r" by (simp_all add: in_house_in_room_def)
    with ar [of s] show ?thesis by simp
  qed
  from g r show "(\<forall>x. length (in_house_of_guest d x) \<le> 1) \<and> (\<forall>r. length (in_house_in_room d r) \<le> 1)"
    by simp
next
  assume b: "(\<forall>x. length (in_house_of_guest d x) \<le> 1) \<and> (\<forall>r. length (in_house_in_room d r) \<le> 1)"
  have "\<forall>s\<in>set (stays d). length (in_house_of_guest d (s_guest_id s)) \<le> 1" using b by blast
  moreover have "\<forall>s\<in>set (stays d).
      (case s_room_id s of None \<Rightarrow> True | Some r \<Rightarrow> length (in_house_in_room d r) \<le> 1)"
  proof
    fix s assume "s \<in> set (stays d)"
    show "case s_room_id s of None \<Rightarrow> True | Some r \<Rightarrow> length (in_house_in_room d r) \<le> 1"
      using b by (cases "s_room_id s") simp_all
  qed
  ultimately show "one_in_house d" unfolding one_in_house_def by blast
qed

lemma length_filter_map_le:
  assumes "\<And>s. P (f s) \<Longrightarrow> P s"
  shows "length (filter P (map f xs)) \<le> length (filter P xs)"
  using assms by (induction xs) (auto simp: le_SucI)

lemma closed_by_no_room:
  assumes "rid = None \<or> rid = Some 0"
  shows "(if s_guest_id s = gid \<and> status s = IN_HOUSE then s\<lparr>status := POST_STAY\<rparr> else s)
     = closed_by gid rid s"
proof (cases "status s = IN_HOUSE \<and> s_guest_id s = gid")
  case True
  then show ?thesis by (simp add: closed_by_def)
next
  case False
  then show ?thesis using assms unfolding closed_by_def by fastforce
qed

lemma closed_by_room:
  assumes "r \<noteq> 0"
  shows "(let s' = (if s_guest_id s = gid \<and> status s = IN_HOUSE then s\<lparr>status := POST_STAY\<rparr> else s)
          in if s_room_id s' = Some r \<and> status s' = IN_HOUSE \<and> s_guest_id s' \<noteq> gid
             then s'\<lparr>status := POST_STAY\<rparr> else s')
           = closed_by gid (Some r) s"
proof (cases "status s = IN_HOUSE")
  case False
  then show ?thesis by (simp add: closed_by_def Let_def)
next
  case ih: True
  show ?thesis
  proof (cases "s_guest_id s = gid")
    case True
    then show ?thesis using ih by (simp add: closed_by_def Let_def)
  next
    case False
    then show ?thesis using ih assms by (simp add: closed_by_def Let_def)
  qed
qed

lemma close_previous_stays_stays:
  "stays (fst (close_previous_stays d gid rid)) = map (closed_by gid rid) (stays d)"
proof (cases "rid = None \<or> rid = Some 0")
  case True
  have "stays (fst (close_previous_stays d gid rid))
          = map (\<lambda>s. if s_guest_id s = gid \<and> status s = IN_HOUSE then s\<lparr>status := POST_STAY\<rparr> else s)
              (stays d)"
    using True by (auto simp: close_previous_stays_def Let_def)
  also have "\<dots> = map (closed_by gid rid) (stays d)"
    using closed_by_no_room [OF True] by simp
  finally show ?thesis .
next
  case False
  then obtain r where r: "rid = Some r" "r \<noteq> 0" by auto
  have "stays (fst (close_previous_stays d gid rid))
          = map (\<lambda>s. let s' = (if s_guest_id s = gid \<and> status s = IN_HOUSE
                                then s\<lparr>status := POST_STAY\<rparr> else s)
                      in if s_room_id s' = Some r \<and> status s' = IN_HOUSE \<and> s_guest_id s' \<noteq> gid
                         then s'\<lparr>status := POST_STAY\<rparr> else s') (stays d)"
    using r by (simp add: close_previous_stays_def Let_def comp_def)
  also have "\<dots> = map (closed_by gid rid) (stays d)"
    using closed_by_room [OF r(2)] r(1) by simp
  finally show ?thesis .
qed

lemma checkin_create_stays:
  "stays (fst (checkin_create now d hotel_id r g rid st))
     = map (closed_by (g_id g) rid) (stays d) @ [new_stay d hotel_id r g rid]"
proof -
  obtain d7 st7 where c: "checkin_create now d hotel_id r g rid st = (d7, st7)"
    by (cases "checkin_create now d hotel_id r g rid st") auto
  obtain d5 n where c5: "close_previous_stays d (g_id g) rid = (d5, n)"
    by (cases "close_previous_stays d (g_id g) rid") auto
  have s5: "stays d5 = map (closed_by (g_id g) rid) (stays d)"
    using close_previous_stays_stays [of d "g_id g" rid] c5 by simp
  from checkin_create_result [OF c] obtain h where
    "stays d7 = map h (stays d) @ [new_stay d hotel_id r g rid]" by blast
  then have l: "last (stays d7) = new_stay d hotel_id r g rid" by simp
  have "\<exists>x. stays d7 = stays d5 @ [x]"
    using c c5 by (auto simp: checkin_create_def Let_def split: option.splits)
  then obtain x where x: "stays d7 = stays d5 @ [x]" by blast
  with l have "x = new_stay d hotel_id r g rid" by simp
  with x s5 c show ?thesis by simp
qed

lemma checkin_create_keeps_invariant:
  assumes inv: "one_in_house d" and rid: "rid \<noteq> Some 0"
  shows "one_in_house (fst (checkin_create now d hotel_id r g rid st))"
proof -
  let ?d' = "fst (checkin_create now d hotel_id r g rid st)"
  let ?cl = "closed_by (g_id g) rid"
  let ?new = "new_stay d hotel_id r g rid"
  have st: "stays ?d' = map ?cl (stays d) @ [?new]" by (rule checkin_create_stays)
  from inv have og: "\<And>x. length (in_house_of_guest d x) \<le> 1"
    and orm: "\<And>y. length (in_house_in_room d y) \<le> 1"
    by (simp_all add: one_in_house_iff)
  have g: "length (in_house_of_guest ?d' x) \<le> 1" for x
  proof (cases "x = g_id g")
    case True
    have "filter (\<lambda>s. s_guest_id s = x \<and> status s = IN_HOUSE) (map ?cl (stays d)) = []"
      using True by (auto simp: filter_empty_conv closed_by_def)
    then show ?thesis by (simp add: in_house_of_guest_def st)
  next
    case False
    have "length (filter (\<lambda>s. s_guest_id s = x \<and> status s = IN_HOUSE) (map ?cl (stays d)))
            \<le> length (filter (\<lambda>s. s_guest_id s = x \<and> status s = IN_HOUSE) (stays d))"
      by (rule length_filter_map_le) (auto simp: closed_by_def split: if_splits)
    also have "\<dots> \<le> 1" using og [of x] by (simp add: in_house_of_guest_def)
    finally show ?thesis using False by (simp add: in_house_of_guest_def st new_stay_def)
  qed
  have rm: "length (in_house_in_room ?d' y) \<le> 1" for y
  proof (cases "rid = Some y")
    case True
    have "filter (\<lambda>s. s_room_id s = Some y \<and> status s = IN_HOUSE) (map ?cl (stays d)) = []"
      using True rid by (auto simp: filter_empty_conv closed_by_def)
    then show ?thesis by (simp add: in_house_in_room_def st)
  next
    case False
    have "length (filter (\<lambda>s. s_room_id s = Some y \<and> status s = IN_HOUSE) (map ?cl (stays d)))
            \<le> length (filter (\<lambda>s. s_room_id s = Some y \<and> status s = IN_HOUSE) (stays d))"
      by (rule length_filter_map_le) (auto simp: closed_by_def split: if_splits)
    also have "\<dots> \<le> 1" using orm [of y] by (simp add: in_house_in_room_def)
    finally show ?thesis using False by (simp add: in_house_in_room_def st new_stay_def)
  qed
  from g rm show ?thesis by (simp add: one_in_house_iff)
qed

lemma one_in_house_stays:
  "stays d' = stays d \<Longrightarrow> one_in_house d' = one_in_house d"
  by (simp add: one_in_house_iff in_house_of_guest_def in_house_in_room_def)

lemma get_or_create_room_key:
  assumes "get_or_create_room d hotel_id number = (d1, rid)"
    and "\<forall>r\<in>set (rooms d). r_id r \<noteq> 0"
  shows "rid \<noteq> Some 0"
proof (cases "truthy number")
  case False
  then have "rid = None"
    using assms(1) by (auto simp: get_or_create_room_def truthy_def split: option.splits if_splits)
  then show ?thesis by simp
next
  case True
  then obtain n where n: "number = Some n" "n \<noteq> []"
    by (auto simp: truthy_def split: option.splits)
  show ?thesis
  proof (cases "find (\<lambda>r. r_hotel_id r = hotel_id \<and> room_number r = n) (rooms d)")
    case None
    then have "rid = Some (fresh_id (map r_id (rooms d)))"
      using assms(1) n by (simp add: get_or_create_room_def Let_def)
    then show ?thesis by (simp add: fresh_id_def)
  next
    case (Some r)
    then have "r \<in> set (rooms d)" by (auto dest: find_Some_prop)
    moreover have "rid = Some (r_id r)"
      using assms(1) n Some by (simp add: get_or_create_room_def)
    ultimately show ?thesis using assms(2) by auto
  qed
qed

lemma checkin_prepare_room_key:
  assumes p: "checkin_prepare sha256 d hotel_id r = (d4, g, rid)"
    and k: "\<forall>x\<in>set (rooms d). r_id x \<noteq> 0"
  shows "rid \<noteq> Some 0"
proof -
  obtain d1 g0 where a: "get_or_create_guest sha256 d hotel_id (guest_phone r) = (d1, g0)"
    by (cases "get_or_create_guest sha256 d hotel_id (guest_phone r)") auto
  let ?d2 = "upsert_guest_pii d1 g0 (guest_name r) (guest_phone r) (guest_email r)"
  let ?c = "truthy (res_preferred_language r) \<and> \<not> truthy (preferred_language g0)"
  let ?d3 = "if ?c then ?d2\<lparr>guests := update_first
                       (\<lambda>g. g_hotel_id g = hotel_id \<and> phone_hash g = hash_phone sha256 (guest_phone r))
                       (\<lambda>g. g\<lparr>preferred_language := res_preferred_language r\<rparr>)
                       (guests ?d2)\<rparr> else ?d2"
  obtain d4' rid' where b: "get_or_create_room ?d3 hotel_id (res_room_number r) = (d4', rid')"
    by (cases "get_or_create_room ?d3 hotel_id (res_room_number r)") auto
  have e: "rid = rid'"
    using p a b by (auto simp: checkin_prepare_def Let_def split: if_splits)
  have "rooms ?d3 = rooms d"
    using get_or_create_guest_result [OF a] by (simp add: upsert_guest_pii_frame)
  then have "\<forall>x\<in>set (rooms ?d3). r_id x \<noteq> 0" using k by simp
  from get_or_create_room_key [OF b this] e show ?thesis by simp
qed

lemma handle_checkin_create_keeps_invariant:
  assumes inv: "one_in_house d"
    and keys: "\<forall>x\<in>set (rooms d). r_id x \<noteq> 0"
    and run: "handle_checkin sha256 now d hotel_id r st = (d1, st1)"
    and created: "stays_created st1 = Suc (stays_created st)"
  shows "one_in_house d1"
proof -
  obtain d4 g rid where p: "checkin_prepare sha256 d hotel_id r = (d4, g, rid)"
    by (cases "checkin_prepare sha256 d hotel_id r") auto
  from handle_checkin_created [OF run created p]
  have cr: "checkin_create now d4 hotel_id r g rid st = (d1, st1)" by simp
  have "one_in_house d4"
    using checkin_prepare_frame [OF p] inv one_in_house_stays [of d4 d] by simp
  from checkin_create_keeps_invariant [OF this checkin_prepare_room_key [OF p keys],
       of now hotel_id r g st] cr
  show ?thesis by simp
qed

text \<open>
  C2 fails on the update path. The create path keeps the invariant (lemma
  \<open>handle_checkin_create_keeps_invariant\<close>): handling \<open>R1\<close> and then \<open>R2\<close> of the same
  guest closes the stay of \<open>R1\<close> before the stay of \<open>R2\<close> is inserted. Handling
  \<open>R1\<close> again finds the existing stay and sets it \<open>IN_HOUSE\<close> without closing the
  other stay: the guest then has two \<open>IN_HOUSE\<close> stays.
\<close>

theorem reopened_stay_breaks_invariant:
  "map status (stays (fst sync2)) = [POST_STAY, IN_HOUSE]
   \<and> length (in_house_of_guest (fst sync2) 1) = 1
   \<and> map s_guest_id (stays (fst sync3)) = [1, 1]
   \<and> map status (stays (fst sync3)) = [IN_HOUSE, IN_HOUSE]
   \<and> length (in_house_of_guest (fst sync3) 1) = 2"
  by code_simp

lemma reopened_stay_one_in_house:
  "one_in_house (fst sync2) \<and> \<not> one_in_house (fst sync3)"
  by code_simp

subsection \<open>Task creation\<close>









text \<open>
  The summary compared by the dedup gate is the one stored: the same request text from
  rooms 101 and 102 of one hotel gives two tasks within the window.
\<close>

lemma same_text_other_room:
  "map staff_summary
     (tasks (fst (create_task ascii_lower (seconds 130)
                    (fst (create_task ascii_lower (seconds 100) two_hotels_db room_brain
                            towels_args))
                    (room_brain\<lparr>b_room := Some (cp ''102'')\<rparr>) towels_args)))
   = [Some (cp ''Room 101: 2 towels''), Some (cp ''Room 102: 2 towels'')]"
  by code_simp

subsection \<open>Journey scheduler\<close>

lemma set_event_status_ids:
  "map e_id (journey_events (set_event_status d i st)) = map e_id (journey_events d)"
  by (simp add: set_event_status_def comp_def)

lemma set_event_status_other:
  "e \<in> set (journey_events d) \<Longrightarrow> e_id e \<noteq> i \<Longrightarrow> e \<in> set (journey_events (set_event_status d i st))"
  by (force simp: set_event_status_def)

lemma set_event_status_cong:
  "journey_events dd = journey_events d \<Longrightarrow>
     journey_events (set_event_status dd i st) = journey_events (set_event_status d i st)"
  by (simp add: set_event_status_def)

lemma journey_conversation_events:
  "journey_events (fst (journey_conversation now d ev stay)) = journey_events d"
  by (simp add: journey_conversation_def Let_def split: list.splits)

lemma add_message_events: "journey_events (add_message now d c t) = journey_events d"
  by (simp add: add_message_def)

lemma step_shape_same: "step_shape ev d sends (d, sends)"
  by (simp add: step_shape_def)

lemma step_shape_set:
  "journey_events dd = journey_events d \<Longrightarrow> s' = sends \<or> s' = sends @ [e_id ev] \<Longrightarrow>
     step_shape ev d sends (set_event_status dd (e_id ev) st, s')"
  unfolding step_shape_def using set_event_status_cong [of dd d "e_id ev" st] by auto

lemma step_shape_keep:
  "journey_events dd = journey_events d \<Longrightarrow> step_shape ev d sends (dd, sends)"
  by (simp add: step_shape_def)

lemma dispatch_send_shape: "step_shape ev d sends (dispatch_send env now ev stay d sends)"
proof -
  obtain d1 c where jc: "journey_conversation now d ev stay = (d1, c)"
    by (cases "journey_conversation now d ev stay") auto
  have e1: "journey_events d1 = journey_events d"
    using journey_conversation_events [of now d ev stay] jc by simp
  let ?dup = "find (\<lambda>m. m_conversation_id m = c_id c \<and> direction m = OUTGOING
                        \<and> m_text m = message_text env d1 ev \<and> m_created_at m \<ge> now - minutes 5)
              (messages d1) \<noteq> None"
  show ?thesis
  proof (cases ?dup)
    case True
    then have "dispatch_send env now ev stay d sends = (set_event_status d1 (e_id ev) SENT, sends)"
      using jc by (simp add: dispatch_send_def Let_def)
    then show ?thesis using step_shape_set [OF e1, of sends sends ev SENT] by simp
  next
    case nd: False
    show ?thesis
    proof (cases "find (\<lambda>h. h_id h = e_hotel_id ev) (hotels d1)")
      case None
      then have "dispatch_send env now ev stay d sends = (d1, sends)"
        using jc nd by (simp add: dispatch_send_def Let_def)
      then show ?thesis using step_shape_keep [OF e1] by simp
    next
      case (Some h)
      let ?m = "add_message now d1 (c_id c) (logged_text env d1 ev)"
      have em: "journey_events ?m = journey_events d" using e1 by (simp add: add_message_events)
      show ?thesis
      proof (cases "transport env d1 ev")
        case (Delivered f)
        let ?d3 = "if f then add_message now ?m (c_id c) ''[Template: welcome_guest, lang: en]'' else ?m"
        have e3: "journey_events ?d3 = journey_events d" using em by (simp add: add_message_events)
        have "dispatch_send env now ev stay d sends
                = (set_event_status ?d3 (e_id ev) SENT, sends @ [e_id ev])"
          using jc nd Some Delivered by (simp add: dispatch_send_def Let_def)
        then show ?thesis using step_shape_set [OF e3, of "sends @ [e_id ev]" sends ev SENT] by simp
      next
        case Refused
        have "dispatch_send env now ev stay d sends
                = (set_event_status ?m (e_id ev) CANCELLED, sends @ [e_id ev])"
          using jc nd Some Refused by (simp add: dispatch_send_def Let_def)
        then show ?thesis
          using step_shape_set [OF em, of "sends @ [e_id ev]" sends ev CANCELLED] by simp
      next
        case ProviderRaised
        have "dispatch_send env now ev stay d sends = (set_event_status d1 (e_id ev) CANCELLED, sends)"
          using jc nd Some ProviderRaised by (simp add: dispatch_send_def Let_def)
        then show ?thesis using step_shape_set [OF e1, of sends sends ev CANCELLED] by simp
      next
        case SendRaised
        have "dispatch_send env now ev stay d sends
                = (set_event_status ?m (e_id ev) CANCELLED, sends @ [e_id ev])"
          using jc nd Some SendRaised by (simp add: dispatch_send_def Let_def)
        then show ?thesis
          using step_shape_set [OF em, of "sends @ [e_id ev]" sends ev CANCELLED] by simp
      qed
    qed
  qed
qed

lemma dispatch_event_shape:
  "step_shape ev (fst acc) (snd acc) (dispatch_event env now ev acc)"
proof (cases "find (\<lambda>s. s_id s = e_stay_id ev) (stays (fst acc))")
  case None
  then have "dispatch_event env now ev acc = (set_event_status (fst acc) (e_id ev) CANCELLED, snd acc)"
    by (simp add: dispatch_event_def Let_def)
  then show ?thesis using step_shape_set [OF refl, of "snd acc" "snd acc" ev "fst acc" CANCELLED] by simp
next
  case (Some stay)
  have c: "step_shape ev (fst acc) (snd acc) (set_event_status (fst acc) (e_id ev) CANCELLED, snd acc)"
    using step_shape_set [OF refl, of "snd acc" "snd acc" ev "fst acc" CANCELLED] by simp
  show ?thesis
    using Some c step_shape_same [of ev "fst acc" "snd acc"]
      dispatch_send_shape [of ev "fst acc" "snd acc" env now stay]
    by (simp add: dispatch_event_def Let_def)
qed


lemma step_shape_ids:
  "step_shape ev d sends res \<Longrightarrow> map e_id (journey_events (fst res)) = map e_id (journey_events d)"
  unfolding step_shape_def using set_event_status_ids by metis

lemma step_shape_other:
  assumes "step_shape ev d sends res" and "e \<in> set (journey_events d)" and "e_id ev \<noteq> e_id e"
  shows "e \<in> set (journey_events (fst res))
         \<and> (e_id e \<notin> set sends \<longrightarrow> e_id e \<notin> set (snd res))"
proof -
  have a: "e \<in> set (journey_events (fst res))"
    using assms set_event_status_other [of e d "e_id ev"] unfolding step_shape_def by metis
  have b: "e_id e \<notin> set sends \<longrightarrow> e_id e \<notin> set (snd res)"
    using assms unfolding step_shape_def by auto
  from a b show ?thesis by simp
qed

lemma fold_dispatch_other:
  assumes "\<forall>x\<in>set evs. e_id x \<noteq> e_id e" and "e \<in> set (journey_events (fst acc))"
    and "e_id e \<notin> set (snd acc)"
  shows "e \<in> set (journey_events (fst (fold (dispatch_event env now) evs acc)))
         \<and> e_id e \<notin> set (snd (fold (dispatch_event env now) evs acc))"
  using assms
proof (induction evs arbitrary: acc)
  case Nil
  then show ?case by simp
next
  case (Cons x xs)
  have sh: "step_shape x (fst acc) (snd acc) (dispatch_event env now x acc)"
    by (rule dispatch_event_shape)
  have ne: "e_id x \<noteq> e_id e" using Cons.prems(1) by simp
  from step_shape_other [OF sh Cons.prems(2) ne] Cons.prems(3)
  have "e \<in> set (journey_events (fst (dispatch_event env now x acc)))"
    and "e_id e \<notin> set (snd (dispatch_event env now x acc))" by simp_all
  moreover have "\<forall>y\<in>set xs. e_id y \<noteq> e_id e" using Cons.prems(1) by simp
  ultimately show ?case using Cons.IH by simp
qed

lemma fold_dispatch_ids:
  "map e_id (journey_events (fst (fold (dispatch_event env now) evs acc)))
     = map e_id (journey_events (fst acc))"
proof (induction evs arbitrary: acc)
  case Nil
  then show ?case by simp
next
  case (Cons x xs)
  have "map e_id (journey_events (fst (dispatch_event env now x acc)))
          = map e_id (journey_events (fst acc))"
    using step_shape_ids [OF dispatch_event_shape] .
  then show ?case using Cons.IH by simp
qed

lemma cancel_fold_events:
  "journey_events (fold (\<lambda>stale d'. set_event_status d' (e_id stale) CANCELLED) xs d)
     = map (\<lambda>x. if e_id x \<in> e_id ` set xs then x\<lparr>e_status := CANCELLED\<rparr> else x)
         (journey_events d)"
proof (induction xs arbitrary: d)
  case Nil
  then show ?case by simp
next
  case (Cons y ys)
  have "journey_events (fold (\<lambda>stale d'. set_event_status d' (e_id stale) CANCELLED) (y # ys) d)
          = map (\<lambda>x. if e_id x \<in> e_id ` set ys then x\<lparr>e_status := CANCELLED\<rparr> else x)
              (journey_events (set_event_status d (e_id y) CANCELLED))"
    using Cons.IH [of "set_event_status d (e_id y) CANCELLED"] by simp
  also have "\<dots> = map (\<lambda>x. if e_id x \<in> e_id ` set (y # ys) then x\<lparr>e_status := CANCELLED\<rparr> else x)
              (journey_events d)"
    by (auto simp: set_event_status_def)
  finally show ?case .
qed

lemma cancel_stale_events:
  "journey_events (cancel_stale now d)
     = map (\<lambda>x. if e_id x \<in> e_id ` {s \<in> set (journey_events d). is_stale now s}
                 then x\<lparr>e_status := CANCELLED\<rparr> else x) (journey_events d)"
  by (simp add: cancel_stale_def cancel_fold_events)

lemma cancel_stale_ids:
  "map e_id (journey_events (cancel_stale now d)) = map e_id (journey_events d)"
  by (simp add: cancel_stale_events comp_def if_distrib cong: if_cong)

lemma cancel_stale_cancels:
  assumes "e \<in> set (journey_events d)" and "is_stale now e"
  shows "e\<lparr>e_status := CANCELLED\<rparr> \<in> set (journey_events (cancel_stale now d))"
  using assms by (force simp: cancel_stale_events)

lemma cancel_stale_keeps_cancelled:
  assumes "e \<in> set (journey_events d)" and "e_status e = CANCELLED"
  shows "e \<in> set (journey_events (cancel_stale now d))"
proof -
  have "e\<lparr>e_status := CANCELLED\<rparr> = e" using assms(2) by simp
  then show ?thesis using assms(1) by (force simp: cancel_stale_events)
qed

lemma distinct_ids_same:
  assumes "distinct (map e_id xs)" and "x \<in> set xs" and "y \<in> set xs" and "e_id x = e_id y"
  shows "x = y"
  using assms by (meson distinct_map inj_onD)

lemma cycle_keeps_cancelled:
  assumes dist: "distinct (map e_id (journey_events d))"
    and mem: "e \<in> set (journey_events d)" and c: "e_status e = CANCELLED"
  shows "e \<in> set (journey_events (fst (process_pending_journeys env now d)))
         \<and> e_id e \<notin> set (snd (process_pending_journeys env now d))
         \<and> map e_id (journey_events (fst (process_pending_journeys env now d)))
             = map e_id (journey_events d)"
proof -
  let ?d1 = "cancel_stale now d"
  have m1: "e \<in> set (journey_events ?d1)" using mem c by (rule cancel_stale_keeps_cancelled)
  have d1: "distinct (map e_id (journey_events ?d1))" using dist by (simp add: cancel_stale_ids)
  have other: "\<forall>x\<in>set (filter (is_due now) (journey_events ?d1)). e_id x \<noteq> e_id e"
  proof
    fix x assume x: "x \<in> set (filter (is_due now) (journey_events ?d1))"
    then have "x \<in> set (journey_events ?d1)" and "e_status x = PENDING"
      by (simp_all add: is_due_def)
    then have "x \<noteq> e" using c by auto
    then show "e_id x \<noteq> e_id e"
      using distinct_ids_same [OF d1 \<open>x \<in> set (journey_events ?d1)\<close> m1] by blast
  qed
  have "e \<in> set (journey_events (fst (dispatch_due env now ?d1)))
        \<and> e_id e \<notin> set (snd (dispatch_due env now ?d1))"
    unfolding dispatch_due_def
    by (rule fold_dispatch_other [OF other]) (use m1 in simp_all)
  moreover have "map e_id (journey_events (fst (dispatch_due env now ?d1)))
                   = map e_id (journey_events d)"
    by (simp add: dispatch_due_def fold_dispatch_ids cancel_stale_ids)
  ultimately show ?thesis by (simp add: process_pending_journeys_def)
qed

lemma run_cycles_keeps_cancelled:
  assumes "distinct (map e_id (journey_events (fst acc)))"
    and "e \<in> set (journey_events (fst acc))" and "e_status e = CANCELLED"
    and "e_id e \<notin> set (snd acc)"
  shows "e \<in> set (journey_events (fst (run_cycles cs acc)))
         \<and> e_id e \<notin> set (snd (run_cycles cs acc))"
  using assms
proof (induction cs arbitrary: acc)
  case Nil
  then show ?case by simp
next
  case (Cons c cs)
  obtain env now where cn: "c = (env, now)" by (cases c) auto
  obtain d' sends where p: "process_pending_journeys env now (fst acc) = (d', sends)"
    by (cases "process_pending_journeys env now (fst acc)") auto
  from cycle_keeps_cancelled [OF Cons.prems(1,2,3), of env now] p
  have k: "e \<in> set (journey_events d')" "e_id e \<notin> set sends"
    "map e_id (journey_events d') = map e_id (journey_events (fst acc))" by simp_all
  have "e \<in> set (journey_events (fst (run_cycles cs (d', snd acc @ sends))))
        \<and> e_id e \<notin> set (snd (run_cycles cs (d', snd acc @ sends)))"
    by (rule Cons.IH) (use k Cons.prems in simp_all)
  then show ?case using cn p by simp
qed

lemma dispatch_due_keeps_cancelled:
  assumes dist: "distinct (map e_id (journey_events d))"
    and mem: "e \<in> set (journey_events d)" and c: "e_status e = CANCELLED"
  shows "e \<in> set (journey_events (fst (dispatch_due env now d)))
         \<and> e_id e \<notin> set (snd (dispatch_due env now d))"
proof -
  have other: "\<forall>x\<in>set (filter (is_due now) (journey_events d)). e_id x \<noteq> e_id e"
  proof
    fix x assume x: "x \<in> set (filter (is_due now) (journey_events d))"
    then have xm: "x \<in> set (journey_events d)" and "e_status x = PENDING"
      by (simp_all add: is_due_def)
    then have "x \<noteq> e" using c by auto
    then show "e_id x \<noteq> e_id e"
      using distinct_ids_same [OF dist xm mem] by blast
  qed
  show ?thesis
    unfolding dispatch_due_def
    by (rule fold_dispatch_other [OF other]) (use mem in simp_all)
qed

text \<open>
  C5. A cycle is the staleness pass followed by the dispatch pass on its result. A
  \<open>PENDING\<close> event whose \<open>run_at\<close> is more than 30 minutes before the start of the
  cycle is \<open>CANCELLED\<close> by the staleness pass, is still \<open>CANCELLED\<close> after this and
  any number of later cycles, and no send is attempted for it in any of them (event keys
  are distinct, as primary keys are).
\<close>

theorem stale_event_cancelled_never_sent:
  assumes "distinct (map e_id (journey_events d))"
    and "e \<in> set (journey_events d)"
    and "e_status e = PENDING"
    and "run_at e < now - minutes 30"
  shows "process_pending_journeys env now d = dispatch_due env now (cancel_stale now d)
    \<and> e\<lparr>e_status := CANCELLED\<rparr> \<in> set (journey_events (cancel_stale now d))
    \<and> e\<lparr>e_status := CANCELLED\<rparr>
         \<in> set (journey_events (fst (run_cycles ((env, now) # later) (d, []))))
    \<and> e_id e \<notin> set (snd (run_cycles ((env, now) # later) (d, [])))"
proof -
  let ?c = "e\<lparr>e_status := CANCELLED\<rparr>"
  let ?d1 = "cancel_stale now d"
  have st: "is_stale now e" using assms(3,4) by (simp add: is_stale_def)
  have m1: "?c \<in> set (journey_events ?d1)" using assms(2) st by (rule cancel_stale_cancels)
  have d1: "distinct (map e_id (journey_events ?d1))" using assms(1) by (simp add: cancel_stale_ids)
  have cs: "e_status ?c = CANCELLED" by simp
  obtain d' sends where p: "process_pending_journeys env now d = (d', sends)"
    by (cases "process_pending_journeys env now d") auto
  from dispatch_due_keeps_cancelled [OF d1 m1 cs, of env now] p
  have k: "?c \<in> set (journey_events d')" "e_id ?c \<notin> set sends"
    by (simp_all add: process_pending_journeys_def)
  have "d' = fst (dispatch_due env now ?d1)"
    using p by (simp add: process_pending_journeys_def)
  then have "map e_id (journey_events d') = map e_id (journey_events d)"
    by (simp add: dispatch_due_def fold_dispatch_ids cancel_stale_ids)
  then have dd: "distinct (map e_id (journey_events d'))" using assms(1) by simp
  have "?c \<in> set (journey_events (fst (run_cycles later (d', sends))))
        \<and> e_id ?c \<notin> set (snd (run_cycles later (d', sends)))"
    by (rule run_cycles_keeps_cancelled) (use k dd in simp_all)
  then show ?thesis using p m1 by (simp add: process_pending_journeys_def)
qed

theorem stale_event_cancelled_never_sent_witness:
  "distinct (map e_id (journey_events journey_db))
   \<and> evStale \<in> set (journey_events journey_db)
   \<and> e_status evStale = PENDING
   \<and> run_at evStale < minutes 60 - minutes 30
   \<and> evStale\<lparr>e_status := CANCELLED\<rparr>
        \<in> set (journey_events (fst (run_cycles [(env0, minutes 60), (env0, minutes 70)]
                                     (journey_db, []))))
   \<and> e_id evStale \<notin> set (snd (run_cycles [(env0, minutes 60), (env0, minutes 70)]
                                     (journey_db, [])))
   \<and> snd (run_cycles [(env0, minutes 60), (env0, minutes 70)] (journey_db, [])) = [2]"
proof -
  have a: "distinct (map e_id (journey_events journey_db))" by code_simp
  have b: "evStale \<in> set (journey_events journey_db)" by code_simp
  have c: "e_status evStale = PENDING" by code_simp
  have d: "run_at evStale < minutes 60 - minutes 30" by code_simp
  have e: "snd (run_cycles [(env0, minutes 60), (env0, minutes 70)] (journey_db, [])) = [2]"
    by code_simp
  from stale_event_cancelled_never_sent [OF a b c d, of env0 "[(env0, minutes 70)]"] a b c d e
  show ?thesis by blast
qed

paragraph \<open>The eligibility re-check within a cycle\<close>

lemma core_kept_refl: "core_kept d d"
  by (simp add: core_kept_def)

lemma core_kept_trans: "core_kept a b \<Longrightarrow> core_kept b c \<Longrightarrow> core_kept a c"
  by (simp add: core_kept_def)

lemma core_kept_set_event_status: "core_kept d (set_event_status d i st)"
  by (simp add: core_kept_def set_event_status_def)

lemma core_kept_add_message: "core_kept d (add_message now d c t)"
  by (simp add: core_kept_def add_message_def)

lemma core_kept_journey_conversation:
  "core_kept d (fst (journey_conversation now d ev stay))"
  by (simp add: core_kept_def journey_conversation_def Let_def split: list.splits)

lemma dispatch_send_core: "core_kept d (fst (dispatch_send env now ev stay d sends))"
proof -
  obtain d1 c where jc: "journey_conversation now d ev stay = (d1, c)"
    by (cases "journey_conversation now d ev stay") auto
  have k1: "core_kept d d1"
    using core_kept_journey_conversation [of d now ev stay] jc by simp
  let ?m = "add_message now d1 (c_id c) (logged_text env d1 ev)"
  have km: "core_kept d ?m" using k1 core_kept_add_message core_kept_trans by blast
  have ks: "\<And>x i st. core_kept d x \<Longrightarrow> core_kept d (set_event_status x i st)"
    using core_kept_set_event_status core_kept_trans by blast
  let ?dup = "find (\<lambda>m. m_conversation_id m = c_id c \<and> direction m = OUTGOING
                        \<and> m_text m = message_text env d1 ev \<and> m_created_at m \<ge> now - minutes 5)
              (messages d1) \<noteq> None"
  show ?thesis
  proof (cases ?dup)
    case True
    then have "dispatch_send env now ev stay d sends = (set_event_status d1 (e_id ev) SENT, sends)"
      using jc by (simp add: dispatch_send_def Let_def)
    then show ?thesis using ks [OF k1] by simp
  next
    case nd: False
    show ?thesis
    proof (cases "find (\<lambda>h. h_id h = e_hotel_id ev) (hotels d1)")
      case None
      then have "dispatch_send env now ev stay d sends = (d1, sends)"
        using jc nd by (simp add: dispatch_send_def Let_def)
      then show ?thesis using k1 by simp
    next
      case (Some h)
      show ?thesis
      proof (cases "transport env d1 ev")
        case (Delivered f)
        let ?d3 = "if f then add_message now ?m (c_id c) ''[Template: welcome_guest, lang: en]'' else ?m"
        have k3: "core_kept d ?d3"
          using km core_kept_add_message core_kept_trans by (cases f) auto
        have "dispatch_send env now ev stay d sends
                = (set_event_status ?d3 (e_id ev) SENT, sends @ [e_id ev])"
          using jc nd Some Delivered by (simp add: dispatch_send_def Let_def)
        then show ?thesis using ks [OF k3] by simp
      next
        case Refused
        have "dispatch_send env now ev stay d sends
                = (set_event_status ?m (e_id ev) CANCELLED, sends @ [e_id ev])"
          using jc nd Some Refused by (simp add: dispatch_send_def Let_def)
        then show ?thesis using ks [OF km] by simp
      next
        case ProviderRaised
        have "dispatch_send env now ev stay d sends = (set_event_status d1 (e_id ev) CANCELLED, sends)"
          using jc nd Some ProviderRaised by (simp add: dispatch_send_def Let_def)
        then show ?thesis using ks [OF k1] by simp
      next
        case SendRaised
        have "dispatch_send env now ev stay d sends
                = (set_event_status ?m (e_id ev) CANCELLED, sends @ [e_id ev])"
          using jc nd Some SendRaised by (simp add: dispatch_send_def Let_def)
        then show ?thesis using ks [OF km] by simp
      qed
    qed
  qed
qed

lemma dispatch_event_core: "core_kept (fst acc) (fst (dispatch_event env now ev acc))"
proof (cases "find (\<lambda>s. s_id s = e_stay_id ev) (stays (fst acc))")
  case None
  then show ?thesis
    by (simp add: dispatch_event_def Let_def core_kept_set_event_status)
next
  case (Some stay)
  show ?thesis
    using Some core_kept_set_event_status [of "fst acc" "e_id ev" CANCELLED]
      core_kept_refl [of "fst acc"] dispatch_send_core [of "fst acc" env now ev stay "snd acc"]
    by (simp add: dispatch_event_def Let_def)
qed

lemma fold_dispatch_core:
  "core_kept (fst acc) (fst (fold (dispatch_event env now) evs acc))"
proof (induction evs arbitrary: acc)
  case Nil
  then show ?case by (simp add: core_kept_refl)
next
  case (Cons x xs)
  have "core_kept (fst acc) (fst (dispatch_event env now x acc))" by (rule dispatch_event_core)
  moreover have "core_kept (fst (dispatch_event env now x acc))
                   (fst (fold (dispatch_event env now) xs (dispatch_event env now x acc)))"
    by (rule Cons.IH)
  ultimately show ?case using core_kept_trans by simp
qed

lemma cancel_fold_core:
  "core_kept d (fold (\<lambda>stale d'. set_event_status d' (e_id stale) CANCELLED) xs d)"
proof (induction xs arbitrary: d)
  case Nil
  then show ?case by (simp add: core_kept_refl)
next
  case (Cons y ys)
  have "core_kept d (set_event_status d (e_id y) CANCELLED)" by (rule core_kept_set_event_status)
  moreover have "core_kept (set_event_status d (e_id y) CANCELLED)
     (fold (\<lambda>stale d'. set_event_status d' (e_id stale) CANCELLED) ys
        (set_event_status d (e_id y) CANCELLED))" by (rule Cons.IH)
  ultimately show ?case using core_kept_trans by simp
qed

lemma cancel_stale_core: "core_kept d (cancel_stale now d)"
  by (simp add: cancel_stale_def cancel_fold_core)

lemma get_wa_id_core:
  assumes "core_kept d d'"
  shows "get_wa_id d' ev = get_wa_id d ev"
proof -
  from assms have "guests d' = guests d" "piis d' = piis d" by (simp_all add: core_kept_def)
  then show ?thesis by (simp add: get_wa_id_def cong: option.case_cong)
qed

lemma cancel_stale_keeps_fresh:
  assumes "distinct (map e_id (journey_events d))" and "e \<in> set (journey_events d)"
    and "\<not> is_stale now e"
  shows "e \<in> set (journey_events (cancel_stale now d))"
proof -
  have "e_id e \<notin> e_id ` {s \<in> set (journey_events d). is_stale now s}"
  proof
    assume "e_id e \<in> e_id ` {s \<in> set (journey_events d). is_stale now s}"
    then obtain s where s: "s \<in> set (journey_events d)" "is_stale now s" "e_id e = e_id s" by auto
    from distinct_ids_same [OF assms(1) assms(2) s(1) s(3)] s(2) assms(3) show False by simp
  qed
  then show ?thesis using assms(2) by (force simp: cancel_stale_events)
qed

lemma set_event_status_self:
  "e \<in> set (journey_events d) \<Longrightarrow>
     e\<lparr>e_status := st\<rparr> \<in> set (journey_events (set_event_status d (e_id e) st))"
  by (force simp: set_event_status_def)


lemma distinct_ids_filter:
  "distinct (map e_id xs) \<Longrightarrow> distinct (map e_id (filter P xs))"
  by (induction xs) auto

text \<open>The cycle, seen from one due event: the events before it, its own step, the rest.\<close>

lemma cycle_split:
  assumes dist: "distinct (map e_id (journey_events d))"
    and mem: "e \<in> set (journey_events d)"
    and due: "is_due now e" and fresh: "\<not> is_stale now e"
  shows "\<exists>acc1 post.
           core_kept d (fst acc1) \<and> e \<in> set (journey_events (fst acc1))
         \<and> e_id e \<notin> set (snd acc1)
         \<and> (\<forall>x\<in>set post. e_id x \<noteq> e_id e)
         \<and> process_pending_journeys env now d
             = fold (dispatch_event env now) post (dispatch_event env now e acc1)"
proof -
  let ?d1 = "cancel_stale now d"
  let ?L = "filter (is_due now) (journey_events ?d1)"
  have m1: "e \<in> set (journey_events ?d1)" using dist mem fresh by (rule cancel_stale_keeps_fresh)
  have d1: "distinct (map e_id (journey_events ?d1))" using dist by (simp add: cancel_stale_ids)
  have dl: "distinct (map e_id ?L)" using d1 by (rule distinct_ids_filter)
  have "e \<in> set ?L" using m1 due by simp
  then obtain pre post where sp: "?L = pre @ e # post" by (meson split_list)
  have ids: "distinct (map e_id pre @ e_id e # map e_id post)" using dl sp by simp
  have "e_id e \<notin> e_id ` set pre" "e_id e \<notin> e_id ` set post" using ids by auto
  then have pre: "\<forall>x\<in>set pre. e_id x \<noteq> e_id e"
    and post: "\<forall>x\<in>set post. e_id x \<noteq> e_id e" by (metis imageI)+
  let ?acc1 = "fold (dispatch_event env now) pre (?d1, [])"
  have k: "core_kept d (fst ?acc1)"
    using cancel_stale_core [of d now] fold_dispatch_core [of "(?d1, [])" env now pre]
      core_kept_trans by fastforce
  have o: "e \<in> set (journey_events (fst ?acc1)) \<and> e_id e \<notin> set (snd ?acc1)"
    by (rule fold_dispatch_other [OF pre]) (use m1 in simp_all)
  have "process_pending_journeys env now d
          = fold (dispatch_event env now) post (dispatch_event env now e ?acc1)"
    by (simp add: process_pending_journeys_def dispatch_due_def sp)
  with k o post show ?thesis by blast
qed

lemma dispatch_event_recheck:
  "(find (\<lambda>s. s_id s = e_stay_id ev) (stays d) = None \<longrightarrow>
      dispatch_event env now ev (d, sends) = (set_event_status d (e_id ev) CANCELLED, sends))
   \<and> (find (\<lambda>s. s_id s = e_stay_id ev) (stays d) = Some stay
        \<and> determine_state now (Some (attrs stay)) \<noteq> IN_HOUSE \<longrightarrow>
      dispatch_event env now ev (d, sends) = (d, sends))
   \<and> (find (\<lambda>s. s_id s = e_stay_id ev) (stays d) = Some stay
        \<and> determine_state now (Some (attrs stay)) = IN_HOUSE
        \<and> (\<not> whatsapp_opt_in stay \<or> \<not> truthy (get_wa_id d ev)) \<longrightarrow>
      dispatch_event env now ev (d, sends) = (set_event_status d (e_id ev) CANCELLED, sends))"
  by (simp add: dispatch_event_def Let_def)

text \<open>
  C6, as amended. In a cycle, every due \<open>PENDING\<close> event (scheduled less than 30
  minutes ago, so not cancelled as stale) is re-checked at dispatch time. When its stay is
  missing, or the stay's derived state is \<open>IN_HOUSE\<close> but the stay has opted out of
  WhatsApp or no phone is on record for the guest, the event is \<open>CANCELLED\<close> at the end
  of the cycle and no send was attempted for it. When the stay's derived state is not
  \<open>IN_HOUSE\<close>, no send was attempted and the event is unchanged at the end of the
  cycle: still \<open>PENDING\<close>, not cancelled.
\<close>

theorem due_event_eligibility_recheck:
  assumes dist: "distinct (map e_id (journey_events d))"
    and mem: "e \<in> set (journey_events d)"
    and pend: "e_status e = PENDING"
    and fresh: "now - minutes 30 < run_at e"
    and due: "run_at e \<le> now"
  shows
   "(find (\<lambda>s. s_id s = e_stay_id e) (stays d) = None \<longrightarrow>
       e\<lparr>e_status := CANCELLED\<rparr> \<in> set (journey_events (fst (process_pending_journeys env now d)))
       \<and> e_id e \<notin> set (snd (process_pending_journeys env now d)))
    \<and> (find (\<lambda>s. s_id s = e_stay_id e) (stays d) = Some stay
         \<and> determine_state now (Some (attrs stay)) \<noteq> IN_HOUSE \<longrightarrow>
       e \<in> set (journey_events (fst (process_pending_journeys env now d)))
       \<and> e_id e \<notin> set (snd (process_pending_journeys env now d)))
    \<and> (find (\<lambda>s. s_id s = e_stay_id e) (stays d) = Some stay
         \<and> determine_state now (Some (attrs stay)) = IN_HOUSE
         \<and> (\<not> whatsapp_opt_in stay \<or> \<not> truthy (get_wa_id d e)) \<longrightarrow>
       e\<lparr>e_status := CANCELLED\<rparr> \<in> set (journey_events (fst (process_pending_journeys env now d)))
       \<and> e_id e \<notin> set (snd (process_pending_journeys env now d)))"
proof -
  have isd: "is_due now e" using pend due by (simp add: is_due_def)
  have nst: "\<not> is_stale now e" using fresh by (simp add: is_stale_def)
  from cycle_split [OF dist mem isd nst, of env] obtain acc1 post where
    k: "core_kept d (fst acc1)" and m: "e \<in> set (journey_events (fst acc1))"
    and ns: "e_id e \<notin> set (snd acc1)" and post: "\<forall>x\<in>set post. e_id x \<noteq> e_id e"
    and run: "process_pending_journeys env now d
                = fold (dispatch_event env now) post (dispatch_event env now e acc1)"
    by blast
  have st: "stays (fst acc1) = stays d" using k by (simp add: core_kept_def)
  have wa: "get_wa_id (fst acc1) e = get_wa_id d e" using k by (rule get_wa_id_core)
  have pair: "acc1 = (fst acc1, snd acc1)" by simp
  let ?c = "e\<lparr>e_status := CANCELLED\<rparr>"
  have cancelled: "?c \<in> set (journey_events (fst (process_pending_journeys env now d)))
                   \<and> e_id e \<notin> set (snd (process_pending_journeys env now d))"
    if step: "dispatch_event env now e acc1
                = (set_event_status (fst acc1) (e_id e) CANCELLED, snd acc1)"
  proof -
    have a: "?c \<in> set (journey_events (fst (dispatch_event env now e acc1)))"
      using step set_event_status_self [OF m, of CANCELLED] by simp
    have b: "e_id ?c \<notin> set (snd (dispatch_event env now e acc1))" using step ns by simp
    have p: "\<forall>x\<in>set post. e_id x \<noteq> e_id ?c" using post by simp
    from fold_dispatch_other [OF p a b, of env now] run show ?thesis by simp
  qed
  have kept: "e \<in> set (journey_events (fst (process_pending_journeys env now d)))
              \<and> e_id e \<notin> set (snd (process_pending_journeys env now d))"
    if step: "dispatch_event env now e acc1 = acc1"
  proof -
    have a: "e \<in> set (journey_events (fst (dispatch_event env now e acc1)))"
      using step m by simp
    have b: "e_id e \<notin> set (snd (dispatch_event env now e acc1))" using step ns by simp
    from fold_dispatch_other [OF post a b, of env now] run show ?thesis by simp
  qed
  have r: "(find (\<lambda>s. s_id s = e_stay_id e) (stays d) = None \<longrightarrow>
      dispatch_event env now e acc1 = (set_event_status (fst acc1) (e_id e) CANCELLED, snd acc1))
   \<and> (find (\<lambda>s. s_id s = e_stay_id e) (stays d) = Some stay
        \<and> determine_state now (Some (attrs stay)) \<noteq> IN_HOUSE \<longrightarrow>
      dispatch_event env now e acc1 = acc1)
   \<and> (find (\<lambda>s. s_id s = e_stay_id e) (stays d) = Some stay
        \<and> determine_state now (Some (attrs stay)) = IN_HOUSE
        \<and> (\<not> whatsapp_opt_in stay \<or> \<not> truthy (get_wa_id d e)) \<longrightarrow>
      dispatch_event env now e acc1 = (set_event_status (fst acc1) (e_id e) CANCELLED, snd acc1))"
    using dispatch_event_recheck [of e "fst acc1" env now "snd acc1" stay] st wa by simp
  from r cancelled kept show ?thesis by blast
qed

theorem due_event_eligibility_recheck_witness:
  "distinct (map e_id (journey_events late_db))
   \<and> evDue \<in> set (journey_events late_db)
   \<and> e_status evDue = PENDING
   \<and> minutes 60 - minutes 30 < run_at evDue
   \<and> run_at evDue \<le> minutes 60
   \<and> find (\<lambda>s. s_id s = e_stay_id evDue) (stays late_db) = Some stayLate
   \<and> determine_state (minutes 60) (Some (attrs stayLate)) = POST_STAY
   \<and> evDue \<in> set (journey_events (fst (process_pending_journeys env0 (minutes 60) late_db)))
   \<and> e_id evDue \<notin> set (snd (process_pending_journeys env0 (minutes 60) late_db))
   \<and> evDue \<in> set (journey_events optout_db)
   \<and> find (\<lambda>s. s_id s = e_stay_id evDue) (stays optout_db) = Some stayOptOut
   \<and> determine_state (minutes 60) (Some (attrs stayOptOut)) = IN_HOUSE
   \<and> whatsapp_opt_in stayOptOut = False
   \<and> evDue\<lparr>e_status := CANCELLED\<rparr>
        \<in> set (journey_events (fst (process_pending_journeys env0 (minutes 60) optout_db)))
   \<and> e_id evDue \<notin> set (snd (process_pending_journeys env0 (minutes 60) optout_db))
   \<and> evDue \<in> set (journey_events orphan_db)
   \<and> find (\<lambda>s. s_id s = e_stay_id evDue) (stays orphan_db) = None
   \<and> evDue\<lparr>e_status := CANCELLED\<rparr>
        \<in> set (journey_events (fst (process_pending_journeys env0 (minutes 60) orphan_db)))
   \<and> e_id evDue \<notin> set (snd (process_pending_journeys env0 (minutes 60) orphan_db))"
proof -
  have p: "e_status evDue = PENDING" "minutes 60 - minutes 30 < run_at evDue"
    "run_at evDue \<le> minutes 60" by code_simp+
  have l: "distinct (map e_id (journey_events late_db))" "evDue \<in> set (journey_events late_db)"
    "find (\<lambda>s. s_id s = e_stay_id evDue) (stays late_db) = Some stayLate"
    "determine_state (minutes 60) (Some (attrs stayLate)) = POST_STAY" by code_simp+
  have o: "distinct (map e_id (journey_events optout_db))" "evDue \<in> set (journey_events optout_db)"
    "find (\<lambda>s. s_id s = e_stay_id evDue) (stays optout_db) = Some stayOptOut"
    "determine_state (minutes 60) (Some (attrs stayOptOut)) = IN_HOUSE"
    "whatsapp_opt_in stayOptOut = False" by code_simp+
  have n: "distinct (map e_id (journey_events orphan_db))" "evDue \<in> set (journey_events orphan_db)"
    "find (\<lambda>s. s_id s = e_stay_id evDue) (stays orphan_db) = None" by code_simp+
  from due_event_eligibility_recheck [OF l(1,2) p, where stay = stayLate and env = env0] l(3,4)
  have r1: "evDue \<in> set (journey_events (fst (process_pending_journeys env0 (minutes 60) late_db)))
            \<and> e_id evDue \<notin> set (snd (process_pending_journeys env0 (minutes 60) late_db))"
    by simp
  from due_event_eligibility_recheck [OF o(1,2) p, where stay = stayOptOut and env = env0] o(3,4,5)
  have r2: "evDue\<lparr>e_status := CANCELLED\<rparr>
        \<in> set (journey_events (fst (process_pending_journeys env0 (minutes 60) optout_db)))
   \<and> e_id evDue \<notin> set (snd (process_pending_journeys env0 (minutes 60) optout_db))"
    by simp
  from due_event_eligibility_recheck [OF n(1,2) p, where stay = stayLate and env = env0] n(3)
  have r3: "evDue\<lparr>e_status := CANCELLED\<rparr>
        \<in> set (journey_events (fst (process_pending_journeys env0 (minutes 60) orphan_db)))
   \<and> e_id evDue \<notin> set (snd (process_pending_journeys env0 (minutes 60) orphan_db))"
    by simp
  from p l o n r1 r2 r3 show ?thesis by blast
qed

text \<open>
  C6 as stated fails: at minute 60 the event is due and not stale, its stay's check-out
  time has passed, so the derived state is \<open>POST_STAY\<close>; after the cycle the event is
  still \<open>PENDING\<close>, not \<open>CANCELLED\<close>.
\<close>

theorem ineligible_event_stays_pending:
  "is_due (minutes 60) evDue
   \<and> determine_state (minutes 60) (Some (attrs stayLate)) = POST_STAY
   \<and> map e_status (journey_events (fst (process_pending_journeys env0 (minutes 60) late_db)))
       = [PENDING]
   \<and> snd (process_pending_journeys env0 (minutes 60) late_db) = []"
  by code_simp

subsection \<open>Room-code linking\<close>

text \<open>
  Where the token is checked against the registry of the tenant the message names, or of
  the conversation's own tenant, a missing or unregistered token is rejected: by the
  webhook before anything is written, by the worker with the database unchanged.
\<close>

lemma webhook_rejects:
  assumes "hotel_id = Some i" and "i \<noteq> 0" and "find (\<lambda>h. h_id h = i) (hotels d) = Some h"
    and "qr_tokens h \<noteq> {}"
    and "qr_token = None \<or> (\<exists>t. qr_token = Some t \<and> t \<notin> qr_tokens h)"
  shows "receive_whatsapp_webhook_default sha256 d wa_id hotel_id qr_token
           = (if qr_token = None then MissingToken else InvalidToken)"
  using assms by (auto simp: receive_whatsapp_webhook_default_def truthy_id_def)

lemma worker_rejects_own_tenant:
  assumes "find (\<lambda>h. h_id h = c_hotel_id conversation) (hotels d) = Some h"
    and "subscription_tier h \<noteq> ''pro''"
    and "qr_tokens h \<noteq> {}"
    and "\<not> token_registered token (qr_tokens h)"
  shows "handle_whatsapp_room_linking now d conversation (QrScan room_no hid token)
           = (d, True, [InvalidQrReply])"
  using assms by (simp add: handle_whatsapp_room_linking_def)

text \<open>
  C8 fails in the worker. It checks the token against the registry of the conversation's
  hotel, but finds or creates the room under the hotel the message names. The
  conversation of hotel 1 (no tokens) receives \<open>Connect Room 101 #2\<close> without a token;
  hotel 2 has a registered token. The message is not rejected: a room 101 is created
  for hotel 2, the conversation is linked to it, and the guest gets the welcome reply.
\<close>

theorem room_link_not_rejected_for_named_tenant:
  "find (\<lambda>h. h_id h = 2) (hotels link_db) = Some hotel2
   \<and> qr_tokens hotel2 \<noteq> {}
   \<and> handle_whatsapp_room_linking 100 link_db convA spoofed_scan
      = (link_db\<lparr>rooms := [\<lparr>r_id = 1, r_hotel_id = 2, room_number = ''101'', r_is_active = True\<rparr>],
                conversations := [convA\<lparr>c_room_id := Some 1, last_qr_scan_at := Some 100,
                                        c_updated_at := 100\<rparr>]\<rparr>,
         True, [WelcomeReply])"
  by code_simp

end
